(* ===== verification/Prelude.thy ===== *)
theory Prelude
  imports Complex_Main
begin

text \<open>
  Shared vocabulary of the vehicle-edge development: Python text as lists of code points,
  the exceptions the code raises or catches, the result type of a fallible computation,
  association lists as Python dicts with string keys, and the generic lemmas on them.

  A Python \<open>str\<close> is a sequence of Unicode code points, so \<open>pystr\<close> is a list of
  naturals and \<open>u ''...''\<close> is a literal of the source.
\<close>

text \<open>What an operation leaves alone: the selectors of a record it does not change.\<close>

named_theorems frame_simps

section \<open>Text\<close>

type_synonym pystr = "nat list"
type_synonym bytes = "nat list"

definition u :: "string \<Rightarrow> pystr" where
  "u s = map of_char s"

lemma u_Nil [simp]: "u [] = []"
  by (simp add: u_def)

lemma u_Cons: "u (c # s) = of_char c # u s"
  by (simp add: u_def)

lemma u_append: "u (s @ t) = u s @ u t"
  by (simp add: u_def)

lemma u_inject [simp]: "u s = u t \<longleftrightarrow> s = t"
proof -
  have "inj (of_char :: char \<Rightarrow> nat)"
    by (rule injI) simp
  then show ?thesis
    by (simp add: u_def inj_map_eq_map)
qed

lemma u_eq_Nil_iff [simp]: "u s = [] \<longleftrightarrow> s = []" "[] = u s \<longleftrightarrow> s = []"
  by (auto simp: u_def)

section \<open>Exceptions and results\<close>

text \<open>
  The exception classes the program meets. \<open>JSONDecodeError\<close>, \<open>UnicodeError\<close> and
  \<open>BinasciiError\<close> are subclasses of \<open>ValueError\<close>; \<open>CancelledError\<close> is the only one
  that is not a subclass of \<open>Exception\<close>. \<open>OtherError\<close> stands for any further
  subclass of \<open>Exception\<close> a third-party call raises.
\<close>

datatype py_error =
    KeyError | IndexError | TypeError | ValueError | JSONDecodeError | UnicodeError | BinasciiError
  | OverflowError | ZeroDivisionError | AttributeError | RecursionError
  | BadSignatureError | RuntimeError string | OSError | YAMLError
  | ClientError | TimeoutError | CancelledError | OtherError

definition is_ValueError :: "py_error \<Rightarrow> bool" where
  "is_ValueError e \<longleftrightarrow> e \<in> {ValueError, JSONDecodeError, UnicodeError, BinasciiError}"

definition is_Exception :: "py_error \<Rightarrow> bool" where
  "is_Exception e \<longleftrightarrow> e \<noteq> CancelledError"

type_synonym 'a res = "py_error + 'a"

definition rbind :: "'a res \<Rightarrow> ('a \<Rightarrow> 'b res) \<Rightarrow> 'b res" where
  "rbind r f = (case r of Inl e \<Rightarrow> Inl e | Inr x \<Rightarrow> f x)"

lemma rbind_simps [simp]:
  "rbind (Inl e) f = Inl e"
  "rbind (Inr x) f = f x"
  by (simp_all add: rbind_def)

lemma eq_iff_swap: "(a = b \<longleftrightarrow> P) \<Longrightarrow> (b = a \<longleftrightarrow> P)"
  by auto

lemma rbind_eq_Inr_iff: "rbind r f = Inr y \<longleftrightarrow> (\<exists>x. r = Inr x \<and> f x = Inr y)"
  by (cases r) auto

lemma rbind_eq_Inl_iff: "rbind r f = Inl e \<longleftrightarrow> r = Inl e \<or> (\<exists>x. r = Inr x \<and> f x = Inl e)"
  by (cases r) auto

lemmas rbind_iffs =
  rbind_eq_Inr_iff rbind_eq_Inl_iff
  rbind_eq_Inr_iff [THEN eq_iff_swap] rbind_eq_Inl_iff [THEN eq_iff_swap]

lemma rbind_cong [fundef_cong]:
  "r = r' \<Longrightarrow> (\<And>x. r' = Inr x \<Longrightarrow> f x = g x) \<Longrightarrow> rbind r f = rbind r' g"
  by (cases r') auto

definition is_ok :: "'a res \<Rightarrow> bool" where
  "is_ok r \<longleftrightarrow> (case r of Inl _ \<Rightarrow> False | Inr _ \<Rightarrow> True)"

lemma is_ok_simps [simp]: "is_ok (Inr x)" "\<not> is_ok (Inl e)"
  by (simp_all add: is_ok_def)

fun option_or :: "'a option \<Rightarrow> 'e \<Rightarrow> 'e + 'a" where
  "option_or None e = Inl e"
| "option_or (Some x) e = Inr x"

lemma option_or_iffs:
  "option_or m e = Inr x \<longleftrightarrow> m = Some x"
  "option_or m e = Inl e' \<longleftrightarrow> m = None \<and> e' = e"
  by (cases m; auto)+

section \<open>Dicts as association lists\<close>

text \<open>
  A dict keeps its insertion order; storing under a key that is there keeps the key's
  position and replaces the value.
\<close>

type_synonym 'v dict = "(pystr \<times> 'v) list"

fun dict_set :: "'k \<Rightarrow> 'v \<Rightarrow> ('k \<times> 'v) list \<Rightarrow> ('k \<times> 'v) list" where
  "dict_set k v [] = [(k, v)]"
| "dict_set k v ((k', v') # d) = (if k' = k then (k, v) # d else (k', v') # dict_set k v d)"

definition dict_keys :: "('k \<times> 'v) list \<Rightarrow> 'k list" where
  "dict_keys d = map fst d"

lemma dict_get_set [simp]: "map_of (dict_set k v d) = (map_of d)(k \<mapsto> v)"
  by (induction k v d rule: dict_set.induct) auto

lemma dict_keys_set: "set (dict_keys (dict_set k v d)) = insert k (set (dict_keys d))"
  by (induction k v d rule: dict_set.induct) (auto simp: dict_keys_def)

lemma dict_set_distinct: "distinct (dict_keys d) \<Longrightarrow> distinct (dict_keys (dict_set k v d))"
proof (induction k v d rule: dict_set.induct)
  case (2 k v k' v' d)
  then show ?case
    using dict_keys_set [of k v d] by (auto simp: dict_keys_def)
qed (simp add: dict_keys_def)

lemma dict_has_iff: "k \<in> set (dict_keys d) \<longleftrightarrow> (\<exists>v. map_of d k = Some v)"
  by (metis dict_keys_def list.set_map map_of_eq_None_iff not_None_eq)

text \<open>\<open>del d[k]\<close> and \<open>d.pop(k, None)\<close> remove the entry of \<open>k\<close>.\<close>

fun dict_del :: "'k \<Rightarrow> ('k \<times> 'v) list \<Rightarrow> ('k \<times> 'v) list" where
  "dict_del k [] = []"
| "dict_del k ((k', v') # d) = (if k' = k then d else (k', v') # dict_del k d)"

lemma dict_get_del: "distinct (dict_keys d) \<Longrightarrow> map_of (dict_del k d) = (map_of d)(k := None)"
proof (induction k d rule: dict_del.induct)
  case (2 k k' v' d)
  then show ?case
    by (auto simp: dict_keys_def fun_eq_iff) (metis map_of_eq_None_iff list.set_map)
qed simp

lemma dict_del_subset: "set (dict_keys (dict_del k d)) \<subseteq> set (dict_keys d)"
  by (induction k d rule: dict_del.induct) (auto simp: dict_keys_def)

lemma dict_del_distinct: "distinct (dict_keys d) \<Longrightarrow> distinct (dict_keys (dict_del k d))"
proof (induction k d rule: dict_del.induct)
  case (2 k k' v' d)
  then show ?case
    using dict_del_subset [of k d] by (auto simp: dict_keys_def)
qed simp

section \<open>Lists\<close>

text \<open>Python's \<open>"|".join(fields)\<close>.\<close>

fun join :: "'a list \<Rightarrow> 'a list list \<Rightarrow> 'a list" where
  "join sep [] = []"
| "join sep [x] = x"
| "join sep (x # y # zs) = x @ sep @ join sep (y # zs)"

lemma split_at_unique:
  assumes "xs @ c # ys = xs' @ c # ys'" and "c \<notin> set xs" and "c \<notin> set xs'"
  shows "xs = xs' \<and> ys = ys'"
  using assms
proof (induction xs arbitrary: xs')
  case Nil
  then show ?case by (cases xs') auto
next
  case (Cons x xs)
  then show ?case by (cases xs') auto
qed

text \<open>Joining is injective on fields that do not hold the separator.\<close>

lemma join_inject:
  assumes "join [c] xs = join [c] ys" and "length xs = length ys"
    and "\<forall>x \<in> set xs. c \<notin> set x" and "\<forall>y \<in> set ys. c \<notin> set y"
  shows "xs = ys"
  using assms
proof (induction "[c]" xs arbitrary: ys rule: join.induct)
  case 1
  then show ?case by simp
next
  case (2 x)
  then show ?case by (cases ys) auto
next
  case (3 x y zs)
  from 3(3) have "\<exists>x' y' zs'. ys = x' # y' # zs'"
    by (cases ys; cases "tl ys") auto
  then obtain x' y' zs' where ys: "ys = x' # y' # zs'"
    by blast
  from 3 ys have "x = x' \<and> join [c] (y # zs) = join [c] (y' # zs')"
    by (auto dest!: split_at_unique [of x c _ x'])
  with 3 ys show ?case by auto
qed

lemma count_join:
  assumes "\<forall>x \<in> set xs. c \<notin> set x"
  shows "count_list (join [c] xs) c = length xs - 1"
  using assms by (induction "[c]" xs rule: join.induct) (auto simp: count_list_0_iff)

text \<open>\<open>xs[i]\<close>: a negative index counts from the end, one out of range raises.\<close>

definition py_index :: "'a list \<Rightarrow> int \<Rightarrow> 'a res" where
  "py_index items pos =
     (let front = (if 0 \<le> pos then pos else pos + int (length items))
      in if front < 0 \<or> int (length items) \<le> front then Inl IndexError
         else Inr (items ! nat front))"

text \<open>\<open>s.rstrip(c)\<close> for a single character.\<close>

definition rstrip :: "nat \<Rightarrow> pystr \<Rightarrow> pystr" where
  "rstrip c s = rev (dropWhile (\<lambda>d. d = c) (rev s))"

lemma sorted_wrt_less_distinct: "sorted_wrt (<) (xs :: int list) \<Longrightarrow> distinct xs"
  by (induction xs) auto

end
