(* ===== verification/Py_Float.thy ===== *)
theory Py_Float
  imports Prelude
begin

text \<open>
  Python's \<open>float\<close>: IEEE 754 binary64 with round-half-to-even. A finite float is a sign,
  a significand and an exponent, its value being \<open>(-1)^s * m * 2^e\<close>; the canonical form has
  \<open>0 \<le> m < 2^53\<close>, \<open>-1074 \<le> e \<le> 971\<close> and a full significand unless \<open>e = -1074\<close>.
  Every operation computes the exact rational result and rounds it once
  (\<open>round_ratio\<close>), as the standard prescribes.
\<close>

section \<open>Representation and rounding\<close>

datatype pyfloat = Fin bool int int | Inf bool | NaN

definition scale2 :: "int \<Rightarrow> int \<Rightarrow> int" where
  \<comment> \<open>\<open>n * 2^k\<close> for \<open>k \<ge> 0\<close>, \<open>n\<close> otherwise\<close>
  "scale2 n k = (if 0 \<le> k then n * 2 ^ nat k else n)"

function bit_length :: "int \<Rightarrow> int" where
  "bit_length n = (if n \<le> 0 then 0 else 1 + bit_length (n div 2))"
  by pat_completeness auto
termination
  by (relation "measure nat") auto

declare bit_length.simps [simp del]

definition floor_log2 :: "int \<Rightarrow> int \<Rightarrow> int" where
  \<comment> \<open>the \<open>k\<close> with \<open>2^k \<le> p/q < 2^(k+1)\<close>\<close>
  "floor_log2 p q =
     (let k = bit_length p - bit_length q
      in if scale2 q k \<le> scale2 p (-k) then k else k - 1)"

definition round_half_even :: "int \<Rightarrow> int \<Rightarrow> int" where
  "round_half_even n d =
     (let k = n div d; r = n mod d
      in if 2 * r < d \<or> (2 * r = d \<and> even k) then k else k + 1)"

definition round_ratio :: "bool \<Rightarrow> int \<Rightarrow> int \<Rightarrow> pyfloat" where
  \<comment> \<open>the float nearest to \<open>(-1)^s * p/q\<close>, for \<open>0 \<le> p\<close> and \<open>0 < q\<close>\<close>
  "round_ratio s p q =
     (if p = 0 then Fin s 0 (-1074)
      else
        (let e = max (-1074) (floor_log2 p q - 52);
             m = round_half_even (scale2 p (-e)) (scale2 q e)
         in if m = 2 ^ 53 then (if 971 < e + 1 then Inf s else Fin s (2 ^ 52) (e + 1))
            else if 971 < e then Inf s else Fin s m e))"

fun canonical :: "pyfloat \<Rightarrow> bool" where
  "canonical (Fin s m e) \<longleftrightarrow>
     0 \<le> m \<and> m < 2 ^ 53 \<and> -1074 \<le> e \<and> e \<le> 971 \<and> (2 ^ 52 \<le> m \<or> e = -1074)"
| "canonical (Inf s) \<longleftrightarrow> True"
| "canonical NaN \<longleftrightarrow> True"

section \<open>Exact value and comparisons\<close>

definition fin_num :: "bool \<Rightarrow> int \<Rightarrow> int \<Rightarrow> int" where
  "fin_num s m e = (if s then - 1 else 1) * scale2 m e"

definition fin_den :: "int \<Rightarrow> int" where
  "fin_den e = scale2 1 (-e)"

lemma fin_den_pos [simp]: "0 < fin_den e"
  by (simp add: fin_den_def scale2_def)

text \<open>Comparisons with an \<open>int\<close> are exact; every comparison with a NaN is false.\<close>

fun int_le_flt :: "int \<Rightarrow> pyfloat \<Rightarrow> bool" where
  "int_le_flt n (Fin s m e) \<longleftrightarrow> n * fin_den e \<le> fin_num s m e"
| "int_le_flt n (Inf s) \<longleftrightarrow> \<not> s"
| "int_le_flt n NaN \<longleftrightarrow> False"

fun flt_le_int :: "pyfloat \<Rightarrow> int \<Rightarrow> bool" where
  "flt_le_int (Fin s m e) n \<longleftrightarrow> fin_num s m e \<le> n * fin_den e"
| "flt_le_int (Inf s) n \<longleftrightarrow> s"
| "flt_le_int NaN n \<longleftrightarrow> False"

fun int_lt_flt :: "int \<Rightarrow> pyfloat \<Rightarrow> bool" where
  "int_lt_flt n (Fin s m e) \<longleftrightarrow> n * fin_den e < fin_num s m e"
| "int_lt_flt n (Inf s) \<longleftrightarrow> \<not> s"
| "int_lt_flt n NaN \<longleftrightarrow> False"

fun flt_lt_int :: "pyfloat \<Rightarrow> int \<Rightarrow> bool" where
  "flt_lt_int (Fin s m e) n \<longleftrightarrow> fin_num s m e < n * fin_den e"
| "flt_lt_int (Inf s) n \<longleftrightarrow> s"
| "flt_lt_int NaN n \<longleftrightarrow> False"

definition flt_eq_int :: "pyfloat \<Rightarrow> int \<Rightarrow> bool" where
  "flt_eq_int x n \<longleftrightarrow> flt_le_int x n \<and> int_le_flt n x"

fun flt_le :: "pyfloat \<Rightarrow> pyfloat \<Rightarrow> bool" where
  "flt_le (Fin s m e) (Fin s' m' e') \<longleftrightarrow> fin_num s m e * fin_den e' \<le> fin_num s' m' e' * fin_den e"
| "flt_le (Inf s) (Fin s' m' e') \<longleftrightarrow> s"
| "flt_le (Fin s m e) (Inf s') \<longleftrightarrow> \<not> s'"
| "flt_le (Inf s) (Inf s') \<longleftrightarrow> s \<or> \<not> s'"
| "flt_le x y \<longleftrightarrow> False"

definition flt_lt :: "pyfloat \<Rightarrow> pyfloat \<Rightarrow> bool" where
  "flt_lt x y \<longleftrightarrow> flt_le x y \<and> \<not> flt_le y x"

fun is_finite :: "pyfloat \<Rightarrow> bool" where
  "is_finite (Fin s m e) \<longleftrightarrow> True"
| "is_finite (Inf s) \<longleftrightarrow> False"
| "is_finite NaN \<longleftrightarrow> False"

fun is_nan :: "pyfloat \<Rightarrow> bool" where
  "is_nan NaN \<longleftrightarrow> True"
| "is_nan (Fin s m e) \<longleftrightarrow> False"
| "is_nan (Inf s) \<longleftrightarrow> False"

section \<open>Conversions\<close>

text \<open>\<open>float(n)\<close>: rounds, and raises when the rounded value is infinite.\<close>

definition flt_of_int :: "int \<Rightarrow> pyfloat res" where
  "flt_of_int n =
     (case round_ratio (n < 0) \<bar>n\<bar> 1 of
        Fin s m e \<Rightarrow> Inr (Fin s m e)
      | _ \<Rightarrow> Inl OverflowError)"

text \<open>\<open>int(x)\<close>: truncates towards zero.\<close>

fun flt_to_int :: "pyfloat \<Rightarrow> int res" where
  "flt_to_int (Fin s m e) = Inr ((if s then - 1 else 1) * (scale2 m e div scale2 1 (-e)))"
| "flt_to_int (Inf s) = Inl OverflowError"
| "flt_to_int NaN = Inl ValueError"

text \<open>The float a decimal literal \<open>(-1)^s * d * 10^k\<close> denotes.\<close>

definition flt_of_decimal :: "bool \<Rightarrow> int \<Rightarrow> int \<Rightarrow> pyfloat" where
  "flt_of_decimal s d k =
     (if 0 \<le> k then round_ratio s (d * 10 ^ nat k) 1 else round_ratio s d (10 ^ nat (-k)))"

section \<open>Arithmetic\<close>

definition round_signed :: "bool \<Rightarrow> int \<Rightarrow> int \<Rightarrow> pyfloat" where
  \<comment> \<open>rounds \<open>n/d\<close>; \<open>z\<close> is the sign of a zero result\<close>
  "round_signed z n d = (if n = 0 then Fin z 0 (-1074) else round_ratio (n < 0) \<bar>n\<bar> d)"

fun flt_neg :: "pyfloat \<Rightarrow> pyfloat" where
  "flt_neg (Fin s m e) = Fin (\<not> s) m e"
| "flt_neg (Inf s) = Inf (\<not> s)"
| "flt_neg NaN = NaN"

fun flt_add :: "pyfloat \<Rightarrow> pyfloat \<Rightarrow> pyfloat" where
  "flt_add (Fin s m e) (Fin s' m' e') =
     round_signed (s \<and> s')
       (fin_num s m e * fin_den e' + fin_num s' m' e' * fin_den e) (fin_den e * fin_den e')"
| "flt_add (Inf s) (Fin s' m' e') = Inf s"
| "flt_add (Fin s m e) (Inf s') = Inf s'"
| "flt_add (Inf s) (Inf s') = (if s = s' then Inf s else NaN)"
| "flt_add x y = NaN"

definition flt_sub :: "pyfloat \<Rightarrow> pyfloat \<Rightarrow> pyfloat" where
  "flt_sub x y = flt_add x (flt_neg y)"

fun flt_mul :: "pyfloat \<Rightarrow> pyfloat \<Rightarrow> pyfloat" where
  "flt_mul (Fin s m e) (Fin s' m' e') =
     round_ratio (s \<noteq> s') (scale2 m e * scale2 m' e') (fin_den e * fin_den e')"
| "flt_mul (Inf s) (Fin s' m' e') = (if m' = 0 then NaN else Inf (s \<noteq> s'))"
| "flt_mul (Fin s m e) (Inf s') = (if m = 0 then NaN else Inf (s \<noteq> s'))"
| "flt_mul (Inf s) (Inf s') = Inf (s \<noteq> s')"
| "flt_mul x y = NaN"

fun flt_div :: "pyfloat \<Rightarrow> pyfloat \<Rightarrow> pyfloat res" where
  "flt_div (Fin s m e) (Fin s' m' e') =
     (if m' = 0 then Inl ZeroDivisionError
      else Inr (round_ratio (s \<noteq> s') (scale2 m e * fin_den e') (fin_den e * scale2 m' e')))"
| "flt_div (Inf s) (Fin s' m' e') = (if m' = 0 then Inl ZeroDivisionError else Inr (Inf (s \<noteq> s')))"
| "flt_div NaN (Fin s' m' e') = (if m' = 0 then Inl ZeroDivisionError else Inr NaN)"
| "flt_div (Fin s m e) (Inf s') = Inr (Fin (s \<noteq> s') 0 (-1074))"
| "flt_div x y = Inr NaN"

abbreviation flt_zero :: pyfloat where
  "flt_zero \<equiv> Fin False 0 (-1074)"

definition flt_small :: "int \<Rightarrow> pyfloat" where
  \<comment> \<open>the float of an integer constant of the source\<close>
  "flt_small n = round_ratio (n < 0) \<bar>n\<bar> 1"

end
