(* ===== verification/Py_Str.thy ===== *)
theory Py_Str
  imports Py_Float
begin

text \<open>
  The text conversions of CPython 3.11 the receivers rely on: \<open>int(str)\<close>, \<open>float(str)\<close>,
  \<open>str(int)\<close>, \<open>repr(float)\<close> and \<open>repr(str)\<close>. They matter because packet fields are
  attacker-chosen JSON values: a sequence number may arrive as the text \<open>"5"\<close>, a steering
  value as \<open>" 0.5 "\<close>, and the signed message is built from \<open>str\<close> of the fields.
\<close>

section \<open>Character classes\<close>

definition is_digit :: "nat \<Rightarrow> bool" where
  "is_digit c \<longleftrightarrow> 48 \<le> c \<and> c \<le> 57"

text \<open>The first code points of the decimal digit ranges outside ASCII (Unicode 14.0).\<close>

definition nd_starts :: "nat list" where
  "nd_starts =
     [
      1632, 1776, 1984, 2406, 2534, 2662, 2790, 2918, 3046, 3174, 3302, 3430, 3558, 3664,
      3792, 3872, 4160, 4240, 6112, 6160, 6470, 6608, 6784, 6800, 6992, 7088, 7232, 7248,
      42528, 43216, 43264, 43472, 43504, 43600, 44016, 65296, 66720, 68912, 69734, 69872,
      69942, 70096, 70384, 70736, 70864, 71248, 71360, 71472, 71904, 72016, 72784, 73040,
      73120, 92768, 92864, 93008, 120782, 120792, 120802, 120812, 120822, 123200, 123632,
      125264, 130032
     ]"

definition py_decimal :: "nat \<Rightarrow> nat option" where
  "py_decimal c =
     (if is_digit c then Some (c - 48)
      else if c < 128 then None
      else map_option (\<lambda>s. c - s) (List.find (\<lambda>s. s \<le> c \<and> c < s + 10) nd_starts))"

definition wide_space :: "nat \<Rightarrow> bool" where
  "wide_space c \<longleftrightarrow>
     c = 133 \<or> c = 160 \<or> c = 5760 \<or> (8192 \<le> c \<and> c \<le> 8202)
     \<or> c = 8232 \<or> c = 8233 \<or> c = 8239 \<or> c = 8287 \<or> c = 12288"

definition ascii_space :: "nat \<Rightarrow> bool" where
  "ascii_space c \<longleftrightarrow> c = 32 \<or> (9 \<le> c \<and> c \<le> 13)"

text \<open>
  \<open>int\<close> and \<open>float\<close> first turn every decimal digit into its ASCII form, every space outside
  ASCII into a blank and any other character outside ASCII into \<open>?\<close>, then strip ASCII spaces.
\<close>

definition ascii_form :: "nat \<Rightarrow> nat" where
  "ascii_form c =
     (if c < 127 then c
      else if wide_space c then 32
      else case py_decimal c of Some d \<Rightarrow> 48 + d | None \<Rightarrow> 63)"

definition strip :: "pystr \<Rightarrow> pystr" where
  "strip s = rev (dropWhile ascii_space (rev (dropWhile ascii_space s)))"

definition number_text :: "pystr \<Rightarrow> pystr" where
  "number_text s = strip (map ascii_form s)"

section \<open>Integers\<close>

definition digits_val :: "pystr \<Rightarrow> int" where
  "digits_val ds = foldl (\<lambda>a c. 10 * a + (int c - 48)) 0 ds"

fun digits_us :: "pystr \<Rightarrow> pystr option" where
  \<comment> \<open>digits with single underscores between them\<close>
  "digits_us [] = None"
| "digits_us [c] = (if is_digit c then Some [c] else None)"
| "digits_us (c # c' # cs) =
     (if is_digit c
      then map_option (\<lambda>ds. c # ds) (digits_us (if c' = 95 then cs else c' # cs))
      else None)"

definition split_sign :: "pystr \<Rightarrow> bool \<times> pystr" where
  "split_sign s =
     (case s of
        c # cs \<Rightarrow> if c = 45 then (True, cs) else if c = 43 then (False, cs) else (False, s)
      | [] \<Rightarrow> (False, []))"

definition max_str_digits :: nat where
  "max_str_digits = 4300"

definition int_of_str :: "pystr \<Rightarrow> int res" where
  "int_of_str s =
     (let (neg, body) = split_sign (number_text s)
      in case digits_us body of
           None \<Rightarrow> Inl ValueError
         | Some ds \<Rightarrow>
             if max_str_digits < length ds then Inl ValueError
             else Inr (if neg then - digits_val ds else digits_val ds))"

function dec_digits :: "int \<Rightarrow> pystr" where
  "dec_digits n = (if n < 10 then [48 + nat n] else dec_digits (n div 10) @ [48 + nat (n mod 10)])"
  by pat_completeness auto
termination
  by (relation "measure nat") auto

declare dec_digits.simps [simp del]

definition int_str :: "int \<Rightarrow> pystr" where
  "int_str n = (if n < 0 then 45 # dec_digits (- n) else dec_digits n)"

definition str_of_int :: "int \<Rightarrow> pystr res" where
  "str_of_int n =
     (if max_str_digits < length (dec_digits \<bar>n\<bar>) then Inl ValueError else Inr (int_str n))"

section \<open>Floats\<close>

fun us_ok :: "nat \<Rightarrow> pystr \<Rightarrow> bool" where
  "us_ok prev [] \<longleftrightarrow> prev \<noteq> 95"
| "us_ok prev (c # cs) \<longleftrightarrow>
     (c = 95 \<longrightarrow> is_digit prev) \<and> (prev = 95 \<longrightarrow> is_digit c) \<and> us_ok c cs"

definition lower :: "nat \<Rightarrow> nat" where
  "lower c = (if 65 \<le> c \<and> c \<le> 90 then c + 32 else c)"

definition parse_exponent :: "pystr \<Rightarrow> int option" where
  "parse_exponent s =
     (case s of
        [] \<Rightarrow> Some 0
      | c # cs \<Rightarrow>
          if c = 101 \<or> c = 69 then
            (let (neg, ds) = split_sign cs
             in if ds \<noteq> [] \<and> list_all is_digit ds
                then Some (if neg then - digits_val ds else digits_val ds) else None)
          else None)"

definition parse_decimal :: "bool \<Rightarrow> pystr \<Rightarrow> pyfloat option" where
  "parse_decimal neg s =
     (let ip = takeWhile is_digit s; r = dropWhile is_digit s;
          (fp, r') = (case r of
                        c # cs \<Rightarrow> if c = 46 then (takeWhile is_digit cs, dropWhile is_digit cs) else ([], r)
                      | [] \<Rightarrow> ([], []))
      in if ip @ fp = [] then None
         else map_option (\<lambda>k. flt_of_decimal neg (digits_val (ip @ fp)) (k - int (length fp)))
                (parse_exponent r'))"

definition float_of_str :: "pystr \<Rightarrow> pyfloat res" where
  "float_of_str s =
     (let t = number_text s;
          (neg, body) = split_sign (filter (\<lambda>c. c \<noteq> 95) t);
          word = map lower body
      in if \<not> us_ok 0 t then Inl ValueError
         else if word = u ''inf'' \<or> word = u ''infinity'' then Inr (Inf neg)
         else if word = u ''nan'' then Inr NaN
         else option_or (parse_decimal neg body) ValueError)"

text \<open>
  \<open>repr(float)\<close> is the shortest decimal that reads back as the float, the closest one
  among the shortest. \<open>dec_exp p q\<close> is the \<open>k\<close> with \<open>10^(k-1) \<le> p/q < 10^k\<close>.
\<close>

function lead_zeros :: "int \<Rightarrow> int \<Rightarrow> int" where
  "lead_zeros p q = (if p \<le> 0 \<or> q \<le> p then 0 else 1 + lead_zeros (10 * p) q)"
  by pat_completeness auto
termination
  by (relation "measure (\<lambda>(p, q). nat (q - p))") auto

declare lead_zeros.simps [simp del]

definition dec_exp :: "int \<Rightarrow> int \<Rightarrow> int" where
  "dec_exp p q =
     (if q \<le> p then int (length (dec_digits (p div q))) else 1 - lead_zeros p q)"

definition scale10 :: "int \<Rightarrow> int \<Rightarrow> int" where
  "scale10 n k = (if 0 \<le> k then n * 10 ^ nat k else n)"

definition candidates :: "pyfloat \<Rightarrow> int \<Rightarrow> int \<Rightarrow> int \<Rightarrow> nat \<Rightarrow> int list" where
  \<comment> \<open>the \<open>n\<close>-digit decimals next to \<open>p/q\<close> that read back as \<open>x\<close>, the closer one first (the even one of two as close)\<close>
  "candidates x p q k n =
     (let a = scale10 p (int n - k); b = scale10 q (k - int n);
          lo = a div b; hi = lo + 1; below = a - lo * b; above = hi * b - a;
          ordered = (if below < above \<or> (below = above \<and> even lo) then [lo, hi] else [hi, lo])
      in filter (\<lambda>c. flt_of_decimal False c (k - int n) = x) ordered)"

function shortest :: "pyfloat \<Rightarrow> int \<Rightarrow> int \<Rightarrow> int \<Rightarrow> nat \<Rightarrow> int \<times> nat" where
  "shortest x p q k n =
     (case candidates x p q k n of
        c # _ \<Rightarrow> (c, n)
      | [] \<Rightarrow> if n < 17 then shortest x p q k (n + 1)
              else (scale10 p (int n - k) div scale10 q (k - int n), n))"
  by pat_completeness auto
termination
  by (relation "measure (\<lambda>(x, p, q, k, n). 17 - n)") auto

declare shortest.simps [simp del]

definition zeros :: "nat \<Rightarrow> pystr" where
  "zeros n = replicate n 48"

definition exp_str :: "int \<Rightarrow> pystr" where
  "exp_str k =
     (if k < 0 then u ''e-'' else u ''e+'')
       @ (let ds = dec_digits \<bar>k\<bar> in if length ds < 2 then 48 # ds else ds)"

definition format_digits :: "pystr \<Rightarrow> int \<Rightarrow> pystr" where
  \<comment> \<open>the digits with the decimal point after the first \<open>k\<close> of them\<close>
  "format_digits ds k =
     (let n = int (length ds)
      in if -4 < k \<and> k \<le> 16 then
           (if k \<le> 0 then u ''0.'' @ zeros (nat (-k)) @ ds
            else if n \<le> k then ds @ zeros (nat (k - n)) @ u ''.0''
            else take (nat k) ds @ u ''.'' @ drop (nat k) ds)
         else take 1 ds @ (if 1 < n then u ''.'' @ drop 1 ds else []) @ exp_str (k - 1))"

definition strip_zeros :: "pystr \<Rightarrow> pystr" where
  "strip_zeros ds = rev (dropWhile (\<lambda>c. c = 48) (rev ds))"

fun float_repr :: "pyfloat \<Rightarrow> pystr" where
  "float_repr (Fin s m e) =
     (if s then u ''-'' else []) @
     (if m = 0 then u ''0.0''
      else
        (let p = scale2 m e; q = fin_den e; k = dec_exp p q;
             (c, n) = shortest (Fin False m e) p q k 1;
             ds = dec_digits c
         in format_digits (strip_zeros ds) (k + int (length ds) - int n)))"
| "float_repr (Inf s) = (if s then u ''-inf'' else u ''inf'')"
| "float_repr NaN = u ''nan''"

section \<open>Quoted text\<close>

definition hex_digit :: "nat \<Rightarrow> nat" where
  "hex_digit d = (if d < 10 then 48 + d else 87 + d)"

fun hex :: "nat \<Rightarrow> nat \<Rightarrow> pystr" where
  \<comment> \<open>the lowest \<open>w\<close> hexadecimal digits\<close>
  "hex 0 n = []"
| "hex (Suc w) n = hex w (n div 16) @ [hex_digit (n mod 16)]"

definition repr_char :: "(nat \<Rightarrow> bool) \<Rightarrow> nat \<Rightarrow> nat \<Rightarrow> pystr" where
  "repr_char printable quote c =
     (if c = quote \<or> c = 92 then [92, c]
      else if c = 9 then [92, 116] else if c = 10 then [92, 110] else if c = 13 then [92, 114]
      else if c < 32 \<or> c = 127 then 92 # 120 # hex 2 c
      else if c < 127 then [c]
      else if printable c then [c]
      else if c \<le> 255 then 92 # 120 # hex 2 c
      else if c \<le> 65535 then 92 # 117 # hex 4 c
      else 92 # 85 # hex 8 c)"

definition str_repr :: "(nat \<Rightarrow> bool) \<Rightarrow> pystr \<Rightarrow> pystr" where
  "str_repr printable s =
     (let quote = (if 39 \<in> set s \<and> 34 \<notin> set s then 34 else 39)
      in [quote] @ concat (map (repr_char printable quote) s) @ [quote])"

end
