(* ===== verification/Py_Value.thy ===== *)
theory Py_Value
  imports Py_Str
begin

text \<open>
  Python values as \<open>json.loads\<close> builds them, and the operations the program applies to
  values whose type it does not know: \<open>int\<close>, \<open>float\<close>, \<open>str\<close>, indexing, \<open>.get\<close>,
  \<open>required.issubset(...)\<close> and comparisons with the program's constants. Each raises
  where Python raises.
\<close>

datatype pyval =
    PNone
  | PBool bool
  | PInt int
  | PFloat pyfloat
  | PStr pystr
  | PList "pyval list"
  | PDict "(pystr \<times> pyval) list"

text \<open>The parts of a container are smaller than it: the recursive functions on values terminate.\<close>

lemma item_size: "v \<in> set vs \<Longrightarrow> size v < Suc (size_list size vs)"
  by (induction vs) auto

lemma entry_size: "kv \<in> set d \<Longrightarrow> size (snd kv) < Suc (size_list (size_prod (\<lambda>x. 0) size) d)"
  by (induction d) (auto simp: size_prod_def split: prod.splits)

lemmas value_size = item_size entry_size

section \<open>Conversions\<close>

fun py_int :: "pyval \<Rightarrow> int res" where
  "py_int (PInt n) = Inr n"
| "py_int (PBool b) = Inr (of_bool b)"
| "py_int (PFloat x) = flt_to_int x"
| "py_int (PStr s) = int_of_str s"
| "py_int PNone = Inl TypeError"
| "py_int (PList vs) = Inl TypeError"
| "py_int (PDict d) = Inl TypeError"

fun py_float :: "pyval \<Rightarrow> pyfloat res" where
  "py_float (PFloat x) = Inr x"
| "py_float (PInt n) = flt_of_int n"
| "py_float (PBool b) = flt_of_int (of_bool b)"
| "py_float (PStr s) = float_of_str s"
| "py_float PNone = Inl TypeError"
| "py_float (PList vs) = Inl TypeError"
| "py_float (PDict d) = Inl TypeError"

fun seq_res :: "'a res list \<Rightarrow> 'a list res" where
  "seq_res [] = Inr []"
| "seq_res (r # rs) = rbind r (\<lambda>x. rbind (seq_res rs) (\<lambda>xs. Inr (x # xs)))"

function (sequential) py_repr :: "(nat \<Rightarrow> bool) \<Rightarrow> pyval \<Rightarrow> pystr res" where
  "py_repr pr PNone = Inr (u ''None'')"
| "py_repr pr (PBool b) = Inr (if b then u ''True'' else u ''False'')"
| "py_repr pr (PInt n) = str_of_int n"
| "py_repr pr (PFloat x) = Inr (float_repr x)"
| "py_repr pr (PStr s) = Inr (str_repr pr s)"
| "py_repr pr (PList vs) =
     rbind (seq_res (map (py_repr pr) vs)) (\<lambda>ss. Inr (u ''['' @ join (u '', '') ss @ u '']''))"
| "py_repr pr (PDict d) =
     rbind (seq_res (map (\<lambda>kv. rbind (py_repr pr (snd kv))
                               (\<lambda>t. Inr (str_repr pr (fst kv) @ u '': '' @ t))) d))
       (\<lambda>ss. Inr (u ''{'' @ join (u '', '') ss @ u ''}''))"
  by pat_completeness auto
termination
  by (relation "measure (\<lambda>(pr, v). size v)") (auto dest: value_size)

fun py_str :: "(nat \<Rightarrow> bool) \<Rightarrow> pyval \<Rightarrow> pystr res" where
  "py_str pr (PStr s) = Inr s"
| "py_str pr v = py_repr pr v"

section \<open>Indexing and membership\<close>

text \<open>\<open>v[k]\<close> with a text key: a missing key raises \<open>KeyError\<close>, any other type \<open>TypeError\<close>.\<close>

fun py_getitem :: "pyval \<Rightarrow> pystr \<Rightarrow> pyval res" where
  "py_getitem (PDict d) k = option_or (map_of d k) KeyError"
| "py_getitem v k = Inl TypeError"

text \<open>\<open>v.get(k)\<close> and \<open>v.get(k, dflt)\<close>: only dicts have the method.\<close>

fun py_get :: "pyval \<Rightarrow> pystr \<Rightarrow> pyval \<Rightarrow> pyval res" where
  "py_get (PDict d) k dflt = Inr (case map_of d k of None \<Rightarrow> dflt | Some v \<Rightarrow> v)"
| "py_get v k dflt = Inl AttributeError"

fun hashable :: "pyval \<Rightarrow> bool" where
  "hashable (PList vs) \<longleftrightarrow> False"
| "hashable (PDict d) \<longleftrightarrow> False"
| "hashable v \<longleftrightarrow> True"

text \<open>\<open>required.issubset(v)\<close> for a set of text keys: \<open>set(v)\<close> is built first.\<close>

fun py_issubset :: "pystr list \<Rightarrow> pyval \<Rightarrow> bool res" where
  "py_issubset req (PDict d) = Inr (list_all (\<lambda>k. k \<in> set (dict_keys d)) req)"
| "py_issubset req (PList vs) =
     (if list_all hashable vs then Inr (list_all (\<lambda>k. PStr k \<in> set vs) req) else Inl TypeError)"
| "py_issubset req (PStr s) = Inr (list_all (\<lambda>k. k \<in> set (map (\<lambda>c. [c]) s)) req)"
| "py_issubset req v = Inl TypeError"

section \<open>Comparison with constants\<close>

text \<open>\<open>v == n\<close> and \<open>v == s\<close>: \<open>True\<close>, \<open>1\<close> and \<open>1.0\<close> are equal in Python.\<close>

fun eq_int :: "pyval \<Rightarrow> int \<Rightarrow> bool" where
  "eq_int (PInt m) n \<longleftrightarrow> m = n"
| "eq_int (PBool b) n \<longleftrightarrow> of_bool b = n"
| "eq_int (PFloat x) n \<longleftrightarrow> flt_eq_int x n"
| "eq_int v n \<longleftrightarrow> False"

fun eq_str :: "pyval \<Rightarrow> pystr \<Rightarrow> bool" where
  "eq_str (PStr t) s \<longleftrightarrow> t = s"
| "eq_str v s \<longleftrightarrow> False"

lemma eq_str_iff: "eq_str v s \<longleftrightarrow> v = PStr s"
  by (cases v) auto

text \<open>\<open>v == w\<close> for any two values: numbers compare by value, dicts without order.\<close>

definition flt_eq :: "pyfloat \<Rightarrow> pyfloat \<Rightarrow> bool" where
  "flt_eq x y \<longleftrightarrow> flt_le x y \<and> flt_le y x"

function (sequential) py_eq :: "pyval \<Rightarrow> pyval \<Rightarrow> bool" where
  "py_eq (PBool b) w \<longleftrightarrow> eq_int w (of_bool b)"
| "py_eq (PInt n) w \<longleftrightarrow> eq_int w n"
| "py_eq v (PBool b) \<longleftrightarrow> eq_int v (of_bool b)"
| "py_eq v (PInt n) \<longleftrightarrow> eq_int v n"
| "py_eq (PFloat x) (PFloat y) \<longleftrightarrow> flt_eq x y"
| "py_eq (PStr s) (PStr t) \<longleftrightarrow> s = t"
| "py_eq PNone PNone \<longleftrightarrow> True"
| "py_eq (PList vs) (PList ws) \<longleftrightarrow>
     length vs = length ws \<and> (\<forall>p \<in> set (zip vs ws). py_eq (fst p) (snd p))"
| "py_eq (PDict d) (PDict d') \<longleftrightarrow>
     length d = length d'
     \<and> (\<forall>kv \<in> set d. case map_of d' (fst kv) of None \<Rightarrow> False | Some w \<Rightarrow> py_eq (snd kv) w)"
| "py_eq v w \<longleftrightarrow> False"
  by pat_completeness auto
termination
  by (relation "measure (\<lambda>(v, w). size v)") (auto dest: value_size set_zip_leftD [THEN item_size])

lemma eq_int_str [simp]: "\<not> eq_int (PStr s) n"
  by simp

lemma py_eq_str_iff: "py_eq v (PStr s) \<longleftrightarrow> v = PStr s"
  by (cases v) auto

lemma py_eq_str_iff': "py_eq (PStr s) w \<longleftrightarrow> w = PStr s"
  by (cases w) auto

text \<open>The truth value of a \<open>pyval\<close>.\<close>

fun truthy :: "pyval \<Rightarrow> bool" where
  "truthy PNone \<longleftrightarrow> False"
| "truthy (PBool b) \<longleftrightarrow> b"
| "truthy (PInt n) \<longleftrightarrow> n \<noteq> 0"
| "truthy (PFloat x) \<longleftrightarrow> \<not> flt_eq_int x 0"
| "truthy (PStr s) \<longleftrightarrow> s \<noteq> []"
| "truthy (PList vs) \<longleftrightarrow> vs \<noteq> []"
| "truthy (PDict d) \<longleftrightarrow> d \<noteq> []"

section \<open>What the conversions can raise\<close>

lemma int_of_str_errors: "int_of_str s = Inl e \<Longrightarrow> e = ValueError"
  by (auto simp: int_of_str_def split: prod.splits option.splits if_splits)

lemma float_of_str_errors: "float_of_str s = Inl e \<Longrightarrow> e = ValueError"
  by (auto simp: float_of_str_def Let_def option_or_iffs split: prod.splits if_splits)

lemma flt_to_int_errors: "flt_to_int x = Inl e \<Longrightarrow> e = OverflowError \<or> e = ValueError"
  by (cases x) auto

lemma flt_of_int_errors: "flt_of_int n = Inl e \<Longrightarrow> e = OverflowError"
  by (auto simp: flt_of_int_def split: pyfloat.splits)

lemma py_int_errors: "py_int v = Inl e \<Longrightarrow> e \<in> {TypeError, ValueError, OverflowError}"
  by (cases v) (auto dest: int_of_str_errors flt_to_int_errors)

lemma py_float_errors: "py_float v = Inl e \<Longrightarrow> e \<in> {TypeError, ValueError, OverflowError}"
  by (cases v) (auto dest: float_of_str_errors flt_of_int_errors)

lemma py_getitem_errors: "py_getitem v k = Inl e \<Longrightarrow> e \<in> {KeyError, TypeError}"
  by (cases v) (auto simp: option_or_iffs)

lemma py_issubset_errors: "py_issubset req v = Inl e \<Longrightarrow> e = TypeError"
  by (cases v) (auto split: if_splits)

lemma seq_res_errors: "seq_res rs = Inl e \<Longrightarrow> \<exists>r \<in> set rs. r = Inl e"
  by (induction rs) (auto simp: rbind_iffs)

lemma str_of_int_errors: "str_of_int n = Inl e \<Longrightarrow> e = ValueError"
  by (auto simp: str_of_int_def split: if_splits)

lemma py_repr_errors: "py_repr pr v = Inl e \<Longrightarrow> e = ValueError"
proof (induction pr v rule: py_repr.induct)
  case (6 pr vs)
  then show ?case by (fastforce simp: rbind_iffs dest: seq_res_errors)
next
  case (7 pr d)
  from "7.prems" obtain kv where "kv \<in> set d" "py_repr pr (snd kv) = Inl e"
    by (auto simp: rbind_iffs dest!: seq_res_errors)
  then show ?case by (rule "7.IH")
qed (auto dest: str_of_int_errors)

lemma py_str_errors: "py_str pr v = Inl e \<Longrightarrow> e = ValueError"
  by (cases v) (auto dest: py_repr_errors simp del: py_repr.simps)

lemmas value_errors =
  py_int_errors py_float_errors py_getitem_errors py_issubset_errors py_str_errors

lemma py_getitem_eq_Inr_iff: "py_getitem v k = Inr x \<longleftrightarrow> (\<exists>d. v = PDict d \<and> map_of d k = Some x)"
  by (cases v) (auto simp: option_or_iffs)

lemma py_issubset_dict: "py_issubset req (PDict d) = Inr (\<forall>k \<in> set req. map_of d k \<noteq> None)"
  by (auto simp: list_all_iff dict_has_iff)

end
