(* ===== verification/Py_Codec.thy ===== *)
theory Py_Codec
  imports Py_Value
begin

text \<open>
  Text to bytes: \<open>str.encode()\<close> (UTF-8, lone surrogates raise), \<open>base64.b64decode\<close> in
  its strict (\<open>validate=True\<close>) and lenient forms as CPython 3.11's \<open>binascii.a2b_base64\<close>
  computes them, and the converse \<open>base64.b64encode\<close>.
\<close>

section \<open>UTF-8\<close>

definition is_surrogate :: "nat \<Rightarrow> bool" where
  "is_surrogate c \<longleftrightarrow> 55296 \<le> c \<and> c \<le> 57343"

definition utf8_char :: "nat \<Rightarrow> bytes res" where
  "utf8_char c =
     (if c < 128 then Inr [c]
      else if c < 2048 then Inr [192 + c div 64, 128 + c mod 64]
      else if is_surrogate c then Inl UnicodeError
      else if c < 65536 then Inr [224 + c div 4096, 128 + c div 64 mod 64, 128 + c mod 64]
      else Inr [240 + c div 262144, 128 + c div 4096 mod 64, 128 + c div 64 mod 64, 128 + c mod 64])"

fun utf8_encode :: "pystr \<Rightarrow> bytes res" where
  "utf8_encode [] = Inr []"
| "utf8_encode (c # cs) = rbind (utf8_char c) (\<lambda>b. rbind (utf8_encode cs) (\<lambda>bs. Inr (b @ bs)))"

lemma utf8_encode_errors: "utf8_encode s = Inl e \<Longrightarrow> e = UnicodeError"
  by (induction s) (auto simp: rbind_iffs utf8_char_def split: if_splits)

definition ascii_encode :: "pystr \<Rightarrow> bytes res" where
  \<comment> \<open>\<open>b64decode\<close> turns the \<open>UnicodeEncodeError\<close> into a \<open>ValueError\<close>\<close>
  "ascii_encode s = (if list_all (\<lambda>c. c < 128) s then Inr s else Inl ValueError)"

text \<open>Reading one character back shows that no encoding is a prefix of another.\<close>

fun utf8_head :: "bytes \<Rightarrow> nat \<times> bytes" where
  "utf8_head (a # r) =
     (if a < 128 then (a, r)
      else if a < 224 then ((a - 192) * 64 + (hd r - 128), tl r)
      else if a < 240 then ((a - 224) * 4096 + (hd r - 128) * 64 + (hd (tl r) - 128), tl (tl r))
      else ((a - 240) * 262144 + (hd r - 128) * 4096 + (hd (tl r) - 128) * 64 + (hd (tl (tl r)) - 128), tl (tl (tl r))))"
| "utf8_head [] = (0, [])"

lemma utf8_head_simps:
  "a < 128 \<Longrightarrow> utf8_head (a # r) = (a, r)"
  "a < 32 \<Longrightarrow> utf8_head ((192 + a) # (128 + b) # r) = (a * 64 + b, r)"
  "a < 16 \<Longrightarrow> utf8_head ((224 + a) # (128 + b) # (128 + c) # r) = (a * 4096 + b * 64 + c, r)"
  "utf8_head ((240 + a) # (128 + b) # (128 + c) # (128 + d) # r)
     = (a * 262144 + b * 4096 + c * 64 + d, r)"
  by simp_all

lemma split_base64:
  fixes c :: nat
  shows "c div 64 * 64 + c mod 64 = c"
    and "c div 4096 * 4096 + c div 64 mod 64 * 64 + c mod 64 = c"
    and "c div 262144 * 262144 + c div 4096 mod 64 * 4096 + c div 64 mod 64 * 64 + c mod 64 = c"
proof -
  have a: "x div 64 * 64 + x mod 64 = x" for x :: nat
    by simp
  have eq: "c div 4096 = c div 64 div 64" "c div 262144 = c div 64 div 64 div 64"
    by (simp_all flip: div_mult2_eq)
  show "c div 64 * 64 + c mod 64 = c"
    by (rule a)
  show "c div 4096 * 4096 + c div 64 mod 64 * 64 + c mod 64 = c"
    unfolding eq using a [of c] a [of "c div 64"] by linarith
  show "c div 262144 * 262144 + c div 4096 mod 64 * 4096 + c div 64 mod 64 * 64 + c mod 64 = c"
    unfolding eq using a [of c] a [of "c div 64"] a [of "c div 64 div 64"] by linarith
qed

lemma utf8_head_char:
  assumes "utf8_char c = Inr b"
  shows "utf8_head (b @ r) = (c, r)"
proof -
  consider "c < 128" "b = [c]"
    | "128 \<le> c" "c < 2048" "b = [192 + c div 64, 128 + c mod 64]"
    | "2048 \<le> c" "c < 65536" "b = [224 + c div 4096, 128 + c div 64 mod 64, 128 + c mod 64]"
    | "65536 \<le> c"
      "b = [240 + c div 262144, 128 + c div 4096 mod 64, 128 + c div 64 mod 64, 128 + c mod 64]"
    using assms by (auto simp: utf8_char_def not_less simp del: add_is_0 split: if_splits)
  then show ?thesis
  proof cases
    case 1
    then show ?thesis by (simp only: append.simps utf8_head_simps)
  next
    case 2
    then have "c div 64 < 32" by (simp add: div_less_iff_less_mult)
    with 2 show ?thesis by (simp only: append.simps utf8_head_simps split_base64)
  next
    case 3
    then have "c div 4096 < 16" by (simp add: div_less_iff_less_mult)
    with 3 show ?thesis by (simp only: append.simps utf8_head_simps split_base64)
  next
    case 4
    then show ?thesis by (simp only: append.simps utf8_head_simps split_base64)
  qed
qed

lemma utf8_char_prefix:
  assumes "utf8_char c = Inr b" and "utf8_char c' = Inr b'" and "b @ r = b' @ r'"
  shows "c = c' \<and> r = r'"
  using utf8_head_char [OF assms(1), of r] utf8_head_char [OF assms(2), of r'] assms(3) by simp

lemma utf8_char_nonempty: "utf8_char c = Inr b \<Longrightarrow> b \<noteq> []"
  by (auto simp: utf8_char_def split: if_splits)

lemma utf8_encode_inject:
  assumes "utf8_encode s = Inr b" and "utf8_encode t = Inr b"
  shows "s = t"
  using assms
proof (induction s arbitrary: t b)
  case Nil
  then show ?case
    by (cases t) (auto simp: rbind_iffs dest: utf8_char_nonempty)
next
  case (Cons c s)
  show ?case
  proof (cases t)
    case Nil
    with Cons.prems show ?thesis by (auto simp: rbind_iffs dest: utf8_char_nonempty)
  next
    case t: (Cons c' t')
    from Cons.prems(1) obtain b1 bs where
      1: "utf8_char c = Inr b1" "utf8_encode s = Inr bs" "b1 @ bs = b"
      by (auto simp: rbind_iffs)
    from Cons.prems(2) t obtain b1' bs' where
      2: "utf8_char c' = Inr b1'" "utf8_encode t' = Inr bs'" "b1' @ bs' = b"
      by (auto simp: rbind_iffs)
    from 1 2 have "c = c' \<and> bs = bs'" by (metis utf8_char_prefix)
    with Cons.IH [of bs t'] 1 2 t show ?thesis by simp
  qed
qed

section \<open>Base64\<close>

definition b64_value :: "nat \<Rightarrow> nat option" where
  "b64_value c =
     (if 65 \<le> c \<and> c \<le> 90 then Some (c - 65)
      else if 97 \<le> c \<and> c \<le> 122 then Some (c - 71)
      else if 48 \<le> c \<and> c \<le> 57 then Some (c + 4)
      else if c = 43 then Some 62
      else if c = 47 then Some 63
      else None)"

text \<open>
  The loop of \<open>a2b_base64\<close>: position in the group of four, the bits left over, the pads
  seen in a row, whether a pad was seen at all, and the bytes written so far.
\<close>

fun a2b_loop :: "bool \<Rightarrow> nat \<Rightarrow> nat \<Rightarrow> nat \<Rightarrow> bool \<Rightarrow> bytes \<Rightarrow> bytes \<Rightarrow> bytes res" where
  "a2b_loop strict quad left pads padded out [] =
     (if quad = 0 then Inr (rev out) else Inl BinasciiError)"
| "a2b_loop strict quad left pads padded out (c # cs) =
     (if c = 61 then
        (if 2 \<le> quad \<and> 4 \<le> quad + pads + 1 then
           (if strict \<and> cs \<noteq> [] then Inl BinasciiError else Inr (rev out))
         else a2b_loop strict quad left (if 2 \<le> quad then pads + 1 else pads) True out cs)
      else case b64_value c of
        None \<Rightarrow> if strict then Inl BinasciiError
                else a2b_loop strict quad left pads padded out cs
      | Some v \<Rightarrow>
          if strict \<and> padded then Inl BinasciiError
          else if quad = 0 then a2b_loop strict 1 v 0 padded out cs
          else if quad = 1 then a2b_loop strict 2 (v mod 16) 0 padded ((left * 4 + v div 16) # out) cs
          else if quad = 2 then a2b_loop strict 3 (v mod 4) 0 padded ((left * 16 + v div 4) # out) cs
          else a2b_loop strict 0 0 0 padded ((left * 64 + v) # out) cs)"

definition a2b_base64 :: "bool \<Rightarrow> bytes \<Rightarrow> bytes res" where
  "a2b_base64 strict s =
     (case s of
        c # cs \<Rightarrow> if strict \<and> c = 61 then Inl BinasciiError else a2b_loop strict 0 0 0 False [] s
      | [] \<Rightarrow> Inr [])"

fun b64decode :: "bool \<Rightarrow> pyval \<Rightarrow> bytes res" where
  "b64decode validate (PStr s) = rbind (ascii_encode s) (a2b_base64 validate)"
| "b64decode validate v = Inl TypeError"

lemma a2b_loop_errors: "a2b_loop strict quad left pads padded out s = Inl e \<Longrightarrow> e = BinasciiError"
  by (induction strict quad left pads padded out s rule: a2b_loop.induct)
    (auto split: if_splits option.splits)

lemma a2b_base64_errors: "a2b_base64 strict s = Inl e \<Longrightarrow> e = BinasciiError"
  by (cases s) (auto simp: a2b_base64_def simp del: a2b_loop.simps split: if_splits
      dest: a2b_loop_errors)

lemma b64decode_errors: "b64decode validate v = Inl e \<Longrightarrow> e \<in> {TypeError, ValueError, BinasciiError}"
  by (cases v) (auto simp: rbind_iffs ascii_encode_def split: if_splits dest: a2b_base64_errors)

definition b64_char :: "nat \<Rightarrow> nat" where
  "b64_char v =
     (if v < 26 then v + 65 else if v < 52 then v + 71 else if v < 62 then v - 4
      else if v = 62 then 43 else 47)"

fun b64encode :: "bytes \<Rightarrow> bytes" where
  "b64encode [] = []"
| "b64encode [a] = [b64_char (a div 4), b64_char (a mod 4 * 16), 61, 61]"
| "b64encode [a, b] = [b64_char (a div 4), b64_char (a mod 4 * 16 + b div 16), b64_char (b mod 16 * 4), 61]"
| "b64encode (a # b # c # r) =
     [b64_char (a div 4), b64_char (a mod 4 * 16 + b div 16),
      b64_char (b mod 16 * 4 + c div 64), b64_char (c mod 64)] @ b64encode r"

lemma b64_value_char [simp]: "v < 64 \<Longrightarrow> b64_value (b64_char v) = Some v"
  by (auto simp: b64_value_def b64_char_def)

lemma b64_char_not_pad [simp]: "b64_char v \<noteq> 61" "61 \<noteq> b64_char v"
  by (auto simp: b64_char_def)

lemma a2b_loop_b64encode:
  assumes "list_all (\<lambda>b. b < 256) bs"
  shows "a2b_loop strict 0 0 0 False out (b64encode bs) = Inr (rev out @ bs)"
  using assms
proof (induction bs arbitrary: out rule: b64encode.induct)
  case (2 a)
  then have "a div 4 < 64" "a mod 4 * 16 < 64" by auto
  then show ?case by simp
next
  case (3 a b)
  then have "a div 4 < 64" "a mod 4 * 16 + b div 16 < 64" "b mod 16 * 4 < 64" "b div 16 < 16"
    by auto
  then show ?case by simp
next
  case (4 a b c r)
  then have "a div 4 < 64" "a mod 4 * 16 + b div 16 < 64" "b mod 16 * 4 + c div 64 < 64"
    "b div 16 < 16" "c div 64 < 4" by auto
  with 4 show ?case by simp
qed simp

lemma a2b_base64_b64encode:
  assumes "list_all (\<lambda>b. b < 256) bs"
  shows "a2b_base64 strict (b64encode bs) = Inr bs"
proof (cases bs)
  case Nil
  then show ?thesis by (simp add: a2b_base64_def)
next
  case (Cons a r)
  then obtain c cs where "b64encode bs = c # cs" "c \<noteq> 61"
    by (cases bs rule: b64encode.cases) auto
  with a2b_loop_b64encode [OF assms, of strict "[]"] show ?thesis
    by (simp add: a2b_base64_def)
qed

end
