(* ===== verification/Py_Float_Facts.thy ===== *)
theory Py_Float_Facts
  imports Py_Str
begin

text \<open>
  What the float model means over the reals: the exact value \<open>rval\<close> of a finite float, the
  comparisons and the truncation as statements about it, and the error of rounding.
\<close>

section \<open>The real value\<close>

fun rval :: "pyfloat \<Rightarrow> real" where
  "rval (Fin s m e) = (if s then - 1 else 1) * of_int m * 2 powi e"
| "rval (Inf s) = 0"
| "rval NaN = 0"

lemma scale2_real: "of_int (scale2 m e) / of_int (fin_den e) = of_int m * (2::real) powi e"
  by (auto simp: scale2_def fin_den_def power_int_def field_simps)

lemma rval_ratio: "rval (Fin s m e) = of_int (fin_num s m e) / of_int (fin_den e)"
  using scale2_real [of m e] by (auto simp: fin_num_def)

lemma fin_den_real_pos [simp]: "0 < (of_int (fin_den e) :: real)"
  by simp

lemma finite_cases:
  assumes "is_finite x"
  obtains s m e where "x = Fin s m e"
  using assms by (cases x) auto

text \<open>Each comparison with an integer bound is the comparison of the real values.\<close>

lemma cmp_int_rval:
  assumes "is_finite x"
  shows "int_le_flt n x \<longleftrightarrow> of_int n \<le> rval x"
    and "flt_le_int x n \<longleftrightarrow> rval x \<le> of_int n"
    and "int_lt_flt n x \<longleftrightarrow> of_int n < rval x"
    and "flt_lt_int x n \<longleftrightarrow> rval x < of_int n"
proof -
  obtain s m e where x: "x = Fin s m e"
    using assms by (rule finite_cases)
  let ?d = "of_int (fin_den e) :: real"
  have le: "(of_int a :: real) * ?d \<le> of_int b \<longleftrightarrow> a * fin_den e \<le> b"
    "of_int b \<le> (of_int a :: real) * ?d \<longleftrightarrow> b \<le> a * fin_den e" for a b
    by (simp_all flip: of_int_mult)
  have lt: "(of_int a :: real) * ?d < of_int b \<longleftrightarrow> a * fin_den e < b"
    "of_int b < (of_int a :: real) * ?d \<longleftrightarrow> b < a * fin_den e" for a b
    by (simp_all flip: of_int_mult)
  show "int_le_flt n x \<longleftrightarrow> of_int n \<le> rval x"
    and "flt_le_int x n \<longleftrightarrow> rval x \<le> of_int n"
    and "int_lt_flt n x \<longleftrightarrow> of_int n < rval x"
    and "flt_lt_int x n \<longleftrightarrow> rval x < of_int n"
    unfolding x rval_ratio
    by (simp_all add: pos_le_divide_eq pos_divide_le_eq pos_less_divide_eq pos_divide_less_eq le lt)
qed

lemma flt_le_rval:
  assumes "is_finite x" and "is_finite y"
  shows "flt_le x y \<longleftrightarrow> rval x \<le> rval y"
proof -
  obtain s m e where x: "x = Fin s m e"
    using assms(1) by (rule finite_cases)
  obtain s' m' e' where y: "y = Fin s' m' e'"
    using assms(2) by (rule finite_cases)
  have "(of_int (fin_num s m e) / of_int (fin_den e) :: real)
      \<le> of_int (fin_num s' m' e') / of_int (fin_den e')
    \<longleftrightarrow> of_int (fin_num s m e * fin_den e') \<le> (of_int (fin_num s' m' e' * fin_den e) :: real)"
    by (simp add: field_simps)
  then show ?thesis
    unfolding x y rval_ratio by (simp only: flt_le.simps of_int_le_iff)
qed

lemma bounded_finite: "int_le_flt a x \<Longrightarrow> flt_le_int x b \<Longrightarrow> is_finite x"
  by (cases x) auto

text \<open>Truncation moves a value by less than one.\<close>

lemma floor_bounds:
  fixes n d :: int
  assumes "0 < d"
  shows "(of_int (n div d) :: real) \<le> of_int n / of_int d"
    and "(of_int n / of_int d :: real) < of_int (n div d) + 1"
proof -
  have "n div d * d \<le> n" "n < (n div d + 1) * d"
    using pos_mod_bound [OF assms, of n] pos_mod_sign [OF assms, of n]
      div_mult_mod_eq [of n d] by (simp_all only: distrib_right)
  then have "(of_int (n div d * d) :: real) \<le> of_int n"
    "(of_int n :: real) < of_int ((n div d + 1) * d)"
    by (simp_all only: of_int_le_iff of_int_less_iff)
  with assms show "(of_int (n div d) :: real) \<le> of_int n / of_int d"
    and "(of_int n / of_int d :: real) < of_int (n div d) + 1"
    by (simp_all add: pos_le_divide_eq pos_divide_less_eq)
qed

lemma trunc_bound:
  assumes "flt_to_int x = Inr k"
  shows "is_finite x" and "\<bar>rval x\<bar> < \<bar>of_int k\<bar> + 1"
proof -
  obtain s m e where x: "x = Fin s m e"
    using assms by (cases x) auto
  show "is_finite x" by (simp add: x)
  let ?q = "scale2 m e div fin_den e" and ?v = "of_int m * (2::real) powi e"
  have "of_int ?q \<le> ?v" "?v < of_int ?q + 1"
    using floor_bounds [OF fin_den_pos, of "scale2 m e" e] by (simp_all add: scale2_real)
  then have "\<bar>?v\<bar> < \<bar>of_int ?q\<bar> + 1" by linarith
  moreover have "\<bar>of_int k\<bar> = \<bar>of_int ?q :: real\<bar>"
    using assms by (auto simp: x fin_den_def)
  ultimately show "\<bar>rval x\<bar> < \<bar>of_int k\<bar> + 1"
    by (simp add: x abs_mult)
qed

lemma small_constants:
  "round_ratio s 1 1 = Fin s 4503599627370496 (-52)"
  "round_ratio s 0 1 = Fin s 0 (-1074)"
  by (simp_all add: round_ratio_def floor_log2_def scale2_def round_half_even_def bit_length.simps)

end
