(* ===== verification/Control_Protocol.thy ===== *)
theory Control_Protocol
  imports Py_Codec Py_Float_Facts
begin

text \<open>
  \<open>control_protocol.py\<close>: the versioned, signed control packet. \<open>build_sign_message\<close> is the
  text the operator signs, \<open>valid_command\<close> the check of a command and \<open>resolve_command\<close> the
  actuator values it stands for. A packet is the value \<open>json.loads\<close> returned, so every
  field may have any type.
\<close>

section \<open>Constants\<close>

definition PROTOCOL_VERSION :: int where
  "PROTOCOL_VERSION = 1"

definition CONTROL_TYPE :: pystr where
  "CONTROL_TYPE = u ''control''"

definition HIGH_LEVEL_MODE :: pystr where
  "HIGH_LEVEL_MODE = u ''high_level''"

definition LOW_LEVEL_MODE :: pystr where
  "LOW_LEVEL_MODE = u ''low_level''"

definition HIGH_LEVEL_ACTIONS :: "pystr list" where
  "HIGH_LEVEL_ACTIONS =
     [u ''forward'', u ''reverse'', u ''left'', u ''right'', u ''stop'', u ''emergency_stop'']"

lemmas protocol_constants =
  PROTOCOL_VERSION_def CONTROL_TYPE_def HIGH_LEVEL_MODE_def LOW_LEVEL_MODE_def HIGH_LEVEL_ACTIONS_def

section \<open>The signed text\<close>

text \<open>\<open>command.get("mode") == m\<close>\<close>

definition mode_is :: "pyval \<Rightarrow> pystr \<Rightarrow> bool res" where
  "mode_is command m = rbind (py_get command (u ''mode'') PNone) (\<lambda>v. Inr (eq_str v m))"

definition str_field :: "(nat \<Rightarrow> bool) \<Rightarrow> pyval \<Rightarrow> string \<Rightarrow> pystr res" where
  "str_field pr v k = rbind (py_getitem v (u k)) (py_str pr)"

definition command_fields :: "(nat \<Rightarrow> bool) \<Rightarrow> pyval \<Rightarrow> pystr list res" where
  "command_fields pr command =
     rbind (mode_is command HIGH_LEVEL_MODE) (\<lambda>high.
     if high then
       rbind (str_field pr command ''action'') (\<lambda>action. Inr [HIGH_LEVEL_MODE, action])
     else
       rbind (mode_is command LOW_LEVEL_MODE) (\<lambda>low.
       rbind (str_field pr command ''steering'') (\<lambda>steering.
       rbind (str_field pr command ''throttle'') (\<lambda>throttle.
       rbind (str_field pr command ''brake'') (\<lambda>brake.
       if low then
         rbind (py_get command (u ''direction'') (PInt 1)) (\<lambda>d.
         rbind (py_str pr d) (\<lambda>direction.
         Inr [LOW_LEVEL_MODE, steering, throttle, brake, direction]))
       else Inr [steering, throttle, brake])))))"

definition sign_fields :: "(nat \<Rightarrow> bool) \<Rightarrow> pyval \<Rightarrow> pystr list res" where
  "sign_fields pr packet =
     rbind (py_getitem packet (u ''command'')) (\<lambda>command.
     rbind (str_field pr packet ''version'') (\<lambda>version.
     rbind (str_field pr packet ''type'') (\<lambda>type.
     rbind (str_field pr packet ''session_id'') (\<lambda>session_id.
     rbind (str_field pr packet ''sequence'') (\<lambda>sequence.
     rbind (str_field pr packet ''timestamp_ms'') (\<lambda>timestamp_ms.
     rbind (command_fields pr command) (\<lambda>fs.
     Inr ([version, type, session_id, sequence, timestamp_ms] @ fs))))))))"

definition build_sign_message :: "(nat \<Rightarrow> bool) \<Rightarrow> pyval \<Rightarrow> pystr res" where
  "build_sign_message pr packet = rbind (sign_fields pr packet) (\<lambda>fs. Inr (join (u ''|'') fs))"

section \<open>Validity\<close>

text \<open>\<open>set(command) == {...}\<close> for a dict.\<close>

definition keys_are :: "pyval dict \<Rightarrow> pystr list \<Rightarrow> bool" where
  "keys_are d ks \<longleftrightarrow>
     list_all (\<lambda>k. k \<in> set ks) (dict_keys d) \<and> list_all (\<lambda>k. k \<in> set (dict_keys d)) ks"

text \<open>\<open>command["action"] in HIGH_LEVEL_ACTIONS\<close>: membership in a frozenset hashes the value.\<close>

definition in_actions :: "pyval \<Rightarrow> bool res" where
  "in_actions v =
     (if hashable v then Inr (list_ex (eq_str v) HIGH_LEVEL_ACTIONS) else Inl TypeError)"

definition valid_ranges :: "pyval \<Rightarrow> pyval \<Rightarrow> bool res" where
  "valid_ranges command direction =
     (case rbind (py_getitem command (u ''steering'')) (\<lambda>v. rbind (py_float v) (\<lambda>steering.
           rbind (py_getitem command (u ''throttle'')) (\<lambda>v. rbind (py_float v) (\<lambda>throttle.
           rbind (py_getitem command (u ''brake'')) (\<lambda>v. rbind (py_float v) (\<lambda>brake.
           rbind (py_int direction) (\<lambda>direction.
           Inr (steering, throttle, brake, direction)))))))) of
        Inl e \<Rightarrow> if e = TypeError \<or> is_ValueError e then Inr False else Inl e
      | Inr (steering, throttle, brake, direction) \<Rightarrow>
          Inr (int_le_flt (-1) steering \<and> flt_le_int steering 1
             \<and> int_le_flt 0 throttle \<and> flt_le_int throttle 1
             \<and> int_le_flt 0 brake \<and> flt_le_int brake 1
             \<and> direction \<in> {-1, 0, 1}))"

definition HIGH_KEYS :: "pystr list" where
  "HIGH_KEYS = [u ''mode'', u ''action'']"

definition LOW_KEYS :: "pystr list" where
  "LOW_KEYS = [u ''mode'', u ''steering'', u ''throttle'', u ''brake'', u ''direction'']"

definition PLAIN_KEYS :: "pystr list" where
  "PLAIN_KEYS = [u ''steering'', u ''throttle'', u ''brake'']"

fun valid_command :: "pyval \<Rightarrow> bool res" where
  "valid_command (PDict d) =
     rbind (mode_is (PDict d) HIGH_LEVEL_MODE) (\<lambda>high.
     if high then
       (if keys_are d HIGH_KEYS
        then rbind (py_getitem (PDict d) (u ''action'')) in_actions
        else Inr False)
     else
       rbind (mode_is (PDict d) LOW_LEVEL_MODE) (\<lambda>low.
       if low then
         (if \<not> keys_are d LOW_KEYS then Inr False
          else rbind (py_getitem (PDict d) (u ''direction'')) (valid_ranges (PDict d)))
       else if keys_are d PLAIN_KEYS then valid_ranges (PDict d) (PInt 1)
       else Inr False))"
| "valid_command v = Inr False"

section \<open>Actuator values\<close>

record actuation =
  steering :: pyfloat
  throttle :: pyfloat
  brake :: pyfloat
  direction :: pyfloat

abbreviation f0 :: pyfloat where "f0 \<equiv> Fin False 0 (-1074)"
abbreviation f1 :: pyfloat where "f1 \<equiv> Fin False 4503599627370496 (-52)"
abbreviation fm1 :: pyfloat where "fm1 \<equiv> Fin True 4503599627370496 (-52)"

definition resolve_action :: "pyval \<Rightarrow> actuation" where
  "resolve_action action =
     (if eq_str action (u ''forward'') then \<lparr>steering = f0, throttle = f1, brake = f0, direction = f1\<rparr>
      else if eq_str action (u ''reverse'') then \<lparr>steering = f0, throttle = f1, brake = f0, direction = fm1\<rparr>
      else if eq_str action (u ''left'') then \<lparr>steering = fm1, throttle = f0, brake = f0, direction = f1\<rparr>
      else if eq_str action (u ''right'') then \<lparr>steering = f1, throttle = f0, brake = f0, direction = f1\<rparr>
      else \<lparr>steering = f0, throttle = f0, brake = f1, direction = f0\<rparr>)"

definition resolve_command :: "pyval \<Rightarrow> actuation res" where
  "resolve_command command =
     rbind (mode_is command HIGH_LEVEL_MODE) (\<lambda>high.
     if high then rbind (py_getitem command (u ''action'')) (\<lambda>a. Inr (resolve_action a))
     else
       rbind (py_getitem command (u ''steering'')) (\<lambda>v. rbind (py_float v) (\<lambda>s.
       rbind (py_getitem command (u ''throttle'')) (\<lambda>v. rbind (py_float v) (\<lambda>t.
       rbind (py_getitem command (u ''brake'')) (\<lambda>v. rbind (py_float v) (\<lambda>b.
       rbind (py_get command (u ''direction'') (PInt 1)) (\<lambda>v. rbind (py_float v) (\<lambda>d.
       Inr \<lparr>steering = s, throttle = t, brake = b, direction = d\<rparr>)))))))))"

end
