(* ===== verification/Py_Str_Facts.thy ===== *)
theory Py_Str_Facts
  imports Py_Value Py_Float_Facts
begin

text \<open>
  Facts on the text conversions: a text \<open>int\<close> accepts is one \<open>float\<close> accepts, with the same
  value; \<open>int\<close> and \<open>float\<close> read back what \<open>str\<close> writes for an integer; and none of the
  texts they accept holds the separator of the signed message.
\<close>

section \<open>Digit texts\<close>

lemma digits_val_Nil [simp]: "digits_val [] = 0"
  by (simp add: digits_val_def)

lemma digits_val_snoc: "digits_val (ds @ [c]) = 10 * digits_val ds + (int c - 48)"
  by (simp add: digits_val_def)

lemma digits_val_nonneg: "list_all is_digit ds \<Longrightarrow> 0 \<le> digits_val ds"
  by (induction ds rule: rev_induct) (auto simp: digits_val_snoc is_digit_def)

lemma digits_us_Some:
  assumes "digits_us b = Some ds"
  shows "ds = filter (\<lambda>c. c \<noteq> 95) b" and "list_all is_digit ds" and "us_ok prev b"
    and "\<exists>c r. ds = c # r" and "\<exists>c r. b = c # r \<and> is_digit c"
  using assms
  by (induction b arbitrary: ds prev rule: digits_us.induct)
    (auto simp: is_digit_def split: if_splits)

lemma dec_digits_props:
  assumes "0 \<le> n"
  shows "list_all is_digit (dec_digits n)" and "digits_val (dec_digits n) = n" and "dec_digits n \<noteq> []"
proof -
  have "list_all is_digit (dec_digits n) \<and> digits_val (dec_digits n) = n \<and> dec_digits n \<noteq> []"
    using assms
  proof (induction n rule: dec_digits.induct)
    case (1 n)
    show ?case
    proof (cases "n < 10")
      case True
      with 1(2) show ?thesis
        by (subst (1 2 3) dec_digits.simps) (auto simp: is_digit_def digits_val_def)
    next
      case False
      with 1 have IH: "list_all is_digit (dec_digits (n div 10))"
        "digits_val (dec_digits (n div 10)) = n div 10"
        by auto
      have "nat (n mod 10) \<le> 9" using pos_mod_bound [of 10 n] by linarith
      with False IH 1(2) show ?thesis
        by (subst (1 2 3) dec_digits.simps) (auto simp: is_digit_def digits_val_snoc)
    qed
  qed
  then show "list_all is_digit (dec_digits n)" and "digits_val (dec_digits n) = n"
    and "dec_digits n \<noteq> []" by auto
qed

lemma digits_us_digits: "list_all is_digit ds \<Longrightarrow> ds \<noteq> [] \<Longrightarrow> digits_us ds = Some ds"
  by (induction ds rule: digits_us.induct) (auto simp: is_digit_def)

section \<open>Stripping\<close>

lemma strip_id:
  assumes "s = [] \<or> (\<not> ascii_space (hd s) \<and> \<not> ascii_space (last s))"
  shows "strip s = s"
proof (cases s)
  case (Cons c r)
  with assms have "dropWhile ascii_space s = s" by simp
  moreover have "dropWhile ascii_space (rev s) = rev s"
    using assms Cons by (cases "rev s") (auto simp: last_rev hd_rev simp flip: hd_rev)
  ultimately show ?thesis by (simp add: strip_def)
qed (simp add: strip_def)

lemma set_strip: "set (strip s) \<subseteq> set s"
  by (auto simp: strip_def dest!: set_dropWhileD)

text \<open>A text of plain ASCII without blanks is its own \<open>number_text\<close>.\<close>

definition plain_text :: "pystr \<Rightarrow> bool" where
  "plain_text s \<longleftrightarrow> list_all (\<lambda>c. 32 < c \<and> c < 127) s"

lemma number_text_plain: "plain_text s \<Longrightarrow> number_text s = s"
proof -
  assume p: "plain_text s"
  then have "map ascii_form s = s"
    by (auto simp: plain_text_def list_all_iff ascii_form_def intro!: map_idI)
  moreover have "strip s = s"
  proof (cases "s = []")
    case False
    with p have "32 < hd s" "32 < last s"
      by (auto simp: plain_text_def list_all_iff)
    then show ?thesis
      by (intro strip_id) (auto simp: ascii_space_def)
  qed (simp add: strip_def)
  ultimately show ?thesis by (simp add: number_text_def)
qed

lemma digits_plain: "list_all is_digit ds \<Longrightarrow> plain_text ds"
  by (auto simp: plain_text_def list_all_iff is_digit_def)

lemma int_str_plain: "plain_text (int_str n)"
  using digits_plain [OF dec_digits_props(1)] by (auto simp: int_str_def plain_text_def)

section \<open>Integers as text\<close>

lemma split_sign_digits: "list_all is_digit ds \<Longrightarrow> split_sign ds = (False, ds)"
  by (cases ds) (auto simp: split_sign_def is_digit_def)

lemma split_sign_int_str: "split_sign (int_str n) = (n < 0, dec_digits \<bar>n\<bar>)"
  using split_sign_digits [OF dec_digits_props(1)]
  by (auto simp: int_str_def split_sign_def [of "45 # s" for s])

lemma int_of_int_str:
  assumes "length (dec_digits \<bar>n\<bar>) \<le> max_str_digits"
  shows "int_of_str (int_str n) = Inr n"
proof -
  have "0 \<le> \<bar>n\<bar>" by simp
  note d = dec_digits_props [OF this]
  from assms d have "digits_us (dec_digits \<bar>n\<bar>) = Some (dec_digits \<bar>n\<bar>)"
    by (intro digits_us_digits) auto
  with assms d(2) show ?thesis
    by (auto simp: int_of_str_def number_text_plain [OF int_str_plain] split_sign_int_str)
qed

lemma map_lower_digits: "list_all is_digit ds \<Longrightarrow> map lower ds = ds"
  by (auto simp: list_all_iff lower_def is_digit_def intro!: map_idI)

lemma takeWhile_digits: "list_all is_digit ds \<Longrightarrow> takeWhile is_digit ds = ds"
  by (simp add: list_all_iff)

lemma dropWhile_digits: "list_all is_digit ds \<Longrightarrow> dropWhile is_digit ds = []"
  by (simp add: list_all_iff)

lemma parse_decimal_digits:
  assumes "list_all is_digit ds" and "ds \<noteq> []"
  shows "parse_decimal neg ds = Some (round_ratio neg (digits_val ds) 1)"
  using assms
  by (simp add: parse_decimal_def takeWhile_digits dropWhile_digits parse_exponent_def flt_of_decimal_def)

lemma float_of_int_text:
  assumes "int_of_str s = Inr n"
  shows "\<exists>neg. float_of_str s = Inr (round_ratio neg \<bar>n\<bar> 1)"
proof -
  obtain neg body ds where
    t: "split_sign (number_text s) = (neg, body)" and ds: "digits_us body = Some ds"
    and n: "n = (if neg then - digits_val ds else digits_val ds)"
    using assms by (auto simp: int_of_str_def split: prod.splits option.splits if_splits)
  note d = digits_us_Some [OF ds]
  have ok: "us_ok 0 (number_text s)"
    using t digits_us_Some(3) [OF ds]
    by (cases "number_text s") (auto simp: split_sign_def split: if_splits simp del: us_ok.simps(2)
        simp: us_ok.simps(2) [of _ 45] us_ok.simps(2) [of _ 43])
  have sign: "split_sign (filter (\<lambda>c. c \<noteq> 95) (number_text s)) = (neg, ds)"
    using t d(1,2,5) split_sign_digits [OF d(2)]
    by (auto simp: split_sign_def split: list.splits if_splits)
  have "map lower ds = ds" by (rule map_lower_digits [OF d(2)])
  moreover have "ds \<noteq> u ''inf'' \<and> ds \<noteq> u ''infinity'' \<and> ds \<noteq> u ''nan''"
    using d(2) by (auto simp: u_def is_digit_def)
  moreover have "parse_decimal neg ds = Some (round_ratio neg (digits_val ds) 1)"
    using d(2,4) by (intro parse_decimal_digits) auto
  ultimately have "float_of_str s = Inr (round_ratio neg (digits_val ds) 1)"
    by (simp add: float_of_str_def sign ok)
  moreover have "\<bar>n\<bar> = digits_val ds"
    using n digits_val_nonneg [OF d(2)] by auto
  ultimately show ?thesis by auto
qed

section \<open>No separator in a number\<close>

lemma dropWhile_keeps: "c \<in> set s \<Longrightarrow> \<not> P c \<Longrightarrow> c \<in> set (dropWhile P s)"
  by (induction s) auto

lemma strip_keeps: "c \<in> set s \<Longrightarrow> \<not> ascii_space c \<Longrightarrow> c \<in> set (strip s)"
  by (simp add: strip_def dropWhile_keeps)

lemma number_text_keeps:
  assumes "124 \<in> set s"
  shows "124 \<in> set (number_text s)"
proof -
  have "ascii_form 124 = 124" by (simp add: ascii_form_def)
  with assms have "124 \<in> set (map ascii_form s)"
    by (metis image_eqI list.set_map)
  then show ?thesis by (simp add: number_text_def strip_keeps ascii_space_def)
qed

lemma split_sign_set: "split_sign s = (neg, b) \<Longrightarrow> set b \<subseteq> set s \<and> set s \<subseteq> insert 45 (insert 43 (set b))"
  by (auto simp: split_sign_def split: list.splits if_splits)

lemma int_of_str_no_bar:
  assumes "int_of_str s = Inr n"
  shows "124 \<notin> set s"
proof
  assume "124 \<in> set s"
  obtain neg body ds where
    t: "split_sign (number_text s) = (neg, body)" and ds: "digits_us body = Some ds"
    using assms by (auto simp: int_of_str_def split: prod.splits option.splits if_splits)
  from \<open>124 \<in> set s\<close> have "124 \<in> set (number_text s)" by (rule number_text_keeps)
  with split_sign_set [OF t] have "124 \<in> set ds"
    using digits_us_Some(1) [OF ds] by auto
  with digits_us_Some(2) [OF ds] show False
    by (auto simp: list_all_iff is_digit_def)
qed

lemma digits_no_bar: "list_all is_digit ds \<Longrightarrow> 124 \<notin> set ds"
  by (auto simp: list_all_iff is_digit_def)

lemma parse_exponent_no_bar:
  assumes "parse_exponent s = Some k"
  shows "124 \<notin> set s"
proof (cases s)
  case (Cons c cs)
  obtain neg ds where sp: "split_sign cs = (neg, ds)" by (cases "split_sign cs")
  with assms Cons have "c = 101 \<or> c = 69" "list_all is_digit ds"
    by (auto simp: parse_exponent_def split: if_splits)
  with split_sign_set [OF sp] digits_no_bar [of ds] Cons show ?thesis by auto
qed simp

lemma parse_decimal_no_bar:
  assumes "parse_decimal neg s = Some x"
  shows "124 \<notin> set s"
proof
  assume bar: "124 \<in> set s"
  have "\<not> is_digit 124" by (simp add: is_digit_def)
  with bar have r: "124 \<in> set (dropWhile is_digit s)" by (rule dropWhile_keeps)
  then obtain c cs where cs: "dropWhile is_digit s = c # cs"
    by (cases "dropWhile is_digit s") auto
  show False
  proof (cases "c = 46")
    case True
    with r cs have "124 \<in> set (dropWhile is_digit cs)"
      using \<open>\<not> is_digit 124\<close> by (auto intro: dropWhile_keeps)
    with assms cs True show False
      by (auto simp: parse_decimal_def Let_def dest: parse_exponent_no_bar split: if_splits)
  next
    case False
    with assms cs r show False
      by (auto simp: parse_decimal_def Let_def dest: parse_exponent_no_bar split: if_splits)
  qed
qed

lemma float_of_str_no_bar:
  assumes "float_of_str s = Inr x"
  shows "124 \<notin> set s"
proof
  assume "124 \<in> set s"
  then have "124 \<in> set (number_text s)" by (rule number_text_keeps)
  moreover obtain neg body where
    t: "split_sign (filter (\<lambda>c. c \<noteq> 95) (number_text s)) = (neg, body)"
    by (cases "split_sign (filter (\<lambda>c. c \<noteq> 95) (number_text s))")
  ultimately have body: "124 \<in> set body"
    using split_sign_set [OF t] by auto
  then have "lower 124 \<in> set (map lower body)"
    by (metis image_eqI list.set_map)
  then have "124 \<in> set (map lower body)"
    by (simp add: lower_def)
  then have "map lower body \<noteq> u ''inf''" "map lower body \<noteq> u ''infinity''"
    "map lower body \<noteq> u ''nan''"
    by (auto simp: u_def simp del: set_map)
  with assms t body show False
    by (auto simp: float_of_str_def Let_def option_or_iffs dest: parse_decimal_no_bar split: if_splits)
qed

end
