(* ===== verification/Brake.thy ===== *)
theory Brake
  imports Control_Protocol
begin

text \<open>
  \<open>EmergencyBrakeController\<close> of \<open>secure_receiver.py\<close>: the emergency latch and what it prints,
  which is all it does in this prototype (no actuator is connected). The two runtimes drive
  it through the interface \<open>brake_interface\<close>.
\<close>

datatype 'v brake_event =
    EmergencyCleared
  | AppliedControl pyval 'v
  | EmergencyBrake pystr

record 'v brake_state =
  in_emergency :: bool
  outputs :: "'v brake_event list"

definition new_brake :: "'v brake_state" where
  "new_brake = \<lparr>in_emergency = False, outputs = []\<rparr>"

definition apply_control :: "pyval \<Rightarrow> 'v \<Rightarrow> 'v brake_state \<Rightarrow> 'v brake_state" where
  "apply_control cmd val b =
     (let b' = (if in_emergency b
                then b\<lparr>in_emergency := False, outputs := outputs b @ [EmergencyCleared]\<rparr> else b)
      in b'\<lparr>outputs := outputs b' @ [AppliedControl cmd val]\<rparr>)"

definition emergency_brake :: "pystr \<Rightarrow> 'v brake_state \<Rightarrow> 'v brake_state" where
  "emergency_brake reason b =
     (if in_emergency b then b
      else b\<lparr>in_emergency := True, outputs := outputs b @ [EmergencyBrake reason]\<rparr>)"

section \<open>The interface\<close>

text \<open>The latch as a replay of the output: on after a brake, off after a release.\<close>

fun latch_of :: "bool \<Rightarrow> 'v brake_event list \<Rightarrow> bool" where
  "latch_of l [] = l"
| "latch_of l (EmergencyBrake reason # es) = latch_of True es"
| "latch_of l (EmergencyCleared # es) = latch_of False es"
| "latch_of l (AppliedControl cmd val # es) = latch_of l es"

lemma latch_of_append: "latch_of l (es @ es') = latch_of (latch_of l es) es'"
  by (induction l es rule: latch_of.induct) auto

text \<open>The commands in an output, in order.\<close>

definition applied_of :: "'v brake_event list \<Rightarrow> (pyval \<times> 'v) list" where
  "applied_of es = concat (map (\<lambda>e. case e of AppliedControl cmd val \<Rightarrow> [(cmd, val)] | _ \<Rightarrow> []) es)"

text \<open>
  What a client may rely on: braking latches the emergency and does nothing when it is
  latched already, applying a command releases it and always reaches the output, and
  nothing is ever taken back from the output.
\<close>

locale brake_interface =
  fixes apply_op :: "pyval \<Rightarrow> 'v \<Rightarrow> 's \<Rightarrow> 's"
    and brake_op :: "pystr \<Rightarrow> 's \<Rightarrow> 's"
    and latched :: "'s \<Rightarrow> bool"
    and out :: "'s \<Rightarrow> 'v brake_event list"
  assumes brake_latches: "latched (brake_op reason b)"
    and brake_idle: "latched b \<Longrightarrow> brake_op reason b = b"
    and brake_out: "\<not> latched b \<Longrightarrow> out (brake_op reason b) = out b @ [EmergencyBrake reason]"
    and apply_releases: "\<not> latched (apply_op cmd val b)"
    and apply_out: "out (apply_op cmd val b)
      = out b @ (if latched b then [EmergencyCleared] else []) @ [AppliedControl cmd val]"
begin

lemma brake_tracks:
  "latch_of False (out b) = latched b \<Longrightarrow> latch_of False (out (brake_op reason b)) = latched (brake_op reason b)"
  by (cases "latched b") (auto simp: brake_idle brake_out brake_latches latch_of_append)

lemma apply_tracks:
  "latch_of False (out b) = latched b \<Longrightarrow> latch_of False (out (apply_op cmd val b)) = latched (apply_op cmd val b)"
  by (auto simp: apply_out apply_releases latch_of_append)

text \<open>Braking twice in a row is braking once.\<close>

lemma brake_twice: "brake_op reason' (brake_op reason b) = brake_op reason b"
  by (rule brake_idle [OF brake_latches])

text \<open>A command is in the output once per call that applies it; braking adds none.\<close>

lemma applied_brake: "applied_of (out (brake_op reason b)) = applied_of (out b)"
  by (cases "latched b") (simp_all add: applied_of_def brake_idle brake_out)

lemma applied_apply: "applied_of (out (apply_op cmd val b)) = applied_of (out b) @ [(cmd, val)]"
  by (simp add: applied_of_def apply_out)

end

interpretation ebc: brake_interface apply_control emergency_brake in_emergency outputs
  by unfold_locales (auto simp: apply_control_def emergency_brake_def)

end
