(* ===== verification/Json_Decode.thy ===== *)
theory Json_Decode
  imports Py_Value
begin

text \<open>
  \<open>json.loads\<close> on text, as CPython 3.11's scanner reads it: \<open>NaN\<close> and the infinities are
  accepted, a repeated key keeps the last value, lone surrogate escapes are kept, control
  characters in strings are refused, an integer of more than 4300 digits raises
  \<open>ValueError\<close>, and nesting deeper than the interpreter's recursion allowance (\<open>limit\<close>)
  raises \<open>RecursionError\<close>. The fuel only makes the recursion structural: the length of
  the text is enough, so \<open>NoFuel\<close> is never the outcome of \<open>json_loads\<close>.
\<close>

datatype 'a parse = Done 'a | Fail py_error | NoFuel

definition pbind :: "'a parse \<Rightarrow> ('a \<Rightarrow> 'b parse) \<Rightarrow> 'b parse" where
  "pbind p f = (case p of Done x \<Rightarrow> f x | Fail e \<Rightarrow> Fail e | NoFuel \<Rightarrow> NoFuel)"

lemma pbind_simps [simp]:
  "pbind (Done x) f = f x" "pbind (Fail e) f = Fail e" "pbind NoFuel f = NoFuel"
  by (simp_all add: pbind_def)

section \<open>Lexical parts\<close>

definition json_ws :: "nat \<Rightarrow> bool" where
  "json_ws c \<longleftrightarrow> c = 32 \<or> c = 9 \<or> c = 10 \<or> c = 13"

definition skip_ws :: "pystr \<Rightarrow> pystr" where
  "skip_ws s = dropWhile json_ws s"

definition hex_val :: "nat \<Rightarrow> nat option" where
  "hex_val c =
     (if is_digit c then Some (c - 48)
      else if 97 \<le> c \<and> c \<le> 102 then Some (c - 87)
      else if 65 \<le> c \<and> c \<le> 70 then Some (c - 55)
      else None)"

fun hex4 :: "pystr \<Rightarrow> (nat \<times> pystr) option" where
  "hex4 (a # b # c # d # r) =
     (case (hex_val a, hex_val b, hex_val c, hex_val d) of
        (Some w, Some x, Some y, Some z) \<Rightarrow> Some (w * 4096 + x * 256 + y * 16 + z, r)
      | _ \<Rightarrow> None)"
| "hex4 _ = None"

definition is_high :: "nat \<Rightarrow> bool" where
  "is_high c \<longleftrightarrow> 55296 \<le> c \<and> c \<le> 56319"

definition is_low :: "nat \<Rightarrow> bool" where
  "is_low c \<longleftrightarrow> 56320 \<le> c \<and> c \<le> 57343"

definition join_surrogates :: "nat \<Rightarrow> nat \<Rightarrow> nat" where
  "join_surrogates h l = 65536 + (h - 55296) * 1024 + (l - 56320)"

definition simple_escape :: "nat \<Rightarrow> nat option" where
  "simple_escape c =
     (if c = 34 \<or> c = 92 \<or> c = 47 then Some c
      else if c = 98 then Some 8 else if c = 102 then Some 12 else if c = 110 then Some 10
      else if c = 114 then Some 13 else if c = 116 then Some 9 else None)"

text \<open>After \<open>\u\<close>: four hexadecimal digits and, after a high surrogate, a low one if it follows.\<close>

definition unicode_escape :: "pystr \<Rightarrow> (nat \<times> pystr) option" where
  "unicode_escape s =
     (case hex4 s of
        None \<Rightarrow> None
      | Some (c, r) \<Rightarrow>
          if is_high c \<and> take 2 r = [92, 117] then
            (case hex4 (drop 2 r) of
               None \<Rightarrow> None
             | Some (c', r') \<Rightarrow>
                 if is_low c' then Some (join_surrogates c c', r') else Some (c, r))
          else Some (c, r))"

lemma hex4_length: "hex4 s = Some (c, r) \<Longrightarrow> length s = length r + 4"
  by (cases s rule: hex4.cases) (auto split: option.splits)

lemma unicode_escape_length: "unicode_escape s = Some (c, r) \<Longrightarrow> length r < length s"
  by (auto simp: unicode_escape_def split: option.splits if_splits dest!: hex4_length)

text \<open>The rest of a string literal after its opening quote; \<open>acc\<close> holds the characters read, last first.\<close>

function scan_string :: "pystr \<Rightarrow> pystr \<Rightarrow> (pystr \<times> pystr) option" where
  "scan_string acc [] = None"
| "scan_string acc (c # s) =
     (if c = 34 then Some (rev acc, s)
      else if c < 32 then None
      else if c \<noteq> 92 then scan_string (c # acc) s
      else case s of
        [] \<Rightarrow> None
      | e # s' \<Rightarrow>
          if e = 117 then
            (case unicode_escape s' of
               None \<Rightarrow> None
             | Some (c', r) \<Rightarrow> scan_string (c' # acc) r)
          else (case simple_escape e of
                  None \<Rightarrow> None
                | Some c' \<Rightarrow> scan_string (c' # acc) s'))"
  by pat_completeness auto
termination
  by (relation "measure (\<lambda>(acc, s). length s)") (auto dest: unicode_escape_length)

declare scan_string.simps(2) [simp del]

lemma scan_string_length: "scan_string acc s = Some (t, r) \<Longrightarrow> length r < length s"
proof (induction acc s rule: scan_string.induct)
  case (2 acc c s)
  consider "c = 34" | "c \<noteq> 34" "c \<noteq> 92" "\<not> c < 32"
    | e s' c' r' where "c = 92" "s = e # s'" "e = 117" "unicode_escape s' = Some (c', r')"
    | e s' c' where "c = 92" "s = e # s'" "e \<noteq> 117" "simple_escape e = Some c'"
    using "2.prems" by (auto simp: scan_string.simps(2) split: if_splits list.splits option.splits)
  then show ?case
  proof cases
    case 1
    with "2.prems" show ?thesis by (simp add: scan_string.simps(2))
  next
    case 2
    with "2.prems" "2.IH"(1) show ?thesis by (simp add: scan_string.simps(2))
  next
    case 3
    with "2.prems" have "scan_string (c' # acc) r' = Some (t, r)"
      by (simp add: scan_string.simps(2))
    with 3 "2.IH"(2) [of e s' "(c', r')" c' r'] have "length r < length r'" by simp
    with 3 unicode_escape_length [OF 3(4)] show ?thesis by simp
  next
    case 4
    with "2.prems" have "scan_string (c' # acc) s' = Some (t, r)"
      by (simp add: scan_string.simps(2))
    with 4 "2.IH"(3) [of e s' c'] have "length r < length s'" by simp
    with 4 show ?thesis by simp
  qed
qed simp

text \<open>A number: sign, integer part without leading zeros, optional fraction and exponent.\<close>

definition scan_frac :: "pystr \<Rightarrow> pystr \<times> pystr" where
  "scan_frac s =
     (case s of
        c # d # r \<Rightarrow>
          if c = 46 \<and> is_digit d
          then (c # takeWhile is_digit (d # r), dropWhile is_digit (d # r)) else ([], s)
      | _ \<Rightarrow> ([], s))"

definition scan_exp :: "pystr \<Rightarrow> pystr \<times> pystr" where
  "scan_exp s =
     (case s of
        c # r \<Rightarrow>
          if c = 101 \<or> c = 69 then
            (let sgn = (case r of d # _ \<Rightarrow> if d = 43 \<or> d = 45 then [d] else [] | [] \<Rightarrow> []);
                 r' = drop (length sgn) r
             in if takeWhile is_digit r' = [] then ([], s)
                else (c # sgn @ takeWhile is_digit r', dropWhile is_digit r'))
          else ([], s)
      | [] \<Rightarrow> ([], s))"

definition scan_int :: "pystr \<Rightarrow> (pystr \<times> pystr) option" where
  "scan_int s =
     (let sgn = (if take 1 s = [45] then [45] else []);
          s1 = drop (length sgn) s;
          ip = (if take 1 s1 = [48] then [48] else takeWhile is_digit s1)
      in if ip = [] then None else Some (sgn @ ip, drop (length ip) s1))"

definition scan_number :: "pystr \<Rightarrow> (pyval \<times> pystr) parse" where
  "scan_number s =
     (case scan_int s of
        None \<Rightarrow> Fail JSONDecodeError
      | Some (t, s2) \<Rightarrow>
          (case scan_frac s2 of (fp, s3) \<Rightarrow> case scan_exp s3 of (ep, s4) \<Rightarrow>
             if fp = [] \<and> ep = [] then
               (case int_of_str t of Inl e \<Rightarrow> Fail e | Inr n \<Rightarrow> Done (PInt n, s2))
             else
               (case float_of_str (t @ fp @ ep) of Inl e \<Rightarrow> Fail e | Inr x \<Rightarrow> Done (PFloat x, s4))))"

lemma scan_int_length: "scan_int s = Some (t, r) \<Longrightarrow> length r < length s"
  by (cases s) (auto simp: scan_int_def Let_def takeWhile_eq_Nil_iff split: if_splits)

lemma scan_frac_length: "scan_frac s = (t, r) \<Longrightarrow> length r \<le> length s"
  by (auto simp: scan_frac_def length_dropWhile_le le_SucI split: list.splits if_splits)

lemma scan_exp_length: "scan_exp s = (t, r) \<Longrightarrow> length r \<le> length s"
  by (auto simp: scan_exp_def Let_def intro!: le_trans [OF length_dropWhile_le]
      split: list.splits if_splits)

lemma scan_number_no_fuel: "scan_number s \<noteq> NoFuel"
  by (simp add: scan_number_def split: prod.splits sum.splits option.splits)

lemma scan_number_length: "scan_number s = Done (v, r) \<Longrightarrow> length r < length s"
  by (auto simp: scan_number_def split: prod.splits sum.splits option.splits if_splits
      dest!: scan_int_length scan_frac_length scan_exp_length)

definition strip_prefix :: "pystr \<Rightarrow> pystr \<Rightarrow> pystr option" where
  "strip_prefix p s = (if take (length p) s = p then Some (drop (length p) s) else None)"

definition json_words :: "(pystr \<times> pyval) list" where
  "json_words =
     [(u ''null'', PNone), (u ''true'', PBool True), (u ''false'', PBool False),
      (u ''NaN'', PFloat NaN), (u ''Infinity'', PFloat (Inf False)), (u ''-Infinity'', PFloat (Inf True))]"

definition scan_word :: "pystr \<Rightarrow> (pyval \<times> pystr) option" where
  "scan_word s =
     (case filter (\<lambda>w. strip_prefix (fst w) s \<noteq> None) json_words of
        [] \<Rightarrow> None
      | w # _ \<Rightarrow> map_option (\<lambda>r. (snd w, r)) (strip_prefix (fst w) s))"

section \<open>Values\<close>

text \<open>
  \<open>parse_value n d s\<close> reads one value at the start of \<open>s\<close> with fuel \<open>n\<close> and a recursion
  allowance of \<open>d\<close> containers; \<open>parse_items\<close> and \<open>parse_pairs\<close> read what follows the
  opening bracket and its first element.
\<close>

function (sequential) parse_value :: "nat \<Rightarrow> nat \<Rightarrow> pystr \<Rightarrow> (pyval \<times> pystr) parse"
  and parse_items :: "nat \<Rightarrow> nat \<Rightarrow> pyval list \<Rightarrow> pystr \<Rightarrow> (pyval \<times> pystr) parse"
  and parse_pairs :: "nat \<Rightarrow> nat \<Rightarrow> pyval dict \<Rightarrow> pystr \<Rightarrow> (pyval \<times> pystr) parse"
where
  "parse_value 0 d s = NoFuel"
| "parse_value (Suc n) d s =
     (case s of
        [] \<Rightarrow> Fail JSONDecodeError
      | c # r \<Rightarrow>
          if c = 34 then
            (case scan_string [] r of None \<Rightarrow> Fail JSONDecodeError | Some (t, r') \<Rightarrow> Done (PStr t, r'))
          else if c = 123 then
            (if d = 0 then Fail RecursionError
             else if take 1 (skip_ws r) = [125] then Done (PDict [], drop 1 (skip_ws r))
             else parse_pairs n (d - 1) [] (skip_ws r))
          else if c = 91 then
            (if d = 0 then Fail RecursionError
             else if take 1 (skip_ws r) = [93] then Done (PList [], drop 1 (skip_ws r))
             else parse_items n (d - 1) [] (skip_ws r))
          else (case scan_word s of Some vr \<Rightarrow> Done vr | None \<Rightarrow> scan_number s))"
| "parse_items 0 d acc s = NoFuel"
| "parse_items (Suc n) d acc s =
     pbind (parse_value n d s) (\<lambda>(v, r).
       (case skip_ws r of
          c # r' \<Rightarrow>
            if c = 93 then Done (PList (rev (v # acc)), r')
            else if c = 44 then parse_items n d (v # acc) (skip_ws r')
            else Fail JSONDecodeError
        | [] \<Rightarrow> Fail JSONDecodeError))"
| "parse_pairs 0 d acc s = NoFuel"
| "parse_pairs (Suc n) d acc s =
     (case s of
        [] \<Rightarrow> Fail JSONDecodeError
      | q # s' \<Rightarrow>
          if q \<noteq> 34 then Fail JSONDecodeError
          else (case scan_string [] s' of
            None \<Rightarrow> Fail JSONDecodeError
          | Some (k, r) \<Rightarrow>
              (case skip_ws r of
                 [] \<Rightarrow> Fail JSONDecodeError
               | c # r' \<Rightarrow>
                   if c \<noteq> 58 then Fail JSONDecodeError
                   else pbind (parse_value n d (skip_ws r')) (\<lambda>(v, r).
                     (case skip_ws r of
                        c' # r'' \<Rightarrow>
                          if c' = 125 then Done (PDict (dict_set k v acc), r'')
                          else if c' = 44 then parse_pairs n d (dict_set k v acc) (skip_ws r'')
                          else Fail JSONDecodeError
                      | [] \<Rightarrow> Fail JSONDecodeError)))))"
  by pat_completeness auto
termination
  by (relation "measure (case_sum fst (case_sum fst fst))") auto

definition json_loads :: "nat \<Rightarrow> pystr \<Rightarrow> pyval res" where
  "json_loads limit s =
     (if take 1 s = [65279] then Inl JSONDecodeError
      else case parse_value (Suc (2 * length s)) limit (skip_ws s) of
        Done (v, r) \<Rightarrow> if skip_ws r = [] then Inr v else Inl JSONDecodeError
      | Fail e \<Rightarrow> Inl e
      | NoFuel \<Rightarrow> Inl OtherError)"

section \<open>The fuel is enough\<close>

lemma skip_ws_length: "length (skip_ws s) \<le> length s"
  by (simp add: skip_ws_def length_dropWhile_le)

lemma scan_word_length:
  assumes "scan_word s = Some (v, r)"
  shows "length r < length s"
proof -
  from assms obtain w ws where
    f: "filter (\<lambda>w. strip_prefix (fst w) s \<noteq> None) json_words = w # ws" and
    w: "strip_prefix (fst w) s = Some r"
    by (auto simp: scan_word_def split: list.splits)
  from f have "w \<in> set json_words"
    by (metis (no_types, lifting) filter_is_subset list.set_intros(1) subsetD)
  then have "fst w \<noteq> []" by (auto simp: json_words_def)
  with w show ?thesis
    by (cases s) (auto simp: strip_prefix_def split: if_splits)
qed

definition consumes :: "(pyval \<times> pystr) parse \<Rightarrow> pystr \<Rightarrow> bool" where
  "consumes p s \<longleftrightarrow> (case p of Done (v, r) \<Rightarrow> length r < length s | _ \<Rightarrow> True)"

lemma consumes_simps [simp]:
  "consumes (Done (v, r)) s \<longleftrightarrow> length r < length s"
  "consumes (Fail e) s" "consumes NoFuel s"
  by (simp_all add: consumes_def)

lemma consumes_mono: "consumes p s \<Longrightarrow> length s \<le> length t \<Longrightarrow> consumes p t"
  by (auto simp: consumes_def split: parse.splits)

lemma consumes_pbind:
  assumes "consumes p s" and "length s \<le> length t"
    and "\<And>v r. p = Done (v, r) \<Longrightarrow> length r < length t \<Longrightarrow> consumes (f (v, r)) t"
  shows "consumes (pbind p f) t"
  using assms by (cases p) auto

lemma parse_consumes:
  "consumes (parse_value n d s) s"
  "consumes (parse_items n d acc s) s"
  "consumes (parse_pairs n d dacc s) s"
proof (induction n d s and n d acc s and n d dacc s
    rule: parse_value_parse_items_parse_pairs.induct)
  case (2 n d s)
  show ?case
  proof (cases s)
    case (Cons c r)
    have "consumes (parse_pairs n (d - 1) [] (skip_ws r)) s" if "c = 123" "d \<noteq> 0"
      "take 1 (skip_ws r) \<noteq> [125]"
      using 2(1) [OF Cons] that Cons skip_ws_length [of r] by (auto elim: consumes_mono)
    moreover have "consumes (parse_items n (d - 1) [] (skip_ws r)) s" if "c = 91" "d \<noteq> 0"
      "take 1 (skip_ws r) \<noteq> [93]"
      using 2(2) [OF Cons] that Cons skip_ws_length [of r] by (auto elim: consumes_mono)
    moreover have "length (skip_ws r) - Suc 0 < length s"
      using Cons skip_ws_length [of r] by simp
    moreover have "consumes (scan_number s) s"
      by (auto simp: consumes_def dest: scan_number_length split: parse.splits)
    ultimately show ?thesis
      using Cons by (auto split: option.splits dest!: scan_word_length scan_string_length)
  qed simp
next
  case (4 n d acc s)
  show ?case
    unfolding parse_items.simps
  proof (rule consumes_pbind [OF 4(1) order_refl])
    fix v r
    assume p: "parse_value n d s = Done (v, r)" and r: "length r < length s"
    have "consumes (parse_items n d (v # acc) (skip_ws r')) s" if "skip_ws r = 44 # r'" for r'
      by (rule consumes_mono [OF 4(2) [OF that]])
        (use that r skip_ws_length [of r] skip_ws_length [of r'] in simp_all)
    moreover have "length r' < length s" if "skip_ws r = c # r'" for c r'
      using that r skip_ws_length [of r] by simp
    ultimately show "consumes (case (v, r) of (v, r) \<Rightarrow> (case skip_ws r of
        [] \<Rightarrow> Fail JSONDecodeError
      | c # r' \<Rightarrow> if c = 93 then Done (PList (rev (v # acc)), r')
          else if c = 44 then parse_items n d (v # acc) (skip_ws r') else Fail JSONDecodeError)) s"
      by (auto split: list.splits)
  qed
next
  case (6 n d acc s)
  show ?case
  proof (cases s)
    case (Cons q s')
    have "consumes (pbind (parse_value n d (skip_ws r')) (\<lambda>(v, r). case skip_ws r of
        [] \<Rightarrow> Fail JSONDecodeError
      | c' # r'' \<Rightarrow> if c' = 125 then Done (PDict (dict_set k v acc), r'')
          else if c' = 44 then parse_pairs n d (dict_set k v acc) (skip_ws r'')
          else Fail JSONDecodeError)) s"
      if q: "q = 34" "scan_string [] s' = Some (k, r)" "skip_ws r = 58 # r'" for k r r'
    proof -
      have r': "length (skip_ws r') < length s"
        using Cons q scan_string_length [OF q(2)] skip_ws_length [of r] skip_ws_length [of r'] by simp
      show ?thesis
      proof (rule consumes_pbind)
        show "consumes (parse_value n d (skip_ws r')) (skip_ws r')"
          using 6(1) [OF Cons _ q(2) refl q(3)] q(1) by simp
        show "length (skip_ws r') \<le> length s"
          using r' by simp
        fix v and r2 :: pystr
        assume "length r2 < length s"
        moreover have "consumes (parse_pairs n d (dict_set k v acc) (skip_ws r'')) s"
          if "skip_ws r2 = 44 # r''" for r''
          by (rule consumes_mono [OF 6(2) [OF Cons _ q(2) refl q(3) _ that]])
            (use q(1) that calculation skip_ws_length [of r2] skip_ws_length [of r''] in simp_all)
        moreover have "length r'' < length s" if "skip_ws r2 = c # r''" for c r''
          using that calculation skip_ws_length [of r2] by simp
        ultimately show "consumes (case (v, r2) of (v, r) \<Rightarrow> case skip_ws r of
            [] \<Rightarrow> Fail JSONDecodeError
          | c' # r'' \<Rightarrow> if c' = 125 then Done (PDict (dict_set k v acc), r'')
              else if c' = 44 then parse_pairs n d (dict_set k v acc) (skip_ws r'')
              else Fail JSONDecodeError) s"
          by (auto split: list.splits)
      qed
    qed
    with Cons show ?thesis by (auto split: option.splits list.splits)
  qed simp
qed simp_all

lemma pbind_fuel:
  "p \<noteq> NoFuel \<Longrightarrow> (\<And>x. p = Done x \<Longrightarrow> f x \<noteq> NoFuel) \<Longrightarrow> pbind p f \<noteq> NoFuel"
  by (cases p) auto

lemma parse_fuel:
  "2 * length s < n \<Longrightarrow> parse_value n d s \<noteq> NoFuel"
  "2 * length s + 1 < n \<Longrightarrow> parse_items n d acc s \<noteq> NoFuel"
  "2 * length s + 1 < n \<Longrightarrow> parse_pairs n d dacc s \<noteq> NoFuel"
proof (induction n d s and n d acc s and n d dacc s
    rule: parse_value_parse_items_parse_pairs.induct)
  case (2 n d s)
  show ?case
  proof (cases s)
    case (Cons c r)
    have "parse_pairs n (d - 1) [] (skip_ws r) \<noteq> NoFuel" if "c = 123" "d \<noteq> 0"
      "take 1 (skip_ws r) \<noteq> [125]"
      using 2(1) [OF Cons] that Cons 2(3) skip_ws_length [of r] by simp
    moreover have "parse_items n (d - 1) [] (skip_ws r) \<noteq> NoFuel" if "c = 91" "d \<noteq> 0"
      "take 1 (skip_ws r) \<noteq> [93]"
      using 2(2) [OF Cons] that Cons 2(3) skip_ws_length [of r] by simp
    ultimately show ?thesis
      using Cons scan_number_no_fuel [of s] by (auto split: option.splits)
  qed simp
next
  case (4 n d acc s)
  show ?case
    unfolding parse_items.simps
  proof (rule pbind_fuel)
    show "parse_value n d s \<noteq> NoFuel"
      using 4(1) 4(3) by simp
    fix x
    assume p: "parse_value n d s = Done x"
    obtain v r where x: "x = (v, r)" by (cases x)
    then have r: "length r < length s"
      using parse_consumes(1) [of n d s] p by simp
    have "parse_items n d (v # acc) (skip_ws r') \<noteq> NoFuel" if "skip_ws r = 44 # r'" for r'
      by (rule 4(2) [OF that])
        (use that r 4(3) skip_ws_length [of r] skip_ws_length [of r'] in simp_all)
    then show "(case x of (v, r) \<Rightarrow> case skip_ws r of
        [] \<Rightarrow> Fail JSONDecodeError
      | c # r' \<Rightarrow> if c = 93 then Done (PList (rev (v # acc)), r')
          else if c = 44 then parse_items n d (v # acc) (skip_ws r') else Fail JSONDecodeError) \<noteq> NoFuel"
      using x by (auto split: list.splits)
  qed
next
  case (6 n d acc s)
  show ?case
  proof (cases s)
    case (Cons q s')
    have "pbind (parse_value n d (skip_ws r')) (\<lambda>(v, r). case skip_ws r of
        [] \<Rightarrow> Fail JSONDecodeError
      | c' # r'' \<Rightarrow> if c' = 125 then Done (PDict (dict_set k v acc), r'')
          else if c' = 44 then parse_pairs n d (dict_set k v acc) (skip_ws r'')
          else Fail JSONDecodeError) \<noteq> NoFuel"
      if q: "q = 34" "scan_string [] s' = Some (k, r)" "skip_ws r = 58 # r'" for k r r'
    proof (rule pbind_fuel)
      have r': "length (skip_ws r') + 2 < length s"
        using Cons q scan_string_length [OF q(2)] skip_ws_length [of r] skip_ws_length [of r'] by simp
      show "parse_value n d (skip_ws r') \<noteq> NoFuel"
        by (rule 6(1) [OF Cons _ q(2) refl q(3)]) (use q r' 6(3) in simp_all)
      fix x
      assume p: "parse_value n d (skip_ws r') = Done x"
      obtain v r2 where x: "x = (v, r2)" by (cases x)
      then have r2: "length r2 + 2 < length s"
        using parse_consumes(1) [of n d "skip_ws r'"] p r' by simp
      have "parse_pairs n d (dict_set k v acc) (skip_ws r'') \<noteq> NoFuel"
        if "skip_ws r2 = 44 # r''" for r''
        by (rule 6(2) [OF Cons _ q(2) refl q(3) _ that])
          (use that q r2 6(3) skip_ws_length [of r2] skip_ws_length [of r''] in simp_all)
      then show "(case x of (v, r) \<Rightarrow> case skip_ws r of
          [] \<Rightarrow> Fail JSONDecodeError
        | c' # r'' \<Rightarrow> if c' = 125 then Done (PDict (dict_set k v acc), r'')
            else if c' = 44 then parse_pairs n d (dict_set k v acc) (skip_ws r'')
            else Fail JSONDecodeError) \<noteq> NoFuel"
        using x by (auto split: list.splits)
    qed
    with Cons show ?thesis by (auto split: option.splits list.splits)
  qed simp
qed simp_all

lemma json_loads_fuel: "parse_value (Suc (2 * length s)) limit (skip_ws s) \<noteq> NoFuel"
  using skip_ws_length [of s] by (intro parse_fuel) simp

section \<open>What parsing can raise\<close>

definition json_error :: "py_error \<Rightarrow> bool" where
  "json_error e \<longleftrightarrow> e \<in> {JSONDecodeError, ValueError, RecursionError}"

lemma json_error_simps [simp]:
  "json_error JSONDecodeError" "json_error ValueError" "json_error RecursionError"
  by (simp_all add: json_error_def)

lemma pbind_Fail: "pbind p f = Fail e \<longleftrightarrow> p = Fail e \<or> (\<exists>x. p = Done x \<and> f x = Fail e)"
  by (cases p) auto

lemma scan_number_error: "scan_number s = Fail e \<Longrightarrow> json_error e"
  by (auto simp: scan_number_def split: option.splits prod.splits sum.splits if_splits
      dest: int_of_str_errors float_of_str_errors)

lemma parse_error:
  "parse_value n d s = Fail e \<Longrightarrow> json_error e"
  "parse_items n d acc s = Fail e \<Longrightarrow> json_error e"
  "parse_pairs n d dacc s = Fail e \<Longrightarrow> json_error e"
proof (induction n d s and n d acc s and n d dacc s
    rule: parse_value_parse_items_parse_pairs.induct)
  case (2 n d s)
  then show ?case
    by (auto dest: scan_number_error split: list.splits if_splits option.splits)
next
  case (4 n d acc s)
  show ?case
  proof (cases "parse_value n d s")
    case (Done vr)
    obtain v r where vr: "vr = (v, r)" by (cases vr)
    show ?thesis
    proof (cases "skip_ws r")
      case Nil
      with "4.prems" Done vr show ?thesis by simp
    next
      case (Cons c r')
      with "4.prems" Done vr 4(2) [of r c r' v] show ?thesis by (auto split: if_splits)
    qed
  qed (use "4.prems" 4(1) in simp_all)
next
  case (6 n d acc s)
  from "6.prems" consider "e = JSONDecodeError"
    | s' k r r' where "s = 34 # s'" "scan_string [] s' = Some (k, r)" "skip_ws r = 58 # r'"
        "pbind (parse_value n d (skip_ws r')) (\<lambda>(v, r). case skip_ws r of
            [] \<Rightarrow> Fail JSONDecodeError
          | c' # r'' \<Rightarrow> if c' = 125 then Done (PDict (dict_set k v acc), r'')
              else if c' = 44 then parse_pairs n d (dict_set k v acc) (skip_ws r'')
              else Fail JSONDecodeError) = Fail e"
    by (auto split: list.splits if_splits option.splits)
  then show ?case
  proof cases
    case 2
    show ?thesis
    proof (cases "parse_value n d (skip_ws r')")
      case (Done vr)
      obtain v r2 where vr: "vr = (v, r2)" by (cases vr)
      show ?thesis
      proof (cases "skip_ws r2")
        case Nil
        with 2 Done vr show ?thesis by simp
      next
        case (Cons c r3)
        with 2 Done vr 6(2) [OF 2(1) _ 2(2) refl 2(3) _ Cons] show ?thesis
          by (auto split: if_splits)
      qed
    qed (use 2 6(1) in simp_all)
  qed simp
qed simp_all

lemma json_loads_errors: "json_loads limit s = Inl e \<Longrightarrow> e \<in> {JSONDecodeError, ValueError, RecursionError}"
  using json_loads_fuel [of s limit]
  by (auto simp: json_loads_def json_error_def simp del: parse_value.simps dest!: parse_error(1)
      split: if_splits parse.splits)

end
