(* ===== verification/World.thy ===== *)
theory World
  imports Brake Json_Decode
begin

text \<open>
  What the receivers take from outside: the clocks, the HTTP client and the signature library,
  all of them arguments of the definitions that use them, and the arithmetic on clock readings
  the two runtimes share.
\<close>

section \<open>Libraries and exchanges\<close>

text \<open>
  Third-party and platform behaviour: PyNaCl's \<open>VerifyKey\<close> constructor and \<open>verify\<close>, the
  code points the interpreter's Unicode data calls printable, and the recursion allowance.
\<close>

record 'k lib =
  printable :: "nat \<Rightarrow> bool"
  rec_limit :: nat
  new_key :: "bytes \<Rightarrow> 'k res"
  verify_sig :: "'k \<Rightarrow> bytes \<Rightarrow> bytes \<Rightarrow> unit res"

text \<open>An HTTP exchange: an exception of the client, or a response whose body is read later.\<close>

record response =
  status_code :: int
  body_json :: "pyval res"
  body_text :: "pystr res"

type_synonym exchange = "response res"

record http_request =
  req_url :: pystr
  req_auth :: pystr
  req_timeout :: int

text \<open>\<open>int(time.time() * 1000)\<close>\<close>

definition millis :: "pyfloat \<Rightarrow> int res" where
  "millis t = flt_to_int (flt_mul t (flt_small 1000))"

section \<open>Clock arithmetic\<close>

text \<open>\<open>(time.monotonic() - last_valid_cmd_time) * 1000\<close>\<close>

definition elapsed_ms :: "pyfloat \<Rightarrow> pyfloat \<Rightarrow> pyfloat" where
  "elapsed_ms now since = flt_mul (flt_sub now since) (flt_small 1000)"

text \<open>The reason text is built before the brake is called, so \<open>int(elapsed_ms)\<close> can raise first.\<close>

definition watchdog_reason :: "pyfloat \<Rightarrow> pystr res" where
  "watchdog_reason elapsed =
     rbind (flt_to_int elapsed) (\<lambda>n. rbind (str_of_int n)
       (\<lambda>s. Inr (u ''no valid command for '' @ s @ u ''ms'')))"

text \<open>\<open>int(count * 0.99)\<close>\<close>

definition p99_index :: "nat \<Rightarrow> int res" where
  "p99_index n =
     rbind (flt_of_int (int n)) (\<lambda>x. flt_to_int (flt_mul x (flt_of_decimal False 99 (-2))))"

section \<open>Shared by the receivers\<close>

definition int_field :: "pyval \<Rightarrow> string \<Rightarrow> int res" where
  "int_field v k = rbind (py_getitem v (u k)) py_int"

text \<open>The body of a telemetry post.\<close>

record telemetry =
  tel_vehicle :: pystr
  p50 :: pyval
  p99 :: pyval
  tel_lost :: int

end
