(* ===== verification/Session_Receiver.thy ===== *)
theory Session_Receiver
  imports World
begin

text \<open>
  \<open>control_session_receiver.py\<close>: the verifier of packets of the active control session and
  the refresh of that session. Clock readings, HTTP outcomes and the cryptographic library
  are arguments. A method returns the new object and either its value or the exception it
  raises; the state changes made before an exception are kept, as Python keeps them.
\<close>

section \<open>The verifier\<close>

record active_session =
  session_id :: pyval
  sess_vehicle :: pyval
  operator_id :: pyval
  public_key_b64 :: pyval
  sess_status :: pyval
  expires_at_ms :: int

record 'k verifier =
  gateway_url :: pystr
  vehicle_id :: pystr
  auth_token :: pystr
  max_age_ms :: int
  max_future_skew_ms :: int
  session :: "active_session option"
  verify_key :: "'k option"
  last_sequence :: int
  last_valid_cmd_time :: pyfloat

definition new_verifier ::
  "pystr \<Rightarrow> pystr \<Rightarrow> pystr \<Rightarrow> int \<Rightarrow> int \<Rightarrow> pyfloat \<Rightarrow> 'k verifier" where
  "new_verifier url vid token age skew now =
     \<lparr>gateway_url = rstrip 47 url, vehicle_id = vid, auth_token = token,
      max_age_ms = age, max_future_skew_ms = skew, session = None, verify_key = None,
      last_sequence = 0, last_valid_cmd_time = now\<rparr>"

definition clear_session :: "'k verifier \<Rightarrow> 'k verifier" where
  "clear_session v = v\<lparr>session := None, verify_key := None, last_sequence := 0\<rparr>"

subsection \<open>Refreshing the session\<close>

text \<open>
  \<open>refresh_session\<close> suspends at the HTTP request, so it is two steps: \<open>refresh_begin\<close> saves
  the old session id and sequence in local variables, clears the session and issues the
  request; \<open>refresh_finish\<close> runs when the response is there. Other tasks run in between.
\<close>

record refresh_locals =
  previous_session_id :: pyval
  previous_sequence :: int

definition refresh_begin :: "'k verifier \<Rightarrow> 'k verifier \<times> refresh_locals \<times> http_request" where
  "refresh_begin v =
     (clear_session v,
      \<lparr>previous_session_id = (case session v of None \<Rightarrow> PNone | Some s \<Rightarrow> session_id s),
       previous_sequence = last_sequence v\<rparr>,
      \<lparr>req_url = gateway_url v @ u ''/api/vehicles/'' @ vehicle_id v @ u ''/control'',
       req_auth = u ''Bearer '' @ auth_token v, req_timeout = 2\<rparr>)"

definition parse_session :: "pyval \<Rightarrow> active_session res" where
  "parse_session payload =
     rbind (py_getitem payload (u ''session'')) (\<lambda>data.
     rbind (py_getitem data (u ''session_id'')) (\<lambda>sid.
     rbind (py_getitem data (u ''vehicle_id'')) (\<lambda>vid.
     rbind (py_getitem data (u ''operator_id'')) (\<lambda>oid.
     rbind (py_getitem data (u ''public_key_b64'')) (\<lambda>pk.
     rbind (py_getitem data (u ''status'')) (\<lambda>st.
     rbind (py_getitem data (u ''expires_at_ms'')) (\<lambda>ex.
     rbind (py_int ex) (\<lambda>exp.
     Inr \<lparr>session_id = sid, sess_vehicle = vid, operator_id = oid, public_key_b64 = pk,
          sess_status = st, expires_at_ms = exp\<rparr>))))))))"

definition load_key :: "'k lib \<Rightarrow> pyval \<Rightarrow> 'k res" where
  "load_key x pk =
     (case rbind (b64decode True pk) (new_key x) of
        Inl e \<Rightarrow> if is_ValueError e \<or> e = TypeError
                 then Inl (RuntimeError ''invalid session public key'') else Inl e
      | Inr k \<Rightarrow> Inr k)"

definition refresh_finish ::
  "'k lib \<Rightarrow> refresh_locals \<Rightarrow> exchange \<Rightarrow> 'k verifier \<Rightarrow> 'k verifier \<times> unit res" where
  "refresh_finish x loc ex v =
     (case ex of
        Inl e \<Rightarrow> (v, Inl e)
      | Inr r \<Rightarrow>
          if status_code r = 404 then (v, Inr ())
          else if status_code r \<noteq> 200 then
            (v, rbind (body_text r) (\<lambda>_. Inl (RuntimeError ''control session refresh failed'')))
          else
            (case rbind (body_json r) parse_session of
               Inl e \<Rightarrow> (v, Inl e)
             | Inr s \<Rightarrow>
                 if \<not> eq_str (sess_vehicle s) (vehicle_id v) \<or> \<not> eq_str (sess_status s) (u ''ACTIVE'')
                 then (v, Inl (RuntimeError ''invalid active control session''))
                 else
                   (case load_key x (public_key_b64 s) of
                      Inl e \<Rightarrow> (v, Inl e)
                    | Inr k \<Rightarrow>
                        let v' = v\<lparr>session := Some s, verify_key := Some k\<rparr>
                        in (if py_eq (session_id s) (previous_session_id loc)
                            then v'\<lparr>last_sequence := previous_sequence loc\<rparr> else v', Inr ()))))"

definition refresh_session :: "'k lib \<Rightarrow> exchange \<Rightarrow> 'k verifier \<Rightarrow> 'k verifier \<times> unit res" where
  \<comment> \<open>with no other task in between\<close>
  "refresh_session x ex v =
     (case refresh_begin v of (v', loc, _) \<Rightarrow> refresh_finish x loc ex v')"

subsection \<open>Verifying a packet\<close>

definition REQUIRED :: "pystr list" where
  "REQUIRED = [u ''version'', u ''type'', u ''session_id'', u ''sequence'', u ''timestamp_ms'',
     u ''command'', u ''signature'']"

text \<open>The ways the body of the \<open>try\<close> ends without an exception.\<close>

datatype verdict = Dropped | Expired | Passed pyval

definition check_signature :: "'k lib \<Rightarrow> 'k \<Rightarrow> pyval \<Rightarrow> unit res" where
  "check_signature x key packet =
     rbind (build_sign_message (printable x) packet) (\<lambda>msg.
     rbind (utf8_encode msg) (\<lambda>m.
     rbind (py_getitem packet (u ''signature'')) (\<lambda>sg.
     rbind (b64decode True sg) (\<lambda>signature.
     verify_sig x key m signature))))"

definition verify_header :: "pyval \<Rightarrow> bool res" where
  \<comment> \<open>the fields are there, the version and the type are right\<close>
  "verify_header packet =
     rbind (py_issubset REQUIRED packet) (\<lambda>has.
     if \<not> has then Inr False else
     rbind (py_getitem packet (u ''version'')) (\<lambda>version.
     if \<not> eq_int version PROTOCOL_VERSION then Inr False else
     rbind (py_getitem packet (u ''type'')) (\<lambda>type.
     Inr (eq_str type CONTROL_TYPE))))"

definition verify_sender :: "(nat \<Rightarrow> bool) \<Rightarrow> active_session \<Rightarrow> pyval \<Rightarrow> pystr \<Rightarrow> bool res" where
  "verify_sender pr s packet sender =
     rbind (py_getitem packet (u ''session_id'')) (\<lambda>sid.
     if \<not> py_eq sid (session_id s) then Inr False else
     rbind (py_str pr (operator_id s)) (\<lambda>op.
     Inr (sender = u ''operator-'' @ op)))"

definition verify_body ::
  "'k lib \<Rightarrow> 'k verifier \<Rightarrow> active_session \<Rightarrow> 'k \<Rightarrow> pystr \<Rightarrow> pystr \<Rightarrow> pyfloat \<Rightarrow> verdict res" where
  "verify_body x v s key raw sender wall =
     rbind (json_loads (rec_limit x) raw) (\<lambda>packet.
     rbind (verify_header packet) (\<lambda>ok.
     if \<not> ok then Inr Dropped else
     rbind (verify_sender (printable x) s packet sender) (\<lambda>ok.
     if \<not> ok then Inr Dropped else
     rbind (millis wall) (\<lambda>now_ms.
     if expires_at_ms s < now_ms then Inr Expired else
     rbind (int_field packet ''timestamp_ms'') (\<lambda>ts.
     if max_age_ms v < now_ms - ts \<or> max_future_skew_ms v < ts - now_ms then Inr Dropped else
     rbind (int_field packet ''sequence'') (\<lambda>sq.
     if sq \<le> last_sequence v then Inr Dropped else
     rbind (py_getitem packet (u ''command'')) (\<lambda>command.
     rbind (valid_command command) (\<lambda>valid.
     if \<not> valid then Inr Dropped else
     rbind (check_signature x key packet) (\<lambda>_.
     Inr (Passed packet))))))))))"

definition verify_caught :: "py_error \<Rightarrow> bool" where
  "verify_caught e \<longleftrightarrow> e = KeyError \<or> e = TypeError \<or> is_ValueError e \<or> e = BadSignatureError"

definition verify_packet ::
  "'k lib \<Rightarrow> pystr \<Rightarrow> pystr \<Rightarrow> pyfloat \<Rightarrow> pyfloat \<Rightarrow> 'k verifier
    \<Rightarrow> 'k verifier \<times> pyval option res" where
  "verify_packet x raw sender wall now v =
     (case (session v, verify_key v) of
        (Some s, Some key) \<Rightarrow>
          (case verify_body x v s key raw sender wall of
             Inl e \<Rightarrow> (v, if verify_caught e then Inr None else Inl e)
           | Inr Dropped \<Rightarrow> (v, Inr None)
           | Inr Expired \<Rightarrow> (clear_session v, Inr None)
           | Inr (Passed packet) \<Rightarrow>
               (case int_field packet ''sequence'' of
                  Inl e \<Rightarrow> (v, Inl e)
                | Inr sq \<Rightarrow> (v\<lparr>last_sequence := sq, last_valid_cmd_time := now\<rparr>, Inr (Some packet))))
      | _ \<Rightarrow> (v, Inr None))"

end
