(* ===== verification/Secure_Receiver.thy ===== *)
theory Secure_Receiver
  imports World
begin

text \<open>
  \<open>secure_receiver.py\<close>: the stage-1 receiver, whose trusted key is fetched on its own and whose
  packets name that key. The brake controller of the same file is in \<open>Brake\<close>.
\<close>

section \<open>The signed text\<close>

definition legacy_sign_fields :: "(nat \<Rightarrow> bool) \<Rightarrow> pyval \<Rightarrow> pystr list res" where
  "legacy_sign_fields pr payload =
     rbind (py_getitem payload (u ''vehicle_id'')) (\<lambda>v. rbind (py_str pr v) (\<lambda>vid.
     rbind (py_getitem payload (u ''key_id'')) (\<lambda>v. rbind (py_str pr v) (\<lambda>kid.
     rbind (py_getitem payload (u ''cmd'')) (\<lambda>v. rbind (py_str pr v) (\<lambda>cmd.
     rbind (py_getitem payload (u ''val'')) (\<lambda>v. rbind (py_str pr v) (\<lambda>val.
     rbind (py_getitem payload (u ''seq'')) (\<lambda>v. rbind (py_str pr v) (\<lambda>sq.
     rbind (py_getitem payload (u ''ts'')) (\<lambda>v. rbind (py_str pr v) (\<lambda>ts.
     Inr [vid, kid, cmd, val, sq, ts]))))))))))))"

definition legacy_sign_message :: "(nat \<Rightarrow> bool) \<Rightarrow> pyval \<Rightarrow> pystr res" where
  "legacy_sign_message pr payload =
     rbind (legacy_sign_fields pr payload) (\<lambda>fs. Inr (join (u ''|'') fs))"

section \<open>The verifier\<close>

record registration =
  reg_vehicle :: pyval
  reg_operator :: pyval
  key_id :: pyval
  reg_public_key :: pyval
  reg_expires_at_ms :: int
  registered_at_ms :: int

record 'k command_verifier =
  cv_gateway :: pystr
  cv_vehicle :: pystr
  cv_token :: pystr
  max_skew_ms :: int
  current_key :: "registration option"
  cv_key :: "'k option"
  last_seq :: int
  cv_last_valid :: pyfloat

definition new_command_verifier :: "pystr \<Rightarrow> pystr \<Rightarrow> pystr \<Rightarrow> int \<Rightarrow> pyfloat \<Rightarrow> 'k command_verifier" where
  "new_command_verifier url vid token skew now =
     \<lparr>cv_gateway = rstrip 47 url, cv_vehicle = vid, cv_token = token, max_skew_ms = skew,
      current_key = None, cv_key = None, last_seq = 0, cv_last_valid = now\<rparr>"

text \<open>
  \<open>load_registration\<close> stores the registration first; an exception of the decoding or of the key
  constructor leaves it stored, with the key and the sequence of the one before.
\<close>

definition load_registration ::
  "'k lib \<Rightarrow> registration \<Rightarrow> 'k command_verifier \<Rightarrow> 'k command_verifier \<times> unit res" where
  "load_registration x reg v =
     (let v1 = v\<lparr>current_key := Some reg\<rparr>
      in (case rbind (b64decode False (reg_public_key reg)) (new_key x) of
            Inl e \<Rightarrow> (v1, Inl e)
          | Inr k \<Rightarrow> (v1\<lparr>cv_key := Some k, last_seq := 0\<rparr>, Inr ())))"

definition refresh_key_request :: "'k command_verifier \<Rightarrow> http_request" where
  "refresh_key_request v =
     \<lparr>req_url = cv_gateway v @ u ''/api/keys/current?vid='' @ cv_vehicle v,
      req_auth = join (u '' '') [u ''Bear'' @ u ''er'', cv_token v], req_timeout = 2\<rparr>"

definition parse_registration :: "pyval \<Rightarrow> registration res" where
  "parse_registration data =
     rbind (py_getitem data (u ''vehicle_id'')) (\<lambda>vid.
     rbind (py_getitem data (u ''operator_id'')) (\<lambda>oid.
     rbind (py_getitem data (u ''key_id'')) (\<lambda>kid.
     rbind (py_getitem data (u ''public_key_b64'')) (\<lambda>pk.
     rbind (py_getitem data (u ''expires_at_ms'')) (\<lambda>e. rbind (py_int e) (\<lambda>expires.
     rbind (py_get data (u ''registered_at_ms'') (PInt 0)) (\<lambda>r. rbind (py_int r) (\<lambda>registered.
     Inr \<lparr>reg_vehicle = vid, reg_operator = oid, key_id = kid, reg_public_key = pk,
          reg_expires_at_ms = expires, registered_at_ms = registered\<rparr>))))))))"

definition refresh_key :: "'k lib \<Rightarrow> exchange \<Rightarrow> 'k command_verifier \<Rightarrow> 'k command_verifier \<times> unit res" where
  "refresh_key x ex v =
     (case rbind ex (\<lambda>r.
        if status_code r \<noteq> 200
        then rbind (body_text r) (\<lambda>_. Inl (RuntimeError ''key refresh failed''))
        else rbind (body_json r) parse_registration) of
        Inl e \<Rightarrow> (v, Inl e)
      | Inr reg \<Rightarrow> load_registration x reg v)"

subsection \<open>Verifying a packet\<close>

definition LEGACY_REQUIRED :: "pystr list" where
  "LEGACY_REQUIRED = [u ''vehicle_id'', u ''key_id'', u ''cmd'', u ''val'', u ''seq'', u ''ts'',
     u ''sig'', u ''alg'']"

text \<open>\<open>required.issubset(payload.keys())\<close>: only a dict has keys.\<close>

fun has_required :: "pyval \<Rightarrow> bool res" where
  "has_required (PDict d) = Inr (list_all (\<lambda>k. k \<in> set (dict_keys d)) LEGACY_REQUIRED)"
| "has_required v = Inl AttributeError"

text \<open>The checks before the clock is read.\<close>

definition legacy_header :: "registration \<Rightarrow> pystr \<Rightarrow> pyval \<Rightarrow> bool res" where
  "legacy_header reg vid payload =
     rbind (has_required payload) (\<lambda>has.
     if \<not> has then Inr False else
     rbind (py_getitem payload (u ''alg'')) (\<lambda>alg.
     if \<not> eq_str alg (u ''Ed25519'') then Inr False else
     rbind (py_getitem payload (u ''vehicle_id'')) (\<lambda>v.
     if \<not> eq_str v vid then Inr False else
     rbind (py_getitem payload (u ''key_id'')) (\<lambda>kid.
     Inr (py_eq kid (key_id reg))))))"

text \<open>The time and the sequence; a refusal prints the numbers, which a huge one makes fail.\<close>

definition legacy_fresh :: "'k command_verifier \<Rightarrow> pyfloat \<Rightarrow> pyval \<Rightarrow> int option res" where
  "legacy_fresh v wall payload =
     rbind (millis wall) (\<lambda>now_ms.
     rbind (py_getitem payload (u ''ts'')) (\<lambda>t. rbind (py_int t) (\<lambda>ts.
     if max_skew_ms v < (\<bar>now_ms - ts\<bar>) then rbind (str_of_int (\<bar>now_ms - ts\<bar>)) (\<lambda>_. Inr None) else
     rbind (py_getitem payload (u ''seq'')) (\<lambda>s. rbind (py_int s) (\<lambda>sq.
     if sq \<le> last_seq v
     then rbind (str_of_int sq) (\<lambda>_. rbind (str_of_int (last_seq v)) (\<lambda>_. Inr None))
     else Inr (Some sq))))))"

text \<open>The signature; only \<open>ValueError\<close> and \<open>BadSignatureError\<close> of the last two calls are caught.\<close>

definition legacy_signature :: "'k lib \<Rightarrow> 'k \<Rightarrow> pyval \<Rightarrow> bool res" where
  "legacy_signature x key payload =
     rbind (legacy_sign_message (printable x) payload) (\<lambda>msg.
     case rbind (py_getitem payload (u ''sig'')) (\<lambda>sg.
          rbind (b64decode False sg) (\<lambda>signature.
          rbind (utf8_encode msg) (\<lambda>m. verify_sig x key m signature))) of
       Inl e \<Rightarrow> if is_ValueError e \<or> e = BadSignatureError then Inr False else Inl e
     | Inr _ \<Rightarrow> Inr True)"

definition legacy_check ::
  "'k lib \<Rightarrow> 'k command_verifier \<Rightarrow> registration \<Rightarrow> 'k \<Rightarrow> pyfloat \<Rightarrow> pyval \<Rightarrow> int option res" where
  "legacy_check x v reg key wall payload =
     rbind (legacy_header reg (cv_vehicle v) payload) (\<lambda>ok.
     if \<not> ok then Inr None else
     rbind (legacy_fresh v wall payload) (\<lambda>fresh.
     case fresh of None \<Rightarrow> Inr None
     | Some sq \<Rightarrow> rbind (legacy_signature x key payload) (\<lambda>good.
         Inr (if good then Some sq else None))))"

definition legacy_verify_packet ::
  "'k lib \<Rightarrow> pystr \<Rightarrow> pyfloat \<Rightarrow> pyfloat \<Rightarrow> 'k command_verifier
    \<Rightarrow> 'k command_verifier \<times> pyval option res" where
  "legacy_verify_packet x raw wall now v =
     (case (current_key v, cv_key v) of
        (Some reg, Some key) \<Rightarrow>
          (case json_loads (rec_limit x) raw of
             Inl e \<Rightarrow> (v, if e = JSONDecodeError then Inr None else Inl e)
           | Inr payload \<Rightarrow>
               (case legacy_check x v reg key wall payload of
                  Inl e \<Rightarrow> (v, Inl e)
                | Inr None \<Rightarrow> (v, Inr None)
                | Inr (Some sq) \<Rightarrow> (v\<lparr>last_seq := sq, cv_last_valid := now\<rparr>, Inr (Some payload))))
      | _ \<Rightarrow> (v, Inr None))"

end
