(* ===== verification/Samples.thy ===== *)
theory Samples
  imports Session_Receiver Secure_Receiver
begin

text \<open>
  Concrete inputs on which the properties are exercised: a library whose keys sign with their
  own bytes, a session of operator \<open>a\<close>, packets of that session as JSON text, and the values
  the definitions compute on them.
\<close>

definition sample_verify :: "bytes \<Rightarrow> bytes \<Rightarrow> bytes \<Rightarrow> unit res" where
  "sample_verify key m signature = (if signature = key then Inr () else Inl BadSignatureError)"

definition sample_lib :: "bytes lib" where
  "sample_lib = \<lparr>printable = (\<lambda>c. 32 \<le> c \<and> c < 127), rec_limit = 1000, new_key = Inr,
                verify_sig = sample_verify\<rparr>"

definition sample_session :: active_session where
  "sample_session =
     \<lparr>session_id = PStr (u ''s1''), sess_vehicle = PStr (u ''car-001''), operator_id = PStr (u ''a''),
      public_key_b64 = PStr (u ''AAAA''), sess_status = PStr (u ''ACTIVE''), expires_at_ms = 5000\<rparr>"

definition sample_verifier :: "bytes verifier" where
  "sample_verifier =
     \<lparr>gateway_url = u ''http://gw'', vehicle_id = u ''car-001'', auth_token = u ''t'', max_age_ms = 100,
      max_future_skew_ms = 100, session = Some sample_session, verify_key = Some [0, 0, 0],
      last_sequence = 0, last_valid_cmd_time = f0\<rparr>"

definition sample_raw :: pystr where
  "sample_raw = u ''{\"version\":1,\"type\":\"control\",\"session_id\":\"s1\",\"sequence\":1,\"timestamp_ms\":1000,\"command\":{\"mode\":\"high_level\",\"action\":\"forward\"},\"signature\":\"AAAA\"}''"

definition sample_command :: pyval where
  "sample_command = PDict [(u ''mode'', PStr (u ''high_level'')), (u ''action'', PStr (u ''forward''))]"

definition sample_packet :: pyval where
  "sample_packet =
     PDict [(u ''version'', PInt 1), (u ''type'', PStr (u ''control'')), (u ''session_id'', PStr (u ''s1'')),
            (u ''sequence'', PInt 1), (u ''timestamp_ms'', PInt 1000), (u ''command'', sample_command),
            (u ''signature'', PStr (u ''AAAA''))]"

lemmas sample_defs = sample_lib_def sample_session_def sample_verifier_def sample_command_def
  sample_packet_def protocol_constants

lemmas parse_numeral =
  parse_value.simps(2) [of "pred_numeral k" for k, folded numeral_eq_Suc]
  parse_items.simps(2) [of "pred_numeral k" for k, folded numeral_eq_Suc]
  parse_pairs.simps(2) [of "pred_numeral k" for k, folded numeral_eq_Suc]

lemmas json_eval = json_loads_def skip_ws_def json_ws_def scan_string.simps scan_word_def json_words_def
  strip_prefix_def scan_number_def scan_int_def scan_frac_def scan_exp_def is_digit_def digits_val_def
  max_str_digits_def parse_numeral int_of_str_def number_text_def strip_def ascii_form_def ascii_space_def
  split_sign_def

lemma sample_loads: "json_loads 1000 sample_raw = Inr sample_packet"
  by (simp add: sample_raw_def sample_packet_def sample_command_def u_def json_eval)

lemmas float_eval = flt_small_def flt_of_decimal_def round_ratio_def floor_log2_def scale2_def
  round_half_even_def bit_length.simps fin_num_def fin_den_def flt_sub_def round_signed_def

lemma sample_millis: "millis f1 = Inr 1000"
  by (simp add: millis_def float_eval)

lemma sample_message:
  "build_sign_message (printable sample_lib) sample_packet = Inr (u ''1|control|s1|1|1000|high_level|forward'')"
  by (simp add: build_sign_message_def sign_fields_def str_field_def command_fields_def mode_is_def
      sample_defs str_of_int_def int_str_def dec_digits.simps max_str_digits_def u_append [symmetric])
    (simp add: u_def)

lemma sample_signature: "check_signature sample_lib [0, 0, 0] sample_packet = Inr ()"
proof -
  have "utf8_encode (u ''1|control|s1|1|1000|high_level|forward'') = Inr (u ''1|control|s1|1|1000|high_level|forward'')"
    by (simp add: u_def utf8_char_def)
  moreover have "b64decode True (PStr (u ''AAAA'')) = Inr [0, 0, 0]"
    by (simp add: u_def ascii_encode_def a2b_base64_def b64_value_def)
  moreover have "py_getitem sample_packet (u ''signature'') = Inr (PStr (u ''AAAA''))"
    by (simp add: sample_packet_def)
  ultimately show ?thesis
    by (simp add: check_signature_def sample_message) (simp add: sample_lib_def sample_verify_def)
qed

lemma sample_valid: "valid_command sample_command = Inr True"
  by (simp add: sample_command_def mode_is_def keys_are_def HIGH_KEYS_def dict_keys_def in_actions_def
      protocol_constants)

lemma sample_accepted:
  "verify_packet sample_lib sample_raw (u ''operator-a'') f1 f1 sample_verifier =
     (sample_verifier\<lparr>last_sequence := 1, last_valid_cmd_time := f1\<rparr>, Inr (Some sample_packet))"
proof -
  have "verify_body sample_lib sample_verifier sample_session [0, 0, 0] sample_raw (u ''operator-a'') f1
    = Inr (Passed sample_packet)"
    using sample_loads sample_signature sample_valid sample_millis
    by (simp add: verify_body_def sample_lib_def verify_header_def REQUIRED_def dict_keys_def
        verify_sender_def sample_session_def sample_packet_def sample_verifier_def int_field_def
        protocol_constants u_append [symmetric])
  then show ?thesis
    by (simp add: verify_packet_def) (simp add: sample_verifier_def int_field_def sample_packet_def)
qed

end
