(* ===== verification/Control_Theorems.thy ===== *)
theory Control_Theorems
  imports Control_Protocol_Facts Samples
begin

text \<open>The properties of \<open>control_protocol.py\<close>.\<close>

text \<open>A value that \<open>float\<close> turns into a number between two bounds.\<close>

definition float_within :: "int \<Rightarrow> int \<Rightarrow> pyval \<Rightarrow> bool" where
  "float_within lo hi v \<longleftrightarrow>
     (\<exists>x. py_float v = Inr x \<and> is_finite x \<and> of_int lo \<le> rval x \<and> rval x \<le> of_int hi)"

text \<open>The three pedals and wheel of a command are in range.\<close>

definition controls_within :: "pyval dict \<Rightarrow> bool" where
  "controls_within d \<longleftrightarrow>
     (\<exists>v. map_of d (u ''steering'') = Some v \<and> float_within (-1) 1 v)
   \<and> (\<exists>v. map_of d (u ''throttle'') = Some v \<and> float_within 0 1 v)
   \<and> (\<exists>v. map_of d (u ''brake'') = Some v \<and> float_within 0 1 v)"

lemma bounds_iff:
  "int_le_flt a x \<and> flt_le_int x b \<longleftrightarrow> is_finite x \<and> of_int a \<le> rval x \<and> rval x \<le> of_int b"
  using bounded_finite [of a x b] cmp_int_rval [of x] by auto

lemma valid_ranges_iff:
  "valid_ranges (PDict d) dir = Inr True \<longleftrightarrow>
     controls_within d \<and> (\<exists>k. py_int dir = Inr k \<and> k \<in> {-1, 0, 1})"
proof -
  have "valid_ranges (PDict d) dir = Inr True \<longleftrightarrow>
    (\<exists>v1 v2 v3 s t b k. map_of d (u ''steering'') = Some v1 \<and> py_float v1 = Inr s
      \<and> map_of d (u ''throttle'') = Some v2 \<and> py_float v2 = Inr t
      \<and> map_of d (u ''brake'') = Some v3 \<and> py_float v3 = Inr b
      \<and> py_int dir = Inr k \<and> k \<in> {-1, 0, 1}
      \<and> (int_le_flt (-1) s \<and> flt_le_int s 1) \<and> (int_le_flt 0 t \<and> flt_le_int t 1)
      \<and> (int_le_flt 0 b \<and> flt_le_int b 1))"
    by (fastforce simp: valid_ranges_def rbind_iffs option_or_iffs split: sum.splits if_splits)
  then show ?thesis
    unfolding bounds_iff controls_within_def float_within_def by auto
qed

definition action_names :: "string set" where
  "action_names = {''forward'', ''reverse'', ''left'', ''right'', ''stop'', ''emergency_stop''}"

lemma action_text: "a \<in> set HIGH_LEVEL_ACTIONS \<longleftrightarrow> (\<exists>b. a = u b \<and> b \<in> action_names)"
proof -
  have "set HIGH_LEVEL_ACTIONS = u ` action_names"
    by (simp add: HIGH_LEVEL_ACTIONS_def action_names_def)
  then show ?thesis by auto
qed

lemma high_command_iff:
  "map_of d (u ''mode'') = Some (PStr HIGH_LEVEL_MODE) \<Longrightarrow>
     valid_command (PDict d) = Inr True \<longleftrightarrow>
       dom (map_of d) = set HIGH_KEYS
     \<and> (\<exists>a. map_of d (u ''action'') = Some (PStr a) \<and> a \<in> set HIGH_LEVEL_ACTIONS)"
  by (auto simp: mode_is_dict keys_are_iff in_actions_def list_ex_iff eq_str_iff option_or_iffs rbind_iffs
      split: if_splits)

text \<open>The three kinds of object are accepted.\<close>

lemma valid_high:
  assumes "dom (map_of d) = {u ''mode'', u ''action''}" "map_of d (u ''mode'') = Some (PStr (u ''high_level''))"
    and "map_of d (u ''action'') = Some (PStr (u a))" "a \<in> action_names"
  shows "valid_command (PDict d) = Inr True"
proof -
  have "map_of d (u ''mode'') = Some (PStr HIGH_LEVEL_MODE)" "u a \<in> set HIGH_LEVEL_ACTIONS"
    using assms unfolding HIGH_LEVEL_MODE_def action_text by blast+
  with assms(1,3) show ?thesis
    unfolding high_command_iff [OF \<open>map_of d (u ''mode'') = Some (PStr HIGH_LEVEL_MODE)\<close>]
    by (auto simp: HIGH_KEYS_def)
qed

lemma valid_low:
  assumes "dom (map_of d) = {u ''mode'', u ''steering'', u ''throttle'', u ''brake'', u ''direction''}"
    and "map_of d (u ''mode'') = Some (PStr (u ''low_level''))" "controls_within d"
    and "map_of d (u ''direction'') = Some dir" "py_int dir = Inr k" "k \<in> {-1, 0, 1}"
  shows "valid_command (PDict d) = Inr True"
proof -
  have "valid_ranges (PDict d) dir = Inr True" using assms by (auto simp: valid_ranges_iff)
  moreover have "keys_are d LOW_KEYS" using assms by (simp add: keys_are_iff LOW_KEYS_def)
  moreover have "u ''high_level'' \<noteq> u ''low_level''" by simp
  ultimately show ?thesis
    using assms(2,4) by (simp add: mode_is_dict protocol_constants)
qed

lemma valid_plain:
  assumes "dom (map_of d) = {u ''steering'', u ''throttle'', u ''brake''}" "controls_within d"
  shows "valid_command (PDict d) = Inr True"
proof -
  have "valid_ranges (PDict d) (PInt 1) = Inr True" using assms by (auto simp: valid_ranges_iff)
  moreover have "keys_are d PLAIN_KEYS" using assms by (simp add: keys_are_iff PLAIN_KEYS_def)
  moreover have "u ''mode'' \<notin> dom (map_of d)" unfolding assms(1) by simp
  then have "map_of d (u ''mode'') = None" by (simp only: domIff not_not)
  ultimately show ?thesis by (simp add: mode_is_dict)
qed

text \<open>
  C18: \<open>valid_command\<close> accepts exactly three kinds of object: a high-level one with one of the six
  actions, a low-level one with controls in range and a direction that \<open>int\<close> turns into -1, 0
  or 1, and one with just the three controls in range; none may have a further key.
\<close>

theorem valid_command_iff:
  "valid_command command = Inr True \<longleftrightarrow>
     (\<exists>d a. command = PDict d \<and> dom (map_of d) = {u ''mode'', u ''action''}
        \<and> map_of d (u ''mode'') = Some (PStr (u ''high_level'')) \<and> map_of d (u ''action'') = Some (PStr (u a))
        \<and> a \<in> action_names)
   \<or> (\<exists>d dir k. command = PDict d
        \<and> dom (map_of d) = {u ''mode'', u ''steering'', u ''throttle'', u ''brake'', u ''direction''}
        \<and> map_of d (u ''mode'') = Some (PStr (u ''low_level'')) \<and> controls_within d
        \<and> map_of d (u ''direction'') = Some dir \<and> py_int dir = Inr k \<and> k \<in> {-1, 0, 1})
   \<or> (\<exists>d. command = PDict d \<and> dom (map_of d) = {u ''steering'', u ''throttle'', u ''brake''}
        \<and> controls_within d)"
  (is "?valid \<longleftrightarrow> ?high \<or> ?low \<or> ?plain")
proof
  assume ?valid
  then show "?high \<or> ?low \<or> ?plain"
  proof (cases rule: valid_command_cases)
    case (high d a)
    then obtain b where "a = u b" "b \<in> action_names"
      by (auto simp only: action_text)
    moreover have "dom (map_of d) = {u ''mode'', u ''action''}"
      using high by (simp add: keys_are_iff HIGH_KEYS_def)
    ultimately have ?high
      using high unfolding HIGH_LEVEL_MODE_def by blast
    then show ?thesis ..
  next
    case (low d dir)
    then have ?low
      by (intro exI [of _ d] exI [of _ dir])
        (auto simp: keys_are_iff LOW_KEYS_def protocol_constants valid_ranges_iff)
    then show ?thesis by blast
  next
    case (plain d)
    then have ?plain
      by (intro exI [of _ d]) (auto simp: keys_are_iff PLAIN_KEYS_def valid_ranges_iff)
    then show ?thesis by blast
  qed
next
  assume "?high \<or> ?low \<or> ?plain"
  then show ?valid
    using valid_high valid_low valid_plain by (elim disjE exE conjE) (simp_all only: )
qed

text \<open>
  C8: A command that \<open>valid_command\<close> accepts is always resolved, without an exception, to finite
  actuator values: steering in [-1, 1], throttle and brake in [0, 1], and a direction less
  than 2 in size.
\<close>

theorem valid_command_resolves:
  assumes "valid_command command = Inr True"
  shows "\<exists>r. resolve_command command = Inr r
    \<and> is_finite (steering r) \<and> -1 \<le> rval (steering r) \<and> rval (steering r) \<le> 1
    \<and> is_finite (throttle r) \<and> 0 \<le> rval (throttle r) \<and> rval (throttle r) \<le> 1
    \<and> is_finite (brake r) \<and> 0 \<le> rval (brake r) \<and> rval (brake r) \<le> 1
    \<and> is_finite (direction r) \<and> \<bar>rval (direction r)\<bar> < 2"
  using resolve_valid [OF assms] unfolding in_range_def by auto

theorem valid_command_resolves_witness:
  "valid_command sample_command = Inr True
   \<and> (\<exists>r. resolve_command sample_command = Inr r \<and> 0 \<le> rval (throttle r) \<and> rval (throttle r) \<le> 1)"
  using valid_command_resolves [OF sample_valid] sample_valid by blast

lemma resolve_action_values:
  "(rval (throttle (resolve_action (PStr (u a)))), rval (brake (resolve_action (PStr (u a)))),
    rval (steering (resolve_action (PStr (u a)))), rval (direction (resolve_action (PStr (u a))))) =
      (if a = ''forward'' then (1, 0, 0, 1) else if a = ''reverse'' then (1, 0, 0, -1)
       else if a = ''left'' then (0, 0, -1, 1) else if a = ''right'' then (0, 0, 1, 1)
       else (0, 1, 0, 0))"
  by (simp add: resolve_action_def del: rval.simps)

text \<open>
  No valid high-level command drives and brakes at once: it opens the throttle fully with no
  brake for \<open>forward\<close> and \<open>reverse\<close> only, turns the wheel without throttle for \<open>left\<close> and
  \<open>right\<close> only, and applies the full brake with no throttle for the two stops only.
\<close>

lemma high_level_exclusive:
  assumes "valid_command command = Inr True" and "py_getitem command (u ''mode'') = Inr (PStr (u ''high_level''))"
  shows "\<exists>a r. py_getitem command (u ''action'') = Inr (PStr (u a)) \<and> resolve_command command = Inr r
    \<and> (rval (throttle r), rval (brake r), rval (steering r), rval (direction r)) =
        (if a = ''forward'' then (1, 0, 0, 1) else if a = ''reverse'' then (1, 0, 0, -1)
         else if a = ''left'' then (0, 0, -1, 1) else if a = ''right'' then (0, 0, 1, 1)
         else (0, 1, 0, 0))
    \<and> a \<in> action_names"
  using assms(1)
proof (cases rule: valid_command_cases)
  case (high d a)
  then obtain b where b: "a = u b"
    "b \<in> action_names"
    by (auto simp only: action_text)
  have "resolve_command command = Inr (resolve_action (PStr (u b)))"
    "py_getitem command (u ''action'') = Inr (PStr (u b))"
    using high b by (simp_all add: resolve_command_def mode_is_dict)
  with b(2) resolve_action_values [of b] show ?thesis by blast
next
  case (low d dir)
  with assms(2) show ?thesis by (simp add: protocol_constants)
next
  case (plain d)
  with assms(2) show ?thesis by simp
qed

lemma high_level_exclusive_witness:
  "valid_command sample_command = Inr True
   \<and> (\<exists>a r. py_getitem sample_command (u ''action'') = Inr (PStr (u a))
        \<and> resolve_command sample_command = Inr r)"
  using high_level_exclusive [OF sample_valid] sample_valid by (auto simp: sample_command_def)

text \<open>
  The direction of a low-level command is checked after \<open>int\<close> has cut its fraction off, but
  resolved with the fraction: a command that passes the check can resolve to a direction that is
  none of -1, 0 and 1.
\<close>

lemma low_level_direction_fraction:
  "\<exists>command r. valid_command command = Inr True \<and> resolve_command command = Inr r
     \<and> rval (direction r) = 3 / 2"
proof -
  let ?x = "Fin False 6755399441055744 (-52)"
  let ?c = "PDict [(u ''mode'', PStr (u ''low_level'')), (u ''steering'', PInt 0), (u ''throttle'', PInt 0),
    (u ''brake'', PInt 0), (u ''direction'', PFloat ?x)]"
  have zero: "flt_of_int 0 = Inr f0" by (simp add: flt_of_int_def small_constants)
  have "valid_command ?c = Inr True"
    by (simp add: mode_is_def keys_are_def LOW_KEYS_def dict_keys_def valid_ranges_def protocol_constants
        zero scale2_def fin_num_def fin_den_def)
  moreover have "resolve_command ?c =
      Inr \<lparr>steering = f0, throttle = f0, brake = f0, direction = ?x\<rparr>"
    by (simp add: resolve_command_def mode_is_def protocol_constants zero)
  moreover have "rval ?x = 3 / 2" by (simp add: power_int_def power_one_over)
  ultimately show ?thesis by (metis actuation.select_convs(4))
qed

end
