(* ===== verification/Session_Runtime.thy ===== *)
theory Session_Runtime
  imports Session_Receiver
begin

text \<open>
  \<open>SessionVehicleRuntime\<close> of \<open>control_session_receiver.py\<close>: the handler of a data packet,
  the watchdog, the audit queue and its sender, and the telemetry report. One call of a
  handler, or one round of a loop between two suspension points, is one function.
\<close>

record audit_event =
  event :: pystr
  reason :: pystr

record 'k runtime =
  verifier :: "'k verifier"
  brake_controller :: "actuation brake_state"
  running :: bool
  latencies :: "int list"
  lost_count :: int
  seen_sequence :: "int option"
  audit_events :: "audit_event list"
  last_audit_at :: "pyfloat dict"

definition new_runtime :: "'k verifier \<Rightarrow> actuation brake_state \<Rightarrow> 'k runtime" where
  "new_runtime v b =
     \<lparr>verifier = v, brake_controller = b, running = True, latencies = [], lost_count = 0,
      seen_sequence = None, audit_events = [], last_audit_at = []\<rparr>"

section \<open>Audit queue\<close>

definition queue_audit_event :: "pystr \<Rightarrow> pystr \<Rightarrow> pyfloat \<Rightarrow> 'k runtime \<Rightarrow> 'k runtime" where
  "queue_audit_event ev why now r =
     (let previous = (case map_of (last_audit_at r) ev of None \<Rightarrow> f0 | Some t \<Rightarrow> t)
      in if flt_lt_int (flt_sub now previous) 5 then r
         else r\<lparr>last_audit_at := dict_set ev now (last_audit_at r),
                audit_events := audit_events r @ [\<lparr>event = ev, reason = why\<rparr>]\<rparr>)"

section \<open>Data packets\<close>

text \<open>The clock readings of one handler call, in the order they are taken.\<close>

record readings =
  verify_wall :: pyfloat
  verify_mono :: pyfloat
  handler_wall :: pyfloat
  audit_mono :: pyfloat

definition count_lost :: "int \<Rightarrow> 'k runtime \<Rightarrow> 'k runtime" where
  "count_lost sq r =
     (let r' = (case seen_sequence r of
                  Some prev \<Rightarrow>
                    if prev + 1 < sq then r\<lparr>lost_count := lost_count r + (sq - prev - 1)\<rparr> else r
                | None \<Rightarrow> r)
      in r'\<lparr>seen_sequence := Some sq\<rparr>)"

definition apply_packet :: "readings \<Rightarrow> pyval \<Rightarrow> 'k runtime \<Rightarrow> 'k runtime \<times> unit res" where
  "apply_packet t packet r =
     (case int_field packet ''sequence'' of
        Inl e \<Rightarrow> (r, Inl e)
      | Inr sq \<Rightarrow>
          let r1 = count_lost sq r
          in (case rbind (millis (handler_wall t)) (\<lambda>now_ms.
                   rbind (int_field packet ''timestamp_ms'') (\<lambda>ts. Inr (max 0 (now_ms - ts)))) of
                Inl e \<Rightarrow> (r1, Inl e)
              | Inr latency \<Rightarrow>
                  let r2 = r1\<lparr>latencies := latencies r1 @ [latency]\<rparr>
                  in (case rbind (py_getitem packet (u ''command'')) resolve_command of
                        Inl e \<Rightarrow> (r2, Inl e)
                      | Inr command \<Rightarrow>
                          let r3 = (if int_le_flt 1 (brake command)
                                    then queue_audit_event (u ''emergency_stop'')
                                           (u ''remote full brake command'') (audit_mono t) r2
                                    else r2)
                          in (r3\<lparr>brake_controller :=
                                 apply_control (PStr (u ''remote'')) command (brake_controller r3)\<rparr>,
                              Inr ()))))"

definition on_datachannel_message ::
  "'k lib \<Rightarrow> pystr \<Rightarrow> pystr \<Rightarrow> readings \<Rightarrow> 'k runtime \<Rightarrow> 'k runtime \<times> unit res" where
  "on_datachannel_message x raw sender t r =
     (case verify_packet x raw sender (verify_wall t) (verify_mono t) (verifier r) of
        (v, Inl e) \<Rightarrow> (r\<lparr>verifier := v\<rparr>, Inl e)
      | (v, Inr None) \<Rightarrow>
          (queue_audit_event (u ''command_rejected'') (u ''session command validation failed'')
             (audit_mono t) (r\<lparr>verifier := v\<rparr>), Inr ())
      | (v, Inr (Some packet)) \<Rightarrow> apply_packet t packet (r\<lparr>verifier := v\<rparr>))"

section \<open>Watchdog\<close>

definition watchdog_round ::
  "int \<Rightarrow> pyfloat \<Rightarrow> pyfloat \<Rightarrow> 'k runtime \<Rightarrow> 'k runtime \<times> unit res" where
  "watchdog_round timeout_ms now now_audit r =
     (let elapsed = elapsed_ms now (last_valid_cmd_time (verifier r))
      in if int_lt_flt timeout_ms elapsed then
           (case watchdog_reason elapsed of
              Inl e \<Rightarrow> (r, Inl e)
            | Inr why \<Rightarrow>
                let was = in_emergency (brake_controller r);
                    r1 = r\<lparr>brake_controller := emergency_brake why (brake_controller r)\<rparr>
                in (if was then r1
                    else queue_audit_event (u ''watchdog_timeout'') (u ''no valid remote control command'')
                           now_audit r1, Inr ()))
         else (r, Inr ()))"

section \<open>Audit sender\<close>

definition audit_take :: "'k runtime \<Rightarrow> 'k runtime \<times> audit_event list" where
  "audit_take r = (r\<lparr>audit_events := []\<rparr>, audit_events r)"

record audit_post =
  post_url :: pystr
  post_event :: audit_event
  post_session :: pyval
  post_auth :: pystr

definition audit_payload :: "pystr \<Rightarrow> 'k runtime \<Rightarrow> audit_event \<Rightarrow> audit_post" where
  "audit_payload gateway r ev =
     \<lparr>post_url = rstrip 47 gateway @ u ''/api/audit/events'', post_event = ev,
      post_session = (case session (verifier r) of None \<Rightarrow> PStr [] | Some s \<Rightarrow> session_id s),
      post_auth = u ''Bearer '' @ auth_token (verifier r)\<rparr>"

text \<open>\<open>except aiohttp.ClientError: pass\<close>; a response of any status is ignored.\<close>

definition post_result :: "exchange \<Rightarrow> unit res" where
  "post_result ex = (case ex of Inl e \<Rightarrow> if e = ClientError then Inr () else Inl e | Inr _ \<Rightarrow> Inr ())"

text \<open>
  The \<open>for\<close> loop over the events taken. The other tasks may change the runtime while a post is
  waiting, so the loop is given, for each post, the runtime it sees and the outcome of the post;
  it returns the posts it made and how it ended.
\<close>

fun audit_sends ::
  "pystr \<Rightarrow> audit_event list \<Rightarrow> (nat \<Rightarrow> 'k runtime \<times> exchange) \<Rightarrow> audit_post list \<times> unit res" where
  "audit_sends gateway [] seen = ([], Inr ())"
| "audit_sends gateway (ev # evs) seen =
     (let post = audit_payload gateway (fst (seen 0)) ev
      in (case post_result (snd (seen 0)) of
            Inl e \<Rightarrow> ([post], Inl e)
          | Inr _ \<Rightarrow> (case audit_sends gateway evs (\<lambda>i. seen (Suc i)) of
                       (posts, out) \<Rightarrow> (post # posts, out))))"

section \<open>Telemetry\<close>

definition p50_of :: "int list \<Rightarrow> pyval res" where
  "p50_of ls =
     (if ls = [] then Inr (PInt 0)
      else rbind (py_index ls (int (length ls) div 2)) (\<lambda>n. rbind (flt_of_int n) (\<lambda>x. Inr (PFloat x))))"

definition p99_of :: "int list \<Rightarrow> pyval res" where
  "p99_of ls =
     (if ls = [] then Inr (PInt 0)
      else rbind (p99_index (length ls)) (\<lambda>i.
           rbind (py_index ls (min (int (length ls) - 1) i)) (\<lambda>n.
           rbind (flt_of_int n) (\<lambda>x. Inr (PFloat x)))))"

definition telemetry_round :: "pystr \<Rightarrow> 'k runtime \<Rightarrow> 'k runtime \<times> telemetry option res" where
  "telemetry_round vid r =
     (if latencies r = [] \<and> lost_count r = 0 then (r, Inr None)
      else
        (let ls = sort (latencies r); r1 = r\<lparr>latencies := [], lost_count := 0\<rparr>
         in (r1, rbind (p50_of ls) (\<lambda>p50. rbind (p99_of ls) (\<lambda>p99.
                 Inr (Some \<lparr>tel_vehicle = vid, p50 = p50, p99 = p99, tel_lost = lost_count r\<rparr>))))))"

end
