(* ===== verification/Device_Credentials.thy ===== *)
theory Device_Credentials
  imports World
begin

text \<open>
  \<open>device_credentials.py\<close>: the credential file and the access token obtained with it. The file
  system, the YAML parser, the token endpoint and the clock are arguments. A YAML document is modelled
  as far as it is one of the values JSON has, its mappings with text keys; the code looks at nothing
  else of it.
\<close>

unbundle bit_operations_syntax

section \<open>The credential file\<close>

record credentials =
  cred_vehicle :: pystr
  client_id :: pystr
  client_secret :: pystr
  token_url :: pystr
  audience :: pyval
  scope :: pyval

record file_stat =
  st_mode :: int
  st_uid :: int

text \<open>\<open>stat.S_ISREG\<close> and \<open>stat.S_IMODE\<close>.\<close>

definition S_ISREG :: "int \<Rightarrow> bool" where
  "S_ISREG m \<longleftrightarrow> m AND 0xF000 = 0x8000"

definition S_IMODE :: "int \<Rightarrow> int" where
  "S_IMODE m = m AND 0xFFF"

text \<open>\<open>isinstance(data.get(field), str) and data[field]\<close>\<close>

definition has_text :: "pyval dict \<Rightarrow> pystr \<Rightarrow> bool" where
  "has_text d k = (case map_of d k of Some (PStr s) \<Rightarrow> s \<noteq> [] | _ \<Rightarrow> False)"

fun text_of :: "pyval option \<Rightarrow> pystr" where
  "text_of (Some (PStr s)) = s"
| "text_of _ = []"

definition optional :: "pyval dict \<Rightarrow> pystr \<Rightarrow> pyval" where
  "optional d k = (case map_of d k of None \<Rightarrow> PNone | Some v \<Rightarrow> v)"

definition REQUIRED_FIELDS :: "pystr list" where
  "REQUIRED_FIELDS = [u ''vehicle_id'', u ''client_id'', u ''client_secret'', u ''token_url'']"

definition read_mapping :: "(pystr \<Rightarrow> pyval res) \<Rightarrow> pystr res \<Rightarrow> pyval res" where
  "read_mapping yaml contents =
     (case rbind contents yaml of
        Inl e \<Rightarrow> Inl (if e = OSError \<or> e = YAMLError
                      then RuntimeError ''device credential file must contain valid YAML'' else e)
      | Inr v \<Rightarrow> Inr v)"

fun build_credentials :: "pyval \<Rightarrow> credentials res" where
  "build_credentials (PDict d) =
     (if \<not> list_all (has_text d) REQUIRED_FIELDS
      then Inl (RuntimeError ''device credential file is missing required values'')
      else Inr \<lparr>cred_vehicle = text_of (map_of d (u ''vehicle_id'')),
                client_id = text_of (map_of d (u ''client_id'')),
                client_secret = text_of (map_of d (u ''client_secret'')),
                token_url = text_of (map_of d (u ''token_url'')),
                audience = optional d (u ''audience''), scope = optional d (u ''scope'')\<rparr>)"
| "build_credentials v = Inl (RuntimeError ''device credential file must contain a mapping'')"

definition load_credentials ::
  "(pystr \<Rightarrow> pyval res) \<Rightarrow> file_stat res \<Rightarrow> pystr res \<Rightarrow> credentials res" where
  "load_credentials yaml metadata contents =
     rbind metadata (\<lambda>st.
     if \<not> S_ISREG (st_mode st)
     then Inl (RuntimeError ''device credential path must be a regular file'')
     else if S_IMODE (st_mode st) \<noteq> 0x180
     then Inl (RuntimeError ''device credential file must use mode 0600'')
     else if st_uid st \<noteq> 0
     then Inl (RuntimeError ''device credential file must be owned by root'')
     else rbind (read_mapping yaml contents) build_credentials)"

section \<open>The access token\<close>

record token_manager =
  tm_credentials :: credentials
  refresh_before_seconds :: int
  access_token_opt :: "pystr option"
  expires_at :: pyfloat

definition new_token_manager :: "credentials \<Rightarrow> int \<Rightarrow> token_manager res" where
  "new_token_manager c before =
     (if before \<le> 0 then Inl ValueError
      else Inr \<lparr>tm_credentials = c, refresh_before_seconds = before, access_token_opt = None,
                expires_at = f0\<rparr>)"

definition access_token :: "token_manager \<Rightarrow> pystr res" where
  "access_token m =
     option_or (access_token_opt m) (RuntimeError ''vehicle access token is not available'')"

text \<open>The form fields of the token request.\<close>

definition token_payload :: "credentials \<Rightarrow> (pystr \<times> pyval) list" where
  "token_payload c =
     [(u ''grant_type'', PStr (u ''client_credentials'')), (u ''client_id'', PStr (client_id c)),
      (u ''client_secret'', PStr (client_secret c))]
     @ (if truthy (audience c) then [(u ''audience'', audience c)] else [])
     @ (if truthy (scope c) then [(u ''scope'', scope c)] else [])"

text \<open>\<open>isinstance(v, (int, float)) and not v <= n\<close>: a Boolean is an \<open>int\<close>, a NaN is never \<open>\<le>\<close>.\<close>

fun lives_longer :: "pyval \<Rightarrow> int \<Rightarrow> bool" where
  "lives_longer (PInt n) k \<longleftrightarrow> \<not> n \<le> k"
| "lives_longer (PBool b) k \<longleftrightarrow> \<not> of_bool b \<le> k"
| "lives_longer (PFloat x) k \<longleftrightarrow> \<not> flt_le_int x k"
| "lives_longer v k \<longleftrightarrow> False"

definition token_body :: "exchange \<Rightarrow> (pyval \<times> pyval) res" where
  "token_body ex =
     rbind ex (\<lambda>r.
     if status_code r \<noteq> 200 then Inl (RuntimeError ''vehicle token request failed'')
     else rbind (body_json r) (\<lambda>body.
          rbind (py_get body (u ''access_token'') PNone) (\<lambda>token.
          rbind (py_get body (u ''expires_in'') PNone) (\<lambda>expires_in.
          Inr (token, expires_in)))))"

text \<open>
  The token is stored before \<open>float(expires_in)\<close> is computed, so a lifetime too large for a float
  raises with the new token stored beside the old expiry.
\<close>

definition refresh_token :: "exchange \<Rightarrow> pyfloat \<Rightarrow> token_manager \<Rightarrow> token_manager \<times> pystr res" where
  "refresh_token ex now m =
     (case token_body ex of
        Inl e \<Rightarrow> (m, Inl e)
      | Inr (token, expires_in) \<Rightarrow>
          (case token of
             PStr t \<Rightarrow>
               if t = [] \<or> \<not> lives_longer expires_in (refresh_before_seconds m)
               then (m, Inl (RuntimeError ''token endpoint returned an invalid or too-short-lived token''))
               else
                 (let m1 = m\<lparr>access_token_opt := Some t\<rparr>
                  in (case py_float expires_in of
                        Inl e \<Rightarrow> (m1, Inl e)
                      | Inr x \<Rightarrow> (m1\<lparr>expires_at := flt_add now x\<rparr>, Inr t)))
           | _ \<Rightarrow> (m, Inl (RuntimeError ''token endpoint returned an invalid or too-short-lived token''))))"

section \<open>The refresh loop\<close>

text \<open>\<open>max(1, x)\<close> for a float: \<open>x\<close> only when it is greater than 1. The \<open>int\<close> 1 is written as a float.\<close>

definition at_least_one :: "pyfloat \<Rightarrow> pyfloat" where
  "at_least_one x = (if int_lt_flt 1 x then x else f1)"

definition refresh_delay :: "pyfloat \<Rightarrow> token_manager \<Rightarrow> pyfloat res" where
  "refresh_delay now m =
     rbind (flt_of_int (refresh_before_seconds m)) (\<lambda>before.
     Inr (at_least_one (flt_sub (flt_sub (expires_at m) now) before)))"

definition retry_delay :: "pyfloat \<Rightarrow> token_manager \<Rightarrow> pyfloat" where
  "retry_delay now m =
     (let remaining = flt_sub (expires_at m) now
      in if int_lt_flt 30 remaining then flt_small 30 else at_least_one remaining)"

text \<open>
  One round of the loop after its first sleep: the request, then the callback with the new token,
  or a second sleep, or an exception that ends the loop.
\<close>

datatype token_round = NewToken pystr | RetryAfter pyfloat | LoopEnds py_error

definition refresh_round ::
  "exchange \<Rightarrow> pyfloat \<Rightarrow> pyfloat \<Rightarrow> token_manager \<Rightarrow> token_manager \<times> token_round" where
  "refresh_round ex now now_failed m =
     (case refresh_token ex now m of
        (m', Inr t) \<Rightarrow> (m', NewToken t)
      | (m', Inl e) \<Rightarrow> (m', if is_Exception e then RetryAfter (retry_delay now_failed m') else LoopEnds e))"

end
