(* ===== verification/Py_Float_Round.thy ===== *)
theory Py_Float_Round
  imports Py_Float_Facts
begin

text \<open>
  Rounding over the reals: \<open>round_ratio\<close> depends only on the quotient of its arguments
  (\<open>round_real\<close>), returns a canonical float, and returns the float it is closest to.
\<close>

section \<open>The binary exponent\<close>

lemma powi_Suc: "(2::real) powi (1 + k) = 2 * 2 powi k"
  by (simp add: power_int_add)

lemma bit_length_bounds:
  "0 < n \<Longrightarrow> 0 < bit_length n \<and> (2::real) powi (bit_length n - 1) \<le> of_int n
     \<and> of_int n < (2::real) powi bit_length n"
proof (induction n rule: bit_length.induct)
  case (1 n)
  show ?case
  proof (cases "n = 1")
    case True
    then show ?thesis by (simp add: bit_length.simps)
  next
    case False
    with "1.prems" have pos: "0 < n div 2" by auto
    let ?k = "bit_length (n div 2)"
    have IH: "0 < ?k" "(2::real) powi (?k - 1) \<le> of_int (n div 2)" "of_int (n div 2) < (2::real) powi ?k"
      using "1.IH" "1.prems" pos by auto
    have len: "bit_length n = 1 + ?k" using "1.prems" by (subst bit_length.simps) simp
    have step: "(2::real) powi ?k = 2 * 2 powi (?k - 1)" "(2::real) powi (1 + ?k) = 2 * 2 powi ?k"
      using powi_Suc [of "?k - 1"] powi_Suc [of ?k] by simp_all
    have "2 * (n div 2) \<le> n" "n \<le> 2 * (n div 2) + 1" by auto
    then have r: "2 * of_int (n div 2) \<le> (of_int n :: real)" "(of_int n :: real) \<le> 2 * of_int (n div 2) + 1"
      by linarith+
    have "of_int (n div 2) + 1 \<le> (2::real) powi ?k"
    proof -
      have eq: "(2::real) powi ?k = of_int (2 ^ nat ?k)" using IH(1) by (simp add: power_int_def)
      have "n div 2 < 2 ^ nat ?k" using IH(3) unfolding eq by (simp only: of_int_less_iff)
      then have "of_int (n div 2 + 1) \<le> (of_int (2 ^ nat ?k) :: real)" by (simp only: of_int_le_iff)
      then show ?thesis unfolding eq by simp
    qed
    then have "of_int n < (2::real) powi bit_length n"
      using r(2) unfolding len step(2) by linarith
    moreover have "(2::real) powi (bit_length n - 1) \<le> of_int n"
      using IH(2) r(1) step(1) by (simp add: len)
    ultimately show ?thesis using IH(1) len by simp
  qed
qed

lemma powi_less_iff: "(2::real) powi a < 2 powi b \<longleftrightarrow> a < b"
  using power_int_strict_increasing [of a b "2::real"] power_int_increasing [of b a "2::real"]
  by (cases "a < b") auto

lemma powi_le_iff: "(2::real) powi a \<le> 2 powi b \<longleftrightarrow> a \<le> b"
  using powi_less_iff [of b a] by (simp flip: not_less)

lemma scale2_le_iff: "scale2 q k \<le> scale2 p (- k) \<longleftrightarrow> of_int q * (2::real) powi k \<le> of_int p"
proof (cases "0 \<le> k")
  case True
  have "of_int q * (2::real) powi k = of_int (q * 2 ^ nat k)"
    using True by (simp add: power_int_def)
  then have "of_int q * (2::real) powi k \<le> of_int p \<longleftrightarrow> q * 2 ^ nat k \<le> p"
    by (simp only: of_int_le_iff)
  with True show ?thesis
    by (cases "k = 0") (auto simp: scale2_def)
next
  case False
  have "of_int q * (2::real) powi k \<le> of_int p \<longleftrightarrow> of_int q \<le> of_int p * (2::real) powi (- k)"
    by (simp add: power_int_minus field_simps)
  also have "of_int p * (2::real) powi (- k) = of_int (p * 2 ^ nat (- k))"
    using False by (simp add: power_int_def)
  finally show ?thesis using False by (simp add: scale2_def del: of_int_mult)
qed

text \<open>The unique \<open>k\<close> with \<open>2^k \<le> x < 2^(k+1)\<close>.\<close>

definition is_log2 :: "real \<Rightarrow> int \<Rightarrow> bool" where
  "is_log2 x k \<longleftrightarrow> 2 powi k \<le> x \<and> x < 2 powi (k + 1)"

lemma is_log2_unique: "is_log2 x j \<Longrightarrow> is_log2 x k \<Longrightarrow> j = k"
proof -
  assume "is_log2 x j" "is_log2 x k"
  then have "(2::real) powi j < 2 powi (k + 1)" "(2::real) powi k < 2 powi (j + 1)"
    unfolding is_log2_def by linarith+
  then show "j = k" by (simp add: powi_less_iff)
qed

lemma floor_log2_is_log2:
  assumes "0 < p" and "0 < q"
  shows "is_log2 (of_int p / of_int q) (floor_log2 p q)"
proof -
  let ?k = "bit_length p - bit_length q" and ?x = "of_int p / of_int q :: real"
  have q: "0 < (of_int q :: real)" using assms by simp
  note bp = bit_length_bounds [OF assms(1)] and bq = bit_length_bounds [OF assms(2)]
  have "2 powi (?k - 1) * of_int q \<le> 2 powi (?k - 1) * (2::real) powi bit_length q"
    using bq by (intro mult_left_mono) auto
  also have "\<dots> = 2 powi (bit_length p - 1)" by (simp flip: power_int_add)
  also have "\<dots> \<le> of_int p" using bp by blast
  finally have low: "2 powi (?k - 1) \<le> ?x" using q by (simp add: pos_le_divide_eq)
  have "of_int p < (2::real) powi bit_length p" using bp by blast
  also have "\<dots> = 2 powi (?k + 1) * 2 powi (bit_length q - 1)" by (simp flip: power_int_add)
  also have "\<dots> \<le> 2 powi (?k + 1) * (of_int q :: real)"
    using bq by (intro mult_left_mono) auto
  finally have high: "?x < 2 powi (?k + 1)" using q by (simp add: pos_divide_less_eq)
  have test: "scale2 q ?k \<le> scale2 p (- ?k) \<longleftrightarrow> 2 powi ?k \<le> ?x"
    unfolding scale2_le_iff using q by (simp add: pos_le_divide_eq mult.commute)
  from low high test show ?thesis
    by (auto simp: floor_log2_def is_log2_def Let_def)
qed

definition log2_floor :: "real \<Rightarrow> int" where
  "log2_floor x = \<lfloor>log 2 x\<rfloor>"

lemma log2_floor_is_log2: "0 < x \<Longrightarrow> is_log2 x (log2_floor x)"
proof -
  assume x: "0 < x"
  have eq: "2 powr of_int k = (2::real) powi k" for k
    by (simp add: powr_real_of_int')
  have "of_int (log2_floor x) \<le> log 2 x" "log 2 x < of_int (log2_floor x + 1)"
    by (simp_all add: log2_floor_def)
  then have "2 powr of_int (log2_floor x) \<le> x" "x < 2 powr of_int (log2_floor x + 1)"
    using x le_log_iff [of 2 x "of_int (log2_floor x)"] log_less_iff [of 2 x "of_int (log2_floor x + 1)"]
    by auto
  then show "is_log2 x (log2_floor x)"
    unfolding eq is_log2_def by blast
qed

lemma floor_log2_real: "0 < p \<Longrightarrow> 0 < q \<Longrightarrow> floor_log2 p q = log2_floor (of_int p / of_int q)"
  by (rule is_log2_unique [OF floor_log2_is_log2 log2_floor_is_log2]) auto

section \<open>Rounding\<close>

definition round_even :: "real \<Rightarrow> int" where
  "round_even x =
     (if x - of_int \<lfloor>x\<rfloor> < 1 / 2 \<or> (x - of_int \<lfloor>x\<rfloor> = 1 / 2 \<and> even \<lfloor>x\<rfloor>) then \<lfloor>x\<rfloor> else \<lfloor>x\<rfloor> + 1)"

lemma half_quotient:
  fixes r d :: int
  assumes "0 < d"
  shows "(of_int r / of_int d :: real) < 1 / 2 \<longleftrightarrow> 2 * r < d"
    and "(of_int r / of_int d :: real) = 1 / 2 \<longleftrightarrow> 2 * r = d"
proof -
  have d: "0 < (of_int d :: real)" using assms by simp
  have "(of_int r / of_int d :: real) < 1 / 2 \<longleftrightarrow> (of_int (2 * r) :: real) < of_int d"
    using d by (simp add: pos_divide_less_eq mult.commute)
  then show "(of_int r / of_int d :: real) < 1 / 2 \<longleftrightarrow> 2 * r < d"
    by (simp only: of_int_less_iff)
  have "(of_int r / of_int d :: real) = 1 / 2 \<longleftrightarrow> (of_int (2 * r) :: real) = of_int d"
    using d by (auto simp: divide_eq_eq)
  then show "(of_int r / of_int d :: real) = 1 / 2 \<longleftrightarrow> 2 * r = d"
    by (simp only: of_int_eq_iff)
qed

lemma round_half_even_real: "0 < d \<Longrightarrow> round_half_even n d = round_even (of_int n / of_int d)"
proof -
  assume d: "0 < d"
  have fl: "\<lfloor>of_int n / of_int d :: real\<rfloor> = n div d" by (rule floor_divide_of_int_eq)
  have "(of_int n :: real) = of_int (n div d) * of_int d + of_int (n mod d)"
    by (simp only: div_mult_mod_eq flip: of_int_mult of_int_add)
  then have fr: "of_int n / of_int d - of_int (n div d) = (of_int (n mod d) / of_int d :: real)"
    using d by (simp add: field_simps)
  show ?thesis
    unfolding round_half_even_def round_even_def fl fr Let_def half_quotient [OF d] ..
qed

lemma round_even_bounds: "\<bar>of_int (round_even x) - x\<bar> \<le> 1 / 2"
proof -
  have "of_int \<lfloor>x\<rfloor> \<le> x" "x < of_int \<lfloor>x\<rfloor> + 1" by (simp_all add: floor_correct)
  then show ?thesis by (auto simp: round_even_def)
qed

lemma round_even_near:
  assumes "\<bar>x - of_int n\<bar> < 1 / 2"
  shows "round_even x = n"
proof -
  have "\<bar>of_int (round_even x) - (of_int n :: real)\<bar> < 1"
    using round_even_bounds [of x] assms by linarith
  then show ?thesis by linarith
qed

lemma round_even_mono_int:
  "of_int n \<le> x \<Longrightarrow> n \<le> round_even x" "x \<le> of_int n \<Longrightarrow> round_even x \<le> n"
proof -
  show "n \<le> round_even x" if "of_int n \<le> x"
    using that le_floor_iff [of n x] by (auto simp: round_even_def)
  show "round_even x \<le> n" if "x \<le> of_int n"
  proof (cases "x = of_int n")
    case True
    then show ?thesis by (simp add: round_even_def)
  next
    case False
    with that have "\<lfloor>x\<rfloor> < n" by (simp add: floor_less_iff)
    then show ?thesis by (simp add: round_even_def)
  qed
qed

text \<open>The float of a positive real, by the exponent of its last digit.\<close>

definition last_exp :: "real \<Rightarrow> int" where
  "last_exp x = max (- 1074) (log2_floor x - 52)"

definition round_real :: "bool \<Rightarrow> real \<Rightarrow> pyfloat" where
  "round_real s x =
     (if x = 0 then Fin s 0 (-1074)
      else
        (let e = last_exp x; m = round_even (x / 2 powi e)
         in if m = 2 ^ 53 then (if 971 < e + 1 then Inf s else Fin s (2 ^ 52) (e + 1))
            else if 971 < e then Inf s else Fin s m e))"

lemma scale2_quotient:
  "0 < q \<Longrightarrow> of_int (scale2 p (- e)) / of_int (scale2 q e) = of_int p / of_int q / (2::real) powi e"
  by (cases "e = 0") (auto simp: scale2_def power_int_def field_simps)

lemma scale2_pos: "0 < q \<Longrightarrow> 0 < scale2 q e"
  by (simp add: scale2_def)

theorem round_ratio_real:
  assumes "0 \<le> p" and "0 < q"
  shows "round_ratio s p q = round_real s (of_int p / of_int q)"
proof (cases "p = 0")
  case False
  with assms have p: "0 < p" by simp
  show ?thesis
    using False assms(2)
    by (simp add: round_ratio_def round_real_def last_exp_def floor_log2_real [OF p assms(2)]
        round_half_even_real [OF scale2_pos] scale2_quotient Let_def)
qed (simp add: round_ratio_def round_real_def)

section \<open>Canonical results\<close>

lemma powi_div: "(2::real) powi a / 2 powi b = 2 powi (a - b)"
  by (simp add: power_int_diff)

lemma powi_nat: "(2::real) powi 53 = 2 ^ 53" "(2::real) powi 52 = 2 ^ 52"
  by (simp_all add: power_int_def)

lemma last_exp_scaled:
  assumes "0 < x"
  shows "0 < x / 2 powi last_exp x" "x / 2 powi last_exp x < 2 ^ 53"
    "2 ^ 52 \<le> x / 2 powi last_exp x \<or> last_exp x = - 1074" "- 1074 \<le> last_exp x"
proof -
  let ?k = "log2_floor x" and ?e = "last_exp x"
  have k: "2 powi ?k \<le> x" "x < 2 powi (?k + 1)"
    using log2_floor_is_log2 [OF assms] by (auto simp: is_log2_def)
  have p: "(0::real) < 2 powi ?e" by simp
  show "0 < x / 2 powi ?e" using assms by simp
  have "x / 2 powi ?e < 2 powi (?k + 1) / 2 powi ?e" using k p by (intro divide_strict_right_mono) auto
  also have "\<dots> = 2 powi (?k + 1 - ?e)" by (rule powi_div)
  also have "\<dots> \<le> 2 powi 53" unfolding powi_le_iff by (auto simp: last_exp_def)
  finally show "x / 2 powi ?e < 2 ^ 53" by (simp only: powi_nat)
  show "2 ^ 52 \<le> x / 2 powi ?e \<or> ?e = - 1074"
  proof (cases "?e = ?k - 52")
    case True
    have "2 powi 52 = (2::real) powi (?k - ?e)" using True by simp
    also have "\<dots> = 2 powi ?k / 2 powi ?e" by (rule powi_div [symmetric])
    also have "\<dots> \<le> x / 2 powi ?e" using k p by (intro divide_right_mono) auto
    finally have "2 ^ 52 \<le> x / 2 powi ?e" unfolding powi_nat .
    then show ?thesis ..
  qed (auto simp: last_exp_def)
  show "- 1074 \<le> ?e" by (simp add: last_exp_def)
qed

lemma round_real_canonical: "0 \<le> x \<Longrightarrow> canonical (round_real s x)"
proof -
  assume "0 \<le> x"
  show ?thesis
  proof (cases "x = 0")
    case False
    with \<open>0 \<le> x\<close> have "0 < x" by simp
    note y = last_exp_scaled [OF this]
    let ?y = "x / 2 powi last_exp x"
    have m: "0 \<le> round_even ?y" "round_even ?y \<le> 2 ^ 53"
      using round_even_mono_int(1) [of 0 ?y] round_even_mono_int(2) [of ?y "2 ^ 53"] y by simp_all
    have low: "2 ^ 52 \<le> round_even ?y \<or> last_exp x = - 1074"
      using round_even_mono_int(1) [of "2 ^ 52" ?y] y(3) by auto
    show ?thesis
      using False m low y(4) by (auto simp: round_real_def Let_def)
  qed (simp add: round_real_def)
qed

lemma round_ratio_canonical: "0 \<le> p \<Longrightarrow> 0 < q \<Longrightarrow> canonical (round_ratio s p q)"
  by (simp add: round_ratio_real round_real_canonical)

lemma scale2_nonneg: "0 \<le> m \<Longrightarrow> 0 \<le> scale2 m e"
  by (simp add: scale2_def)

section \<open>The nearest float\<close>

text \<open>The distance within which a real rounds to the float: half a gap, on the lower side of a power of two a quarter.\<close>

lemma round_real_near:
  assumes m: "canonical (Fin s m e)" "0 < m"
    and near: "\<bar>x - of_int m * 2 powi e\<bar> < 2 powi e / 2"
    and low: "m = 2 ^ 52 \<Longrightarrow> - 1074 < e \<Longrightarrow> x < of_int m * 2 powi e \<Longrightarrow> of_int m * 2 powi e - x < 2 powi e / 4"
  shows "round_real s x = Fin s m e"
proof -
  let ?u = "(2::real) powi e"
  have u: "0 < ?u" by simp
  have m1: "(1::real) \<le> of_int m" using m(2) by linarith
  have "?u \<le> of_int m * ?u" using mult_right_mono [OF m1, of ?u] by simp
  then have x: "0 < x" using near u by linarith
  have mu: "of_int m \<le> (2 ^ 53 - 1 :: real)"
  proof -
    have "m \<le> 2 ^ 53 - 1" using m(1) by simp
    then have "(of_int m :: real) \<le> of_int (2 ^ 53 - 1)" by (simp only: of_int_le_iff)
    then show ?thesis by simp
  qed
  have "x < of_int m * ?u + ?u / 2" using near by linarith
  also have "\<dots> = (of_int m + 1 / 2) * ?u" by (simp add: algebra_simps)
  also have "\<dots> < 2 ^ 53 * ?u" using mu u by (intro mult_strict_right_mono) auto
  also have "\<dots> = 2 powi (e + 53)" by (simp add: power_int_add powi_nat)
  finally have high: "x < 2 powi (e + 53)" .
  have e971: "e \<le> 971" "- 1074 \<le> e" using m(1) by auto
  show ?thesis
  proof (cases "m = 2 ^ 52 \<and> - 1074 < e \<and> x < of_int m * ?u")
    case True
    let ?w = "(2::real) powi (e - 1)"
    have w: "?u = 2 * ?w" using powi_Suc [of "e - 1"] by simp
    have v: "of_int m * ?u = 2 powi (e + 52)" using True by (simp add: power_int_add powi_nat)
    have v': "of_int m * ?u = 2 ^ 53 * ?w" using True by (simp add: w)
    have "of_int m * ?u - ?u / 4 < x" using low True by linarith
    then have gt: "2 ^ 53 * ?w - ?w / 2 < x" using v' w by linarith
    have wpos: "0 < ?w" by simp
    have "18014398509481983 * ?w < x * 2" using gt by simp
    then have "4503599627370496 * ?w \<le> x" using wpos by linarith
    then have "2 ^ 52 * ?w \<le> x" by simp
    moreover have "2 ^ 52 * ?w = (2::real) powi (e + 51)"
      using power_int_add [of "2::real" 52 "e - 1"] by (simp add: powi_nat add.commute)
    ultimately have "is_log2 x (e + 51)" using True v by (simp add: is_log2_def add.commute)
    then have "log2_floor x = e + 51" using log2_floor_is_log2 [OF x] is_log2_unique by blast
    then have le: "last_exp x = e - 1" using True by (simp add: last_exp_def)
    have "\<bar>x / ?w - of_int (2 ^ 53)\<bar> < 1 / 2"
    proof -
      have "x < of_int m * ?u" using True by blast
      then have "x / ?w < 2 ^ 53" unfolding v' using wpos by (simp add: pos_divide_less_eq)
      moreover have "2 ^ 53 - 1 / 2 < x / ?w"
        using gt wpos by (simp add: pos_less_divide_eq algebra_simps)
      ultimately show ?thesis by simp
    qed
    then have "round_even (x / ?w) = 2 ^ 53" by (rule round_even_near)
    with x le e971 True show ?thesis by (simp add: round_real_def)
  next
    case False
    have le: "last_exp x = e"
    proof (cases "e = - 1074")
      case True
      have "2 powi log2_floor x < (2::real) powi (e + 53)"
        using log2_floor_is_log2 [OF x] high by (auto simp: is_log2_def)
      then have "log2_floor x < e + 53" by (simp only: powi_less_iff)
      then show ?thesis using True by (simp add: last_exp_def)
    next
      case no_sub: False
      then have "2 ^ 52 \<le> m" using m(1) by auto
      have "2 ^ 52 * ?u \<le> x"
      proof (cases "m = 2 ^ 52")
        case True
        with False no_sub e971 show ?thesis by auto
      next
        case False
        with \<open>2 ^ 52 \<le> m\<close> have "2 ^ 52 + 1 \<le> m" by linarith
        then have "of_int (2 ^ 52 + 1) \<le> (of_int m :: real)" by (simp only: of_int_le_iff)
        then have "(2 ^ 52 + 1) \<le> (of_int m :: real)" by simp
        then have "(2 ^ 52 + 1) * ?u \<le> of_int m * ?u" using u by (intro mult_right_mono) auto
        then have "4503599627370497 * ?u \<le> of_int m * ?u" by simp
        then have "4503599627370496 * ?u \<le> x" using near u by linarith
        then show ?thesis by simp
      qed
      also have "2 ^ 52 * ?u = 2 powi (e + 52)" by (simp add: power_int_add powi_nat)
      finally have "is_log2 x (e + 52)" using high by (simp add: is_log2_def add.commute)
      then have "log2_floor x = e + 52" using log2_floor_is_log2 [OF x] is_log2_unique by blast
      then show ?thesis using e971 by (simp add: last_exp_def)
    qed
    have "\<bar>x / ?u - of_int m\<bar> < 1 / 2"
      using near u by (simp add: abs_less_iff field_simps)
    then have "round_even (x / ?u) = m" by (rule round_even_near)
    with x le e971 m show ?thesis by (simp add: round_real_def)
  qed
qed

lemma round_real_exact: "canonical (Fin s m e) \<Longrightarrow> 0 < m \<Longrightarrow> round_real s (of_int m * 2 powi e) = Fin s m e"
  by (rule round_real_near) auto

end
