(* ===== verification/Py_Repr_Facts.thy ===== *)
theory Py_Repr_Facts
  imports Py_Str_Facts Py_Float_Round
begin

text \<open>
  \<open>float(repr(x))\<close> is \<open>x\<close>: seventeen digits determine a float, and the text \<open>float_repr\<close> builds
  from the digits is read back with the same digits and exponent.
\<close>

section \<open>Decimal values\<close>

lemma flt_of_decimal_real:
  assumes "0 \<le> d"
  shows "flt_of_decimal s d k = round_real s (of_int d * 10 powi k)"
proof (cases "0 \<le> k")
  case True
  have "flt_of_decimal s d k = round_real s (of_int (d * 10 ^ nat k) / of_int 1)"
    using True assms round_ratio_real [of "d * 10 ^ nat k" 1] by (simp add: flt_of_decimal_def)
  then show ?thesis using True by (simp add: power_int_def)
next
  case False
  have "flt_of_decimal s d k = round_real s (of_int d / of_int (10 ^ nat (- k)))"
    using False assms round_ratio_real [of d "10 ^ nat (- k)"] by (simp add: flt_of_decimal_def)
  moreover have "(10::real) powi k = 1 / of_int (10 ^ nat (- k))"
    using False power_int_minus [of "10::real" "- k"] by (simp add: power_int_def [of _ "- k"] divide_inverse)
  ultimately show ?thesis by simp
qed

lemma powi10_pos [simp]: "0 < (10::real) powi k"
  by simp

lemma powi10_Suc: "(10::real) powi (k + 1) = 10 * 10 powi k"
  by (simp add: power_int_add)

lemma scale10_quotient:
  "0 < q \<Longrightarrow> of_int (scale10 p j) / of_int (scale10 q (- j)) = of_int p / of_int q * (10::real) powi j"
  by (cases "j = 0") (auto simp: scale10_def power_int_def field_simps)

lemma scale10_pos: "0 < q \<Longrightarrow> 0 < scale10 q j"
  by (simp add: scale10_def)

lemma digits_bound: "list_all is_digit ds \<Longrightarrow> digits_val ds < 10 ^ length ds"
  by (induction ds rule: rev_induct) (auto simp: digits_val_snoc is_digit_def)

text \<open>The number of digits of a positive number.\<close>

lemma dec_digits_length:
  "0 < n \<Longrightarrow> 10 ^ (length (dec_digits n) - 1) \<le> n \<and> n < 10 ^ length (dec_digits n)"
proof (induction n rule: dec_digits.induct)
  case (1 n)
  show ?case
  proof (cases "n < 10")
    case True
    with 1 show ?thesis by (subst (1 2) dec_digits.simps) auto
  next
    case False
    let ?l = "length (dec_digits (n div 10))"
    have IH: "10 ^ (?l - 1) \<le> n div 10" "n div 10 < 10 ^ ?l"
      using 1 False by auto
    have l: "?l = Suc (?l - 1)" using dec_digits_props(3) [of "n div 10"] 1 by (cases ?l) auto
    have "(10::int) ^ ?l = 10 * 10 ^ (?l - 1)" by (subst l) simp
    moreover have "10 * (n div 10) \<le> n" "n < 10 * (n div 10) + 10" by auto
    moreover have "n div 10 + 1 \<le> 10 ^ ?l" using IH(2) by simp
    ultimately have "10 ^ ?l \<le> n" "n < 10 * 10 ^ ?l" using IH(1) by linarith+
    then show ?thesis using False by (subst (1 2) dec_digits.simps) simp
  qed
qed

text \<open>\<open>is_log10 x k\<close>: \<open>k\<close> is the position of the decimal point before the first digit of \<open>x\<close>.\<close>

definition is_log10 :: "real \<Rightarrow> int \<Rightarrow> bool" where
  "is_log10 x k \<longleftrightarrow> 10 powi (k - 1) \<le> x \<and> x < 10 powi k"

lemma lead_zeros_log10:
  "0 < p \<Longrightarrow> p < 10 * q \<Longrightarrow> 0 < q \<Longrightarrow> is_log10 (of_int p / of_int q) (1 - lead_zeros p q)"
proof (induction p q rule: lead_zeros.induct)
  case (1 p q)
  show ?case
  proof (cases "q \<le> p")
    case True
    have "(of_int q :: real) \<le> of_int p" using True by simp
    moreover have "(of_int p :: real) < of_int (10 * q)" using 1 by (simp only: of_int_less_iff)
    moreover have "lead_zeros p q = 0" using True by (subst lead_zeros.simps) simp
    ultimately show ?thesis
      using 1 by (simp add: is_log10_def pos_le_divide_eq pos_divide_less_eq)
  next
    case False
    have IH: "is_log10 (of_int (10 * p) / of_int q) (1 - lead_zeros (10 * p) q)"
      using 1 False by auto
    have z: "lead_zeros p q = 1 + lead_zeros (10 * p) q"
      using 1 False by (subst lead_zeros.simps) auto
    let ?k = "1 - lead_zeros p q"
    have k: "1 - lead_zeros (10 * p) q = ?k + 1" by (simp add: z)
    have "(10::real) powi (?k + 1) = 10 * 10 powi ?k" "(10::real) powi ?k = 10 * 10 powi (?k - 1)"
      using powi10_Suc [of ?k] powi10_Suc [of "?k - 1"] by simp_all
    with IH show ?thesis
      unfolding k by (auto simp: is_log10_def)
  qed
qed

lemma dec_exp_log10:
  assumes "0 < p" and "0 < q"
  shows "is_log10 (of_int p / of_int q) (dec_exp p q)"
proof (cases "q \<le> p")
  case True
  let ?n = "p div q" and ?l = "length (dec_digits (p div q))"
  have n: "0 < ?n" using True assms by (simp add: pos_imp_zdiv_pos_iff)
  note b = dec_digits_length [OF n]
  have l: "0 < ?l" using dec_digits_props(3) [of ?n] n by auto
  note f = floor_bounds [OF assms(2), of p]
  have e: "dec_exp p q = int ?l" using True by (simp add: dec_exp_def)
  have "(10::real) powi (int ?l - 1) = of_int (10 ^ (?l - 1))"
    using l by (simp add: power_int_def nat_diff_distrib)
  also have "\<dots> \<le> of_int ?n" using b by (simp only: of_int_le_iff)
  finally have low: "(10::real) powi (int ?l - 1) \<le> of_int p / of_int q" using f by linarith
  have "of_int ?n + 1 \<le> (of_int (10 ^ ?l) :: real)"
    using b by (metis add1_zle_eq of_int_1 of_int_add of_int_le_iff)
  then have "of_int p / of_int q < (10::real) powi int ?l"
    using f by (simp add: power_int_def)
  with low show ?thesis unfolding e is_log10_def ..
next
  case False
  with assms show ?thesis
    using lead_zeros_log10 [of p q] by (simp add: dec_exp_def)
qed

section \<open>Seventeen digits\<close>

lemma round_real_flip: "round_real s x = Fin s m e \<Longrightarrow> round_real s' x = Fin s' m e"
  by (auto simp: round_real_def Let_def split: if_splits)

lemma half_gap:
  fixes dist v gap :: real
  shows "20000000000000000 * dist \<le> v \<Longrightarrow> v < 9007199254740992 * gap \<Longrightarrow> 0 < gap \<Longrightarrow> dist < gap / 2"
  by linarith

lemma quarter_gap:
  fixes dist v gap :: real
  shows "20000000000000000 * dist \<le> v \<Longrightarrow> v = 4503599627370496 * gap \<Longrightarrow> 0 < gap \<Longrightarrow> dist < gap / 4"
  by linarith

lemma seventeen_digits:
  assumes can: "canonical (Fin s m e)" "0 < m"
    and k: "is_log10 (of_int m * 2 powi e) k"
    and c: "\<bar>of_int c - of_int m * 2 powi e * 10 powi (17 - k)\<bar> \<le> (1 / 2 :: real)"
  shows "round_real s (of_int c * 10 powi (k - 17)) = Fin s m e"
proof -
  let ?v = "of_int m * (2::real) powi e" and ?t = "(10::real) powi (k - 17)" and ?u = "(2::real) powi e"
  have t: "0 < ?t" "10 powi (17 - k) * ?t = 1" by (simp_all flip: power_int_add)
  have "\<bar>of_int c - ?v * 10 powi (17 - k)\<bar> * ?t \<le> 1 / 2 * ?t"
    using c t(1) by (intro mult_right_mono) auto
  moreover have "\<bar>of_int c - ?v * 10 powi (17 - k)\<bar> * ?t = \<bar>of_int c * ?t - ?v\<bar>"
  proof -
    have "\<bar>of_int c - ?v * 10 powi (17 - k)\<bar> * ?t = \<bar>(of_int c - ?v * 10 powi (17 - k)) * ?t\<bar>"
      by (simp only: abs_mult) simp
    also have "(of_int c - ?v * 10 powi (17 - k)) * ?t = of_int c * ?t - ?v * (10 powi (17 - k) * ?t)"
      by (simp add: algebra_simps)
    finally show ?thesis using t(2) by simp
  qed
  moreover have "10 ^ 16 * ?t \<le> ?v"
  proof -
    have "10 ^ 16 * ?t = 10 powi (k - 1)"
      using power_int_add [of "10::real" 16 "k - 17"] by (simp add: power_int_def [of _ 16])
    with k show ?thesis by (simp add: is_log10_def)
  qed
  ultimately have dist: "2 * 10 ^ 16 * \<bar>of_int c * ?t - ?v\<bar> \<le> ?v" by simp
  have u: "0 < ?u" by simp
  have "m < 2 ^ 53" using can by simp
  then have "(of_int m :: real) < of_int (2 ^ 53)" by (simp only: of_int_less_iff)
  then have "(of_int m :: real) < 9007199254740992" by simp
  then have v: "?v < 9007199254740992 * ?u" using u by (intro mult_strict_right_mono) auto
  show ?thesis
  proof (rule round_real_near [OF can])
    have "20000000000000000 * \<bar>of_int c * ?t - ?v\<bar> \<le> ?v" using dist by simp
    then show "\<bar>of_int c * ?t - ?v\<bar> < ?u / 2" using v u by (rule half_gap)
    assume "m = 2 ^ 52"
    then have "?v = 4503599627370496 * ?u" by simp
    moreover have "20000000000000000 * \<bar>of_int c * ?t - ?v\<bar> \<le> ?v" using dist by simp
    ultimately have "\<bar>of_int c * ?t - ?v\<bar> < ?u / 4" using u by (intro quarter_gap)
    then have "- (of_int c * ?t - ?v) < ?u / 4" by (rule le_less_trans [OF abs_ge_minus_self])
    then show "?v - of_int c * ?t < ?u / 4" by (simp only: minus_diff_eq)
  qed
qed

section \<open>The shortest digits read back\<close>

definition float_ratio :: "int \<Rightarrow> int \<Rightarrow> real" where
  "float_ratio m e = of_int (scale2 m e) / of_int (fin_den e)"

lemma float_ratio_value: "float_ratio m e = of_int m * 2 powi e"
  by (simp add: float_ratio_def scale2_real)

lemma closest_of_two:
  fixes a b lo :: int
  assumes "0 < b" and "lo = a div b"
  shows "a - lo * b \<le> (lo + 1) * b - a \<Longrightarrow> \<bar>of_int lo - of_int a / of_int b\<bar> \<le> (1 / 2 :: real)"
    and "\<not> a - lo * b < (lo + 1) * b - a \<Longrightarrow> \<bar>of_int (lo + 1) - of_int a / of_int b\<bar> \<le> (1 / 2 :: real)"
proof -
  have b: "0 < (of_int b :: real)" using assms by simp
  let ?y = "of_int a / of_int b :: real"
  have y: "of_int a = ?y * of_int b" using b by simp
  have f: "of_int lo \<le> ?y" "?y < of_int lo + 1" using floor_bounds [OF assms(1), of a] assms(2) by auto
  have diff: "(of_int (a - lo * b) :: real) = (?y - of_int lo) * of_int b"
    "(of_int ((lo + 1) * b - a) :: real) = (of_int lo + 1 - ?y) * of_int b"
    using b by (simp_all add: field_simps)
  {
    assume "a - lo * b \<le> (lo + 1) * b - a"
    then have "(of_int (a - lo * b) :: real) \<le> of_int ((lo + 1) * b - a)" by (simp only: of_int_le_iff)
    then have "?y - of_int lo \<le> of_int lo + 1 - ?y" unfolding diff using b by (simp only: mult_le_cancel_right_pos)
    then show "\<bar>of_int lo - ?y\<bar> \<le> 1 / 2" using f by linarith
  next
    assume "\<not> a - lo * b < (lo + 1) * b - a"
    then have "(of_int ((lo + 1) * b - a) :: real) \<le> of_int (a - lo * b)" by (simp only: of_int_le_iff not_less)
    then have "of_int lo + 1 - ?y \<le> ?y - of_int lo" unfolding diff using b by (simp only: mult_le_cancel_right_pos)
    then show "\<bar>of_int (lo + 1) - ?y\<bar> \<le> 1 / 2" using f by simp
  }
qed

lemma candidates_17:
  assumes can: "canonical (Fin False m e)" "0 < m" and k: "k = dec_exp (scale2 m e) (fin_den e)"
  shows "candidates (Fin False m e) (scale2 m e) (fin_den e) k 17 \<noteq> []"
proof -
  let ?p = "scale2 m e" and ?q = "fin_den e"
  let ?a = "scale10 ?p (17 - k)" and ?b = "scale10 ?q (k - 17)"
  let ?lo = "?a div ?b"
  let ?c = "if ?a - ?lo * ?b < (?lo + 1) * ?b - ?a \<or> (?a - ?lo * ?b = (?lo + 1) * ?b - ?a \<and> even ?lo)
            then ?lo else ?lo + 1"
  have p: "0 < ?p" using can(2) by (rule scale2_pos)
  have b: "0 < ?b" by (rule scale10_pos) simp
  have y: "of_int ?a / of_int ?b = (of_int m * 2 powi e * 10 powi (17 - k) :: real)"
    using scale10_quotient [of ?q ?p "17 - k"] by (simp add: scale2_real)
  have "0 \<le> ?a" using p by (simp add: scale10_def)
  then have c0: "0 \<le> ?c" using b by (simp add: pos_imp_zdiv_nonneg_iff)
  have "\<bar>of_int ?c - of_int m * 2 powi e * 10 powi (17 - k)\<bar> \<le> (1 / 2 :: real)"
    using closest_of_two [OF b refl, of ?a] unfolding y by auto
  moreover have "is_log10 (of_int m * 2 powi e) k"
    using dec_exp_log10 [OF p, of ?q] by (simp add: k scale2_real)
  ultimately have "round_real False (of_int ?c * 10 powi (k - 17)) = Fin False m e"
    by (intro seventeen_digits [OF can])
  then have "flt_of_decimal False ?c (k - 17) = Fin False m e"
    using flt_of_decimal_real [OF c0] by simp
  then show ?thesis
    by (auto simp: candidates_def Let_def filter_empty_conv)
qed

lemma candidates_read: "c \<in> set (candidates x p q k n) \<Longrightarrow> flt_of_decimal False c (k - int n) = x"
  by (auto simp: candidates_def Let_def)

lemma candidates_nonneg: "0 < p \<Longrightarrow> 0 < q \<Longrightarrow> c \<in> set (candidates x p q k n) \<Longrightarrow> 0 \<le> c"
proof -
  assume "0 < p" "0 < q" "c \<in> set (candidates x p q k n)"
  moreover from this have "0 \<le> scale10 p (int n - k) div scale10 q (k - int n)"
    using scale10_pos [of q "k - int n"] by (simp add: pos_imp_zdiv_nonneg_iff scale10_def)
  ultimately show ?thesis
    by (auto simp: candidates_def Let_def split: if_splits)
qed

lemma shortest_reads:
  assumes "candidates x p q k 17 \<noteq> []" and "0 < p" and "0 < q" and "n \<le> 17"
    and "shortest x p q k n = (c, n')"
  shows "0 \<le> c \<and> flt_of_decimal False c (k - int n') = x"
  using assms
proof (induction x p q k n rule: shortest.induct)
  case (1 x p q k n)
  show ?case
  proof (cases "candidates x p q k n")
    case Nil
    then have "n \<noteq> 17" using "1.prems"(1) by auto
    with "1.prems"(4) have "n < 17" by simp
    moreover from this have "shortest x p q k (n + 1) = (c, n')"
      using "1.prems"(5) Nil by (subst (asm) shortest.simps) simp
    ultimately show ?thesis using "1.IH" [OF Nil] "1.prems" by simp
  next
    case (Cons c' cs)
    then have "c' = c" "n' = n" using "1.prems"(5) by (simp_all add: shortest.simps)
    moreover have "c' \<in> set (candidates x p q k n)" using Cons by simp
    ultimately show ?thesis using candidates_read candidates_nonneg "1.prems"(2,3) by blast
  qed
qed

section \<open>Reading the text back\<close>

text \<open>The characters of a formatted number.\<close>

definition number_char :: "nat \<Rightarrow> bool" where
  "number_char c \<longleftrightarrow> is_digit c \<or> c = 46 \<or> c = 101 \<or> c = 43 \<or> c = 45"

lemma us_ok_plain: "prev \<noteq> 95 \<Longrightarrow> 95 \<notin> set s \<Longrightarrow> us_ok prev s"
  by (induction s arbitrary: prev) auto

lemma float_of_number_text:
  assumes chars: "list_all number_char body" and first: "body = c # r" "is_digit c"
  shows "float_of_str ((if neg then [45] else []) @ body) = option_or (parse_decimal neg body) ValueError"
proof -
  let ?s = "(if neg then [45] else []) @ body"
  have all: "list_all number_char ?s" using chars by (simp add: number_char_def)
  moreover have "number_char d \<Longrightarrow> 32 < d \<and> d < 127" for d
    by (auto simp: number_char_def is_digit_def)
  ultimately have "plain_text ?s"
    by (auto simp: plain_text_def list_all_iff)
  then have plain: "number_text ?s = ?s" by (rule number_text_plain)
  have no_us: "95 \<notin> set ?s"
  proof
    assume "95 \<in> set ?s"
    then have "number_char 95" using all by (simp only: list_all_iff)
    then show False by (simp add: number_char_def is_digit_def)
  qed
  then have filt: "filter (\<lambda>c. c \<noteq> 95) ?s = ?s" by (intro filter_True) auto
  have sign: "split_sign ?s = (neg, body)"
    using first by (auto simp: split_sign_def is_digit_def)
  have "hd (map lower body) = c" using first by (simp add: lower_def is_digit_def)
  then have "map lower body \<noteq> u ''inf''" "map lower body \<noteq> u ''infinity''" "map lower body \<noteq> u ''nan''"
    using first(2) by (auto simp: u_def is_digit_def)
  then show ?thesis
    using us_ok_plain [OF _ no_us, of 0] by (simp only: float_of_str_def plain filt sign Let_def prod.case) simp
qed

lemma digits_then:
  assumes "list_all is_digit ds" and "r = [] \<or> \<not> is_digit (hd r)"
  shows "takeWhile is_digit (ds @ r) = ds" and "dropWhile is_digit (ds @ r) = r"
  using assms by (cases r; simp add: list_all_iff)+

lemma parse_fraction:
  assumes "list_all is_digit ip" "list_all is_digit fp" "ip \<noteq> []"
    and "r = [] \<or> (\<exists>r'. r = 101 # r')" and "parse_exponent r = Some k"
  shows "parse_decimal neg (ip @ 46 # fp @ r) =
    Some (flt_of_decimal neg (digits_val (ip @ fp)) (k - int (length fp)))"
proof -
  have "takeWhile is_digit (ip @ 46 # fp @ r) = ip" "dropWhile is_digit (ip @ 46 # fp @ r) = 46 # fp @ r"
    using digits_then [OF assms(1), of "46 # fp @ r"] by (simp_all add: is_digit_def)
  moreover have "takeWhile is_digit (fp @ r) = fp" "dropWhile is_digit (fp @ r) = r"
    using digits_then [OF assms(2), of r] assms(4) by (auto simp: is_digit_def)
  ultimately show ?thesis using assms(3,5) by (simp add: parse_decimal_def)
qed

lemma parse_whole:
  assumes "list_all is_digit ip" "ip \<noteq> []" and "parse_exponent (101 # r) = Some k"
  shows "parse_decimal neg (ip @ 101 # r) = Some (flt_of_decimal neg (digits_val ip) k)"
proof -
  have "takeWhile is_digit (ip @ 101 # r) = ip" "dropWhile is_digit (ip @ 101 # r) = 101 # r"
    using digits_then [OF assms(1), of "101 # r"] by (simp_all add: is_digit_def)
  then show ?thesis using assms(2,3) by (simp add: parse_decimal_def)
qed

lemma digits_val_append: "digits_val (a @ b) = digits_val a * 10 ^ length b + digits_val b"
  by (induction b rule: rev_induct) (simp_all add: digits_val_snoc append_assoc [symmetric] algebra_simps del: append_assoc)

lemma zeros_digits [simp]: "list_all is_digit (zeros n)" "digits_val (zeros n) = 0" "length (zeros n) = n"
proof -
  show "digits_val (zeros n) = 0"
    by (induction n) (simp_all add: zeros_def digits_val_def)
qed (simp_all add: zeros_def is_digit_def list_all_iff)

lemma digits_val_Cons0 [simp]: "digits_val (48 # ds) = digits_val ds"
  by (simp add: digits_val_def)

definition exp_digits :: "int \<Rightarrow> pystr" where
  "exp_digits j = (if length (dec_digits \<bar>j\<bar>) < 2 then 48 # dec_digits \<bar>j\<bar> else dec_digits \<bar>j\<bar>)"

lemma exp_digits_props: "list_all is_digit (exp_digits j)" "digits_val (exp_digits j) = \<bar>j\<bar>" "exp_digits j \<noteq> []"
  using dec_digits_props [of "\<bar>j\<bar>"] by (simp_all add: exp_digits_def is_digit_def)

lemma exp_str_eq: "exp_str j = 101 # (if j < 0 then 45 else 43) # exp_digits j"
  by (simp add: exp_str_def exp_digits_def u_def Let_def)

lemma parse_exponent_exp_str: "parse_exponent (exp_str j) = Some j"
  using exp_digits_props [of j] by (simp add: exp_str_eq parse_exponent_def split_sign_def)

lemma exp_str_chars: "list_all number_char (exp_str j)"
  using exp_digits_props(1) [of j] by (auto simp: exp_str_eq number_char_def list_all_iff)

lemma digits_chars: "list_all is_digit ds \<Longrightarrow> list_all number_char ds"
  by (auto simp: number_char_def list_all_iff)

text \<open>The text of the digits \<open>ds\<close> with the point after the first \<open>k\<close> is read as \<open>0.ds * 10^k\<close>.\<close>

lemma format_digits_reads:
  assumes ds: "list_all is_digit ds" "ds \<noteq> []"
  shows "float_of_str ((if neg then [45] else []) @ format_digits ds k) =
    Inr (round_real neg (of_int (digits_val ds) * 10 powi (k - int (length ds))))"
proof -
  let ?n = "int (length ds)"
  have dv: "0 \<le> digits_val ds" by (rule digits_val_nonneg [OF ds(1)])
  have hd_digit: "\<exists>c r. ds @ t = c # r \<and> is_digit c" for t
    using ds by (cases ds) auto
  have reads: "float_of_str ((if neg then [45] else []) @ body) =
      Inr (round_real neg (of_int (digits_val ds) * 10 powi (k - ?n)))"
    if chars: "list_all number_char body" and first: "\<exists>c r. body = c # r \<and> is_digit c"
      and parsed: "parse_decimal neg body = Some (flt_of_decimal neg d j)" and d: "0 \<le> d"
      and val: "of_int d * (10::real) powi j = of_int (digits_val ds) * 10 powi (k - ?n)" for body d j
  proof -
    obtain c r where "body = c # r" "is_digit c" using first by blast
    from float_of_number_text [OF chars this, of neg] parsed val show ?thesis
      by (simp add: flt_of_decimal_real [OF d])
  qed
  consider (small) "- 4 < k" "k \<le> 0" | (whole) "0 < k" "k \<le> 16" "?n \<le> k"
    | (point) "0 < k" "k \<le> 16" "k < ?n" | (sci) "\<not> (- 4 < k \<and> k \<le> 16)"
    by linarith
  then show ?thesis
  proof cases
    case small
    let ?z = "zeros (nat (- k))"
    have eq: "format_digits ds k = [48] @ 46 # (?z @ ds) @ []"
      using small by (simp add: format_digits_def u_def Let_def)
    have "parse_decimal neg ([48] @ 46 # (?z @ ds) @ []) =
        Some (flt_of_decimal neg (digits_val ([48] @ ?z @ ds)) (0 - int (length (?z @ ds))))"
      using ds by (intro parse_fraction) (auto simp: is_digit_def parse_exponent_def)
    then show ?thesis
      unfolding eq using ds(1) small dv
      by (intro reads [where d = "digits_val ds" and j = "k - ?n"])
        (simp_all add: number_char_def digits_chars is_digit_def digits_val_append)
  next
    case whole
    let ?z = "zeros (nat (k - ?n))"
    have eq: "format_digits ds k = (ds @ ?z) @ 46 # [48] @ []"
      using whole by (simp add: format_digits_def u_def Let_def)
    have p: "parse_decimal neg ((ds @ ?z) @ 46 # [48] @ []) =
        Some (flt_of_decimal neg (digits_val ((ds @ ?z) @ [48])) (0 - int (length [48 :: nat])))"
      using ds by (intro parse_fraction) (auto simp: is_digit_def parse_exponent_def)
    have d: "digits_val ((ds @ ?z) @ [48]) = digits_val ds * 10 ^ nat (k - ?n) * 10"
      by (simp only: digits_val_append zeros_digits) (simp add: digits_val_def)
    have v: "of_int (digits_val ds * 10 ^ nat (k - ?n) * 10) * (10::real) powi - 1
        = of_int (digits_val ds) * 10 powi (k - ?n)"
      using whole by (simp add: power_int_def)
    have p': "parse_decimal neg ((ds @ ?z) @ 46 # [48] @ []) =
        Some (flt_of_decimal neg (digits_val ds * 10 ^ nat (k - ?n) * 10) (- 1))"
      using p unfolding d by simp
    show ?thesis
      unfolding eq
    proof (rule reads [OF _ _ p' _ v])
      show "list_all number_char ((ds @ ?z) @ 46 # [48] @ [])"
        using ds(1) by (simp add: number_char_def digits_chars is_digit_def)
      show "\<exists>c r. (ds @ ?z) @ 46 # [48] @ [] = c # r \<and> is_digit c"
        using hd_digit [of "?z @ 46 # [48] @ []"] by simp
    qed (use dv in simp)
  next
    case point
    let ?a = "take (nat k) ds" and ?b = "drop (nat k) ds"
    have split: "list_all is_digit ?a" "list_all is_digit ?b" "?a \<noteq> []"
      using ds point by (auto simp: list_all_iff dest: in_set_takeD in_set_dropD)
    have eq: "format_digits ds k = ?a @ 46 # ?b @ []"
      using point by (simp add: format_digits_def u_def Let_def)
    have "parse_decimal neg (?a @ 46 # ?b @ []) =
        Some (flt_of_decimal neg (digits_val (?a @ ?b)) (0 - int (length ?b)))"
      using split by (intro parse_fraction) (auto simp: parse_exponent_def)
    moreover have "0 - int (length ?b) = k - ?n" using point by simp
    moreover have "\<exists>c r. ?a @ 46 # ?b @ [] = c # r \<and> is_digit c"
      using split by (cases ?a) auto
    ultimately show ?thesis
      unfolding eq using split dv
      by (intro reads [where d = "digits_val ds" and j = "k - ?n"])
        (simp_all add: number_char_def digits_chars)
  next
    case sci
    obtain c r where cr: "ds = c # r" "is_digit c" "list_all is_digit r" using ds by (cases ds) auto
    obtain x where x: "exp_str (k - 1) = 101 # x" by (simp add: exp_str_eq)
    have body: "format_digits ds k = (if r = [] then [c] @ exp_str (k - 1) else [c] @ 46 # r @ exp_str (k - 1))"
      unfolding format_digits_def Let_def if_not_P [OF sci] using cr by (simp add: u_def)
    have "parse_decimal neg (format_digits ds k) = Some (flt_of_decimal neg (digits_val ds) (k - ?n))"
    proof (cases "r = []")
      case True
      have "parse_decimal neg ([c] @ 101 # x) = Some (flt_of_decimal neg (digits_val [c]) (k - 1))"
        using cr parse_exponent_exp_str [of "k - 1"] x by (intro parse_whole) auto
      then show ?thesis using True body x cr by simp
    next
      case False
      have "parse_decimal neg ([c] @ 46 # r @ exp_str (k - 1)) =
          Some (flt_of_decimal neg (digits_val ([c] @ r)) (k - 1 - int (length r)))"
        using cr parse_exponent_exp_str [of "k - 1"] x by (intro parse_fraction) auto
      moreover have "k - 1 - int (length r) = k - ?n" using cr by simp
      ultimately show ?thesis using False body cr by simp
    qed
    moreover have "list_all number_char (format_digits ds k)"
      using body cr exp_str_chars [of "k - 1"] digits_chars [OF cr(3)] by (simp add: number_char_def)
    ultimately show ?thesis
      using cr body dv
      by (intro reads [where d = "digits_val ds" and j = "k - ?n"]) simp_all
  qed
qed

section \<open>The round trip\<close>

lemma strip_zeros_split: "\<exists>t. ds = strip_zeros ds @ zeros t"
proof -
  have "rev ds = takeWhile (\<lambda>c. c = 48) (rev ds) @ dropWhile (\<lambda>c. c = 48) (rev ds)" by simp
  moreover have "takeWhile (\<lambda>c. c = 48) (rev ds) = zeros (length (takeWhile (\<lambda>c. c = 48) (rev ds)))"
    unfolding zeros_def by (rule replicate_eqI [symmetric, THEN sym]) (auto dest: set_takeWhileD)
  ultimately have "rev (rev ds) = rev (dropWhile (\<lambda>c. c = 48) (rev ds))
      @ rev (zeros (length (takeWhile (\<lambda>c. c = 48) (rev ds))))"
    by (metis rev_append)
  moreover have "rev (zeros n) = zeros n" for n by (simp add: zeros_def)
  ultimately show ?thesis by (auto simp: strip_zeros_def)
qed

lemma shift_zeros:
  fixes a c :: int and x :: real
  shows "c = a * 10 ^ t \<Longrightarrow> of_int a * (x * 10 powi int t) = of_int c * x"
  by simp

lemma dec_digits_head: "0 < n \<Longrightarrow> hd (dec_digits n) \<noteq> 48"
proof (induction n rule: dec_digits.induct)
  case (1 n)
  show ?case
  proof (cases "n < 10")
    case True
    with 1(2) show ?thesis by (simp add: dec_digits.simps [of n])
  next
    case False
    then have "dec_digits (n div 10) \<noteq> []" by (intro dec_digits_props(3)) simp
    with False 1 show ?thesis by (simp add: dec_digits.simps [of n])
  qed
qed

lemma float_repr_finite:
  assumes can: "canonical (Fin s m e)" and m: "0 < m"
  shows "\<exists>ds k. float_repr (Fin s m e) = (if s then [45] else []) @ format_digits ds k
    \<and> list_all is_digit ds \<and> ds \<noteq> [] \<and> hd ds \<noteq> 48
    \<and> round_real s (of_int (digits_val ds) * 10 powi (k - int (length ds))) = Fin s m e"
proof -
  let ?p = "scale2 m e" and ?q = "fin_den e"
  let ?k = "dec_exp ?p ?q"
  obtain c n where cn: "shortest (Fin False m e) ?p ?q ?k 1 = (c, n)" by fastforce
  have can': "canonical (Fin False m e)" using can by simp
  have c: "0 \<le> c" "flt_of_decimal False c (?k - int n) = Fin False m e"
    using shortest_reads [OF candidates_17 [OF can' m refl] scale2_pos [OF m] fin_den_pos _ cn] by auto
  let ?ds = "dec_digits c" and ?z = "strip_zeros (dec_digits c)"
  note d = dec_digits_props [OF c(1)]
  obtain t where t: "?ds = ?z @ zeros t" using strip_zeros_split by blast
  have z: "list_all is_digit ?z" using d(1) by (subst (asm) t) simp
  have val: "c = digits_val ?z * 10 ^ t"
    using d(2) by (subst (asm) t) (simp add: digits_val_append)
  have "c \<noteq> 0"
  proof
    assume "c = 0"
    then have "Fin False m e = Fin False 0 (- 1074)"
      using c by (simp add: flt_of_decimal_real round_real_def)
    with m show False by simp
  qed
  then have ne: "?z \<noteq> []" using val by auto
  have "hd ?z = hd ?ds" using ne by (subst t) simp
  then have head: "hd ?z \<noteq> 48" using dec_digits_head [of c] c(1) \<open>c \<noteq> 0\<close> by simp
  let ?K = "?k + int (length ?ds) - int n"
  have len: "length ?ds = length ?z + t" by (subst t) simp
  have K: "?K - int (length ?z) = (?k - int n) + int t" by (simp add: len)
  have "of_int (digits_val ?z) * (10::real) powi (?K - int (length ?z))
      = of_int (digits_val ?z) * (10 powi (?k - int n) * 10 powi int t)"
    unfolding K by (simp only: power_int_add [OF disjI1, of "10::real", simplified])
  also have "\<dots> = of_int c * 10 powi (?k - int n)"
    by (rule shift_zeros [OF val])
  finally have eq: "of_int (digits_val ?z) * (10::real) powi (?K - int (length ?z)) = of_int c * 10 powi (?k - int n)" .
  have "round_real False (of_int c * 10 powi (?k - int n)) = Fin False m e"
    using c(2) unfolding flt_of_decimal_real [OF c(1)] .
  then have "round_real s (of_int c * 10 powi (?k - int n)) = Fin s m e" by (rule round_real_flip)
  then have "round_real s (of_int (digits_val ?z) * 10 powi (?K - int (length ?z))) = Fin s m e"
    unfolding eq .
  moreover have "float_repr (Fin s m e) = (if s then [45] else []) @ format_digits ?z ?K"
    using m by (simp add: cn [unfolded One_nat_def] Let_def) (simp add: u_def)
  ultimately show ?thesis using z ne head by blast
qed

theorem float_of_str_repr:
  assumes "canonical x"
  shows "float_of_str (float_repr x) = Inr x"
proof (cases x)
  case (Fin s m e)
  show ?thesis
  proof (cases "m = 0")
    case True
    with assms Fin have e: "e = - 1074" by simp
    have "float_of_str ((if s then [45] else []) @ [48, 46, 48])
        = option_or (parse_decimal s [48, 46, 48]) ValueError"
      by (rule float_of_number_text [where c = 48 and r = "[46, 48]"])
        (simp_all add: number_char_def is_digit_def)
    moreover have "parse_decimal s [48, 46, 48] = Some (Fin s 0 (- 1074))"
      by (simp add: parse_decimal_def is_digit_def parse_exponent_def digits_val_def
          flt_of_decimal_def round_ratio_def)
    ultimately show ?thesis using True Fin e by (cases s) (simp_all add: u_def)
  next
    case False
    with assms Fin have m: "0 < m" by simp
    with assms Fin obtain ds k where
      "float_repr x = (if s then [45] else []) @ format_digits ds k" "list_all is_digit ds" "ds \<noteq> []"
      "round_real s (of_int (digits_val ds) * 10 powi (k - int (length ds))) = x"
      using float_repr_finite by blast
    then show ?thesis using format_digits_reads [of ds s k] by simp
  qed
next
  case (Inf s)
  then show ?thesis
    by (simp add: float_of_str_def u_def number_text_def strip_def ascii_form_def ascii_space_def
        split_sign_def lower_def is_digit_def)
next
  case NaN
  then show ?thesis
    by (simp add: float_of_str_def u_def number_text_def strip_def ascii_form_def ascii_space_def
        split_sign_def lower_def is_digit_def)
qed

section \<open>Finite floats have short integer parts\<close>

lemma dec_digits_short: "0 \<le> n \<Longrightarrow> n < 10 ^ k \<Longrightarrow> 0 < k \<Longrightarrow> length (dec_digits n) \<le> k"
proof (cases "n = 0")
  case True
  assume "0 < k"
  with True show ?thesis by (simp add: dec_digits.simps)
next
  case False
  assume n: "0 \<le> n" "n < 10 ^ k"
  with False have "(10::int) ^ (length (dec_digits n) - 1) < 10 ^ k"
    using dec_digits_length [of n] by linarith
  then have "length (dec_digits n) - 1 < k" by (simp only: power_strict_increasing_iff one_less_numeral_iff semiring_norm)
  then show ?thesis by simp
qed

lemma quotient_le:
  fixes a d :: int
  assumes "0 < d" and "0 \<le> a"
  shows "a div d \<le> a"
proof -
  have "0 \<le> a div d" using assms by (simp add: pos_imp_zdiv_nonneg_iff)
  then have "a div d * 1 \<le> a div d * d" using assms by (intro mult_left_mono) auto
  also have "\<dots> \<le> a" using div_mult_mod_eq [of a d] pos_mod_sign [OF assms(1), of a] by linarith
  finally show ?thesis by simp
qed

lemma flt_to_int_bound:
  assumes "canonical x" and "flt_to_int x = Inr n"
  shows "\<bar>n\<bar> < 10 ^ 309"
proof -
  obtain s m e where x: "x = Fin s m e" using assms(2) by (cases x) auto
  have m: "0 \<le> m" "m < 2 ^ 53" "e \<le> 971" using assms(1) x by auto
  have "scale2 m e \<le> m * 2 ^ 971"
  proof (cases "0 \<le> e")
    case True
    then have "(2::int) ^ nat e \<le> 2 ^ 971" using m(3) by (intro power_increasing) auto
    then show ?thesis using True m(1) by (simp only: scale2_def if_True mult_left_mono)
  next
    case False
    have "m * 1 \<le> m * 2 ^ 971" using m(1) by (intro mult_left_mono) auto
    then show ?thesis using False by (simp add: scale2_def)
  qed
  also have "\<dots> < 2 ^ 53 * 2 ^ 971" using m(2) by (intro mult_strict_right_mono) auto
  also have "\<dots> \<le> (10::int) ^ 309" by simp
  finally have b: "scale2 m e < 10 ^ 309" .
  have "0 \<le> scale2 m e" using m(1) by (rule scale2_nonneg)
  then have "0 \<le> scale2 m e div scale2 1 (- e)" "scale2 m e div scale2 1 (- e) \<le> scale2 m e"
    using scale2_pos [of 1 "- e"] by (simp_all add: pos_imp_zdiv_nonneg_iff quotient_le)
  with b assms(2) x show ?thesis by (auto split: if_splits)
qed

lemma str_of_float_int: "canonical x \<Longrightarrow> flt_to_int x = Inr n \<Longrightarrow> str_of_int n = Inr (int_str n)"
proof -
  assume "canonical x" "flt_to_int x = Inr n"
  then have "length (dec_digits \<bar>n\<bar>) \<le> 309"
    using flt_to_int_bound by (intro dec_digits_short) auto
  then show ?thesis by (simp add: str_of_int_def max_str_digits_def)
qed

lemma round_signed_canonical: "0 < d \<Longrightarrow> canonical (round_signed z n d)"
  by (simp add: round_signed_def round_ratio_real round_real_canonical)

lemma flt_sub_canonical: "canonical (flt_sub x y)"
  unfolding flt_sub_def
  by (cases x; cases y) (simp_all add: round_signed_canonical del: canonical.simps(1))

lemma flt_small_canonical: "canonical (flt_small n)"
  by (simp add: flt_small_def round_ratio_real round_real_canonical)

lemma flt_mul_canonical: "canonical x \<Longrightarrow> canonical y \<Longrightarrow> canonical (flt_mul x y)"
  by (cases x; cases y) (auto intro!: round_ratio_canonical mult_nonneg_nonneg scale2_nonneg)

end
