(* ===== verification/Camera.thy ===== *)
theory Camera
  imports Py_Repr_Facts
begin

text \<open>
  \<open>camera_config.py\<close> and \<open>camera_capture.py\<close>: the cameras of a layout, opening a camera in a
  requested mode and reading a frame. OpenCV is an argument; what an opened camera answers may
  depend on what was set before, so the driver threads a state of its own.
\<close>

section \<open>Layouts\<close>

datatype camera_layout = LAYOUT_OFF | LAYOUT_SINGLE | LAYOUT_THREE

text \<open>The members of the enumeration, in the order the class lists them.\<close>

instantiation camera_layout :: enum
begin

definition "enum_class.enum = [LAYOUT_OFF, LAYOUT_SINGLE, LAYOUT_THREE]"

definition "enum_class.enum_all P \<longleftrightarrow> P LAYOUT_OFF \<and> P LAYOUT_SINGLE \<and> P LAYOUT_THREE"

definition "enum_class.enum_ex P \<longleftrightarrow> P LAYOUT_OFF \<or> P LAYOUT_SINGLE \<or> P LAYOUT_THREE"

instance
proof
  show members: "(UNIV :: camera_layout set) = set Enum.enum"
    unfolding enum_camera_layout_def using camera_layout.exhaust by auto
  show "distinct (Enum.enum :: camera_layout list)" by (simp add: enum_camera_layout_def)
  show "Enum.enum_all P \<longleftrightarrow> Ball UNIV P" "Enum.enum_ex P \<longleftrightarrow> Bex UNIV P" for P :: "camera_layout \<Rightarrow> bool"
    unfolding members
    by (simp_all add: enum_camera_layout_def enum_all_camera_layout_def enum_ex_camera_layout_def)
qed

end

definition layout_text :: "camera_layout \<Rightarrow> pystr" where
  "layout_text l =
     (case l of LAYOUT_OFF \<Rightarrow> u ''off'' | LAYOUT_SINGLE \<Rightarrow> u ''single'' | LAYOUT_THREE \<Rightarrow> u ''three'')"

text \<open>\<open>CameraLayout(text)\<close>\<close>

definition camera_layout_of :: "pystr \<Rightarrow> camera_layout res" where
  "camera_layout_of t =
     (if t = layout_text LAYOUT_OFF then Inr LAYOUT_OFF
      else if t = layout_text LAYOUT_SINGLE then Inr LAYOUT_SINGLE
      else if t = layout_text LAYOUT_THREE then Inr LAYOUT_THREE else Inl ValueError)"

lemma camera_layout_of_text: "camera_layout_of (layout_text l) = Inr l"
  by (cases l) (simp_all add: camera_layout_of_def layout_text_def)

record camera_config =
  cam_name :: pystr
  cam_index :: int

record camera_options =
  layout :: camera_layout
  opt_width :: int
  opt_height :: int
  opt_fps :: int

definition default_options :: camera_options where
  "default_options = \<lparr>layout = LAYOUT_OFF, opt_width = 0, opt_height = 0, opt_fps = 0\<rparr>"

fun camera_configs :: "camera_layout \<Rightarrow> camera_config list" where
  "camera_configs LAYOUT_SINGLE = [\<lparr>cam_name = u ''front'', cam_index = 0\<rparr>]"
| "camera_configs LAYOUT_THREE =
     [\<lparr>cam_name = u ''left'', cam_index = 0\<rparr>, \<lparr>cam_name = u ''center'', cam_index = 1\<rparr>,
      \<lparr>cam_name = u ''right'', cam_index = 2\<rparr>]"
| "camera_configs LAYOUT_OFF = []"

section \<open>Opening a camera\<close>

record camera_format =
  fmt_width :: int
  fmt_height :: int
  fmt_fps :: pyfloat

datatype platform = Darwin | Linux | OtherPlatform

datatype backend = AVFOUNDATION | V4L2 | AnyBackend

datatype cam_prop = FRAME_WIDTH | FRAME_HEIGHT | FPS

text \<open>OpenCV's \<open>VideoCapture\<close>, over a driver state \<open>'d\<close>.\<close>

record ('c, 'd) cv =
  cv_open :: "int \<Rightarrow> backend \<Rightarrow> 'd \<Rightarrow> 'd \<times> 'c res"
  cv_is_opened :: "'c \<Rightarrow> 'd \<Rightarrow> bool"
  cv_set :: "'c \<Rightarrow> cam_prop \<Rightarrow> int \<Rightarrow> 'd \<Rightarrow> 'd \<times> unit res"
  cv_get :: "'c \<Rightarrow> cam_prop \<Rightarrow> 'd \<Rightarrow> pyfloat res"

definition backend_of :: "platform \<Rightarrow> backend" where
  "backend_of p = (case p of Darwin \<Rightarrow> AVFOUNDATION | Linux \<Rightarrow> V4L2 | OtherPlatform \<Rightarrow> AnyBackend)"

definition open_camera :: "('c, 'd) cv \<Rightarrow> platform \<Rightarrow> int \<Rightarrow> 'd \<Rightarrow> 'd \<times> 'c res" where
  "open_camera cv p index d =
     (case cv_open cv index (backend_of p) d of
        (d', Inl e) \<Rightarrow> (d', Inl e)
      | (d', Inr camera) \<Rightarrow>
          (d', if cv_is_opened cv camera d' then Inr camera else Inl (RuntimeError ''cannot open camera'')))"

definition request_mode ::
  "('c, 'd) cv \<Rightarrow> 'c \<Rightarrow> int \<Rightarrow> int \<Rightarrow> int \<Rightarrow> 'd \<Rightarrow> 'd \<times> unit res" where
  "request_mode cv camera w h fps d =
     (let set_fps = (\<lambda>d. if 0 < fps then cv_set cv camera FPS fps d else (d, Inr ()))
      in if 0 < w \<and> 0 < h then
           (case cv_set cv camera FRAME_WIDTH w d of
              (d1, Inl e) \<Rightarrow> (d1, Inl e)
            | (d1, Inr _) \<Rightarrow>
                (case cv_set cv camera FRAME_HEIGHT h d1 of
                   (d2, Inl e) \<Rightarrow> (d2, Inl e)
                 | (d2, Inr _) \<Rightarrow> set_fps d2))
         else set_fps d)"

text \<open>\<open>fps if fps > 0 else float(requested_fps or 30)\<close>\<close>

definition actual_fps :: "pyfloat \<Rightarrow> int \<Rightarrow> pyfloat res" where
  "actual_fps reported requested =
     (if int_lt_flt 0 reported then Inr reported
      else flt_of_int (if requested = 0 then 30 else requested))"

definition accepted_format ::
  "int \<Rightarrow> int \<Rightarrow> int \<Rightarrow> pyfloat res \<Rightarrow> pyfloat res \<Rightarrow> pyfloat res \<Rightarrow> camera_format res" where
  "accepted_format w h fps got_w got_h got_fps =
     rbind (rbind got_w flt_to_int) (\<lambda>width.
     rbind (rbind got_h flt_to_int) (\<lambda>height.
     rbind got_fps (\<lambda>reported.
     if width \<le> 0 \<or> height \<le> 0 then Inl (RuntimeError ''camera returned an invalid frame size'')
     else if width mod 2 \<noteq> 0 \<or> height mod 2 \<noteq> 0
     then Inl (RuntimeError ''camera returned odd frame size'')
     else if 0 < w \<and> 0 < h \<and> (width \<noteq> w \<or> height \<noteq> h)
     then Inl (RuntimeError ''camera rejected requested mode'')
     else rbind (actual_fps reported fps) (\<lambda>rate.
       Inr \<lparr>fmt_width = width, fmt_height = height, fmt_fps = rate\<rparr>))))"

text \<open>
  The outcome names the camera the function has opened and whether it released it again.
\<close>

datatype 'c opened =
    Opened 'c camera_format
  | NotOpened py_error
  | Released 'c py_error
  | Abandoned 'c py_error

definition open_configured_camera ::
  "('c, 'd) cv \<Rightarrow> platform \<Rightarrow> int \<Rightarrow> int \<Rightarrow> int \<Rightarrow> int \<Rightarrow> 'd \<Rightarrow> 'd \<times> 'c opened" where
  "open_configured_camera cv p index w h fps d =
     (case open_camera cv p index d of
        (d1, Inl e) \<Rightarrow> (d1, NotOpened e)
      | (d1, Inr camera) \<Rightarrow>
          (case request_mode cv camera w h fps d1 of
             (d2, r) \<Rightarrow>
               (d2,
                case rbind r (\<lambda>_. accepted_format w h fps (cv_get cv camera FRAME_WIDTH d2)
                                   (cv_get cv camera FRAME_HEIGHT d2) (cv_get cv camera FPS d2)) of
                  Inr f \<Rightarrow> Opened camera f
                | Inl e \<Rightarrow> if is_Exception e then Released camera e else Abandoned camera e)))"

section \<open>Frames\<close>

record 'f frame =
  frame_rows :: int
  frame_cols :: int
  frame_data :: 'f

definition read_i420_frame ::
  "('f frame \<Rightarrow> 'g res) \<Rightarrow> (bool \<times> 'f frame option) res \<Rightarrow> int \<Rightarrow> int \<Rightarrow> 'g option res" where
  "read_i420_frame to_i420 got width height =
     rbind got (\<lambda>(ok, frame).
       case frame of
         None \<Rightarrow> Inr None
       | Some f \<Rightarrow>
           if \<not> ok then Inr None
           else if frame_cols f \<noteq> width \<or> frame_rows f \<noteq> height
           then Inl (RuntimeError ''camera returned a frame of another size'')
           else rbind (to_i420 f) (\<lambda>g. Inr (Some g)))"

end
