(* ===== verification/Video_State.thy ===== *)
theory Video_State
  imports Prelude
begin

text \<open>
  \<open>video_state.py\<close>: the video mode, its encoding profiles and the manager that switches modes.
  A mode is an enumeration of text values, so it can be looked up by its text.
\<close>

datatype video_mode = STANDBY | ACTIVE

instantiation video_mode :: linorder
begin

definition less_eq_video_mode :: "video_mode \<Rightarrow> video_mode \<Rightarrow> bool" where
  "less_eq_video_mode a b \<longleftrightarrow> a = STANDBY \<or> b = ACTIVE"

definition less_video_mode :: "video_mode \<Rightarrow> video_mode \<Rightarrow> bool" where
  "less_video_mode a b \<longleftrightarrow> a = STANDBY \<and> b = ACTIVE"

instance
proof
  fix a b c :: video_mode
  show "a < b \<longleftrightarrow> a \<le> b \<and> \<not> b \<le> a"
    by (cases a; cases b) (simp_all add: less_eq_video_mode_def less_video_mode_def)
  show "a \<le> a" by (cases a) (simp_all add: less_eq_video_mode_def)
  show "a \<le> b \<or> b \<le> a" by (cases a) (simp_all add: less_eq_video_mode_def)
  show "a \<le> b \<Longrightarrow> b \<le> a \<Longrightarrow> a = b" by (cases a; cases b) (simp_all add: less_eq_video_mode_def)
  show "a \<le> b \<Longrightarrow> b \<le> c \<Longrightarrow> a \<le> c" by (cases b) (auto simp: less_eq_video_mode_def)
qed

end

definition mode_text :: "video_mode \<Rightarrow> pystr" where
  "mode_text m = (case m of STANDBY \<Rightarrow> u ''STANDBY'' | ACTIVE \<Rightarrow> u ''ACTIVE'')"

text \<open>\<open>VideoMode(text)\<close>; a member is its own text, so it is passed as one.\<close>

definition video_mode_of :: "pystr \<Rightarrow> video_mode res" where
  "video_mode_of t =
     (if t = mode_text STANDBY then Inr STANDBY
      else if t = mode_text ACTIVE then Inr ACTIVE else Inl ValueError)"

record video_profile =
  profile_width :: int
  profile_height :: int
  profile_fps :: int
  bitrate_bps :: int

definition default_standby :: video_profile where
  "default_standby = \<lparr>profile_width = 640, profile_height = 360, profile_fps = 1, bitrate_bps = 100000\<rparr>"

definition default_active :: video_profile where
  "default_active = \<lparr>profile_width = 1280, profile_height = 720, profile_fps = 20, bitrate_bps = 1500000\<rparr>"

record video_manager =
  profiles :: "video_mode \<Rightarrow> video_profile"
  mode :: video_mode

definition new_video_manager :: "video_profile \<Rightarrow> video_profile \<Rightarrow> video_manager" where
  "new_video_manager standby active =
     \<lparr>profiles = (\<lambda>m. case m of STANDBY \<Rightarrow> standby | ACTIVE \<Rightarrow> active), mode = STANDBY\<rparr>"

definition profile :: "video_manager \<Rightarrow> video_profile" where
  "profile v = profiles v (mode v)"

definition set_mode :: "pystr \<Rightarrow> video_manager \<Rightarrow> video_manager \<times> video_profile res" where
  "set_mode t v =
     (case video_mode_of t of
        Inl e \<Rightarrow> (v, Inl e)
      | Inr m \<Rightarrow> let v' = v\<lparr>mode := m\<rparr> in (v', Inr (profile v')))"

section \<open>Switching modes\<close>

lemma video_mode_of_text: "video_mode_of (mode_text m) = Inr m"
  by (cases m) (simp_all add: video_mode_of_def mode_text_def)

lemma video_mode_of_Inr: "video_mode_of t = Inr m \<longleftrightarrow> t = mode_text m"
  by (cases m) (auto simp: video_mode_of_def mode_text_def)

text \<open>
  \<open>set_mode\<close> accepts exactly the texts of the two modes, and then the manager is in that mode and
  returns that mode's profile; any other text raises \<open>ValueError\<close> and leaves the mode as it was.
\<close>

lemma set_mode_spec:
  "set_mode t v =
     (if \<exists>m. t = mode_text m
      then (v\<lparr>mode := (if t = u ''ACTIVE'' then ACTIVE else STANDBY)\<rparr>,
            Inr (profiles v (if t = u ''ACTIVE'' then ACTIVE else STANDBY)))
      else (v, Inl ValueError))"
proof (cases "\<exists>m. t = mode_text m")
  case True
  then obtain m where t: "t = mode_text m" by blast
  have "(mode_text m = u ''ACTIVE'') = (m = ACTIVE)" by (cases m) (simp_all add: mode_text_def)
  then have "(if t = u ''ACTIVE'' then ACTIVE else STANDBY) = m" using t by (cases m) simp_all
  moreover have "set_mode t v = (v\<lparr>mode := m\<rparr>, Inr (profiles v m))"
    by (simp add: t set_mode_def video_mode_of_text profile_def Let_def)
  ultimately show ?thesis using True by (simp only: if_True)
next
  case False
  then have "t \<noteq> mode_text STANDBY" "t \<noteq> mode_text ACTIVE" by auto
  then have "set_mode t v = (v, Inl ValueError)" by (simp add: set_mode_def video_mode_of_def)
  then show ?thesis using False by (simp only: if_False)
qed

text \<open>
  With the default profiles a more demanding mode never has a smaller picture, frame rate or
  bitrate: the profile is monotone in the mode.
\<close>

lemma default_profiles_monotone:
  "mono (\<lambda>m. bitrate_bps (profiles (new_video_manager default_standby default_active) m))
   \<and> mono (\<lambda>m. profile_fps (profiles (new_video_manager default_standby default_active) m))
   \<and> mono (\<lambda>m. profile_width (profiles (new_video_manager default_standby default_active) m)
               * profile_height (profiles (new_video_manager default_standby default_active) m))"
proof -
  have "mono f" if "f STANDBY \<le> f ACTIVE" for f :: "video_mode \<Rightarrow> int"
  proof (rule monoI)
    fix a b :: video_mode
    assume "a \<le> b"
    with that show "f a \<le> f b" by (cases a; cases b) (simp_all add: less_eq_video_mode_def)
  qed
  then show ?thesis
    by (simp add: new_video_manager_def default_standby_def default_active_def)
qed

end
