(* ===== verification/Video_Publisher.thy ===== *)
theory Video_Publisher
  imports Camera Video_State World
begin

text \<open>
  \<open>LiveKitVideoPublisher\<close> of \<open>video_publisher.py\<close>: the bitrate of a track, publishing the cameras
  of a layout, the frame loop of a track, collecting the tasks that ended and closing. The
  LiveKit library is an argument. A frame task is what it does to its camera: created, inside
  the \<open>try\<close> whose \<open>finally\<close> releases the camera, or over.
\<close>

section \<open>Bitrate\<close>

text \<open>\<open>round(x)\<close>: to the nearest integer, ties to even.\<close>

fun round_float :: "pyfloat \<Rightarrow> int res" where
  "round_float (Fin s m e) = Inr ((if s then - 1 else 1) * round_half_even (scale2 m e) (fin_den e))"
| "round_float (Inf s) = Inl OverflowError"
| "round_float NaN = Inl ValueError"

definition bitrate_for_camera :: "video_profile \<Rightarrow> int \<Rightarrow> int \<Rightarrow> pyfloat \<Rightarrow> int res" where
  "bitrate_for_camera prof w h fps =
     (let baseline = profile_width prof * profile_height prof * profile_fps prof in
      rbind (flt_of_int (w * h)) (\<lambda>area.
      rbind (flt_of_int (bitrate_bps prof)) (\<lambda>bps.
      rbind (flt_of_int baseline) (\<lambda>base.
      rbind (flt_div (flt_mul bps (flt_mul area fps)) base) (\<lambda>rate.
      rbind (round_float rate) (\<lambda>n. Inr (max 1 n)))))))"

section \<open>The publisher\<close>

datatype 'c frame_task = Fresh 'c | Streaming 'c | Ended py_error

record ('c, 'p) publisher =
  pub_profile :: video_profile
  tasks :: "'c frame_task dict"
  publications :: "'p dict"

definition new_publisher :: "('c, 'p) publisher" where
  "new_publisher =
     \<lparr>pub_profile = profiles (new_video_manager default_standby default_active) ACTIVE,
      tasks = [], publications = []\<rparr>"

text \<open>The calls of the LiveKit library before the track is published.\<close>

record ('s, 't, 'o) rtc =
  video_source :: "int \<Rightarrow> int \<Rightarrow> 's res"
  create_video_track :: "pystr \<Rightarrow> 's \<Rightarrow> 't res"
  publish_options :: "int \<Rightarrow> pyfloat \<Rightarrow> 'o res"

definition track_request ::
  "('s, 't, 'o) rtc \<Rightarrow> video_profile \<Rightarrow> pystr \<Rightarrow> camera_format \<Rightarrow> ('t \<times> 'o) res" where
  "track_request rtc prof name fmt =
     rbind (video_source rtc (fmt_width fmt) (fmt_height fmt)) (\<lambda>source.
     rbind (create_video_track rtc (u ''camera-'' @ name) source) (\<lambda>track.
     rbind (bitrate_for_camera prof (fmt_width fmt) (fmt_height fmt) (fmt_fps fmt)) (\<lambda>bitrate.
     rbind (publish_options rtc bitrate (fmt_fps fmt)) (\<lambda>options. Inr (track, options)))))"

text \<open>
  One camera of \<open>start\<close> up to the suspension in \<open>publish_track\<close>: which camera was opened, whether
  it has been released again, and what is to be published.
\<close>

datatype ('c, 't, 'o) launch =
    NoCamera py_error
  | CameraFailed 'c bool py_error
  | Launched 'c camera_format 't 'o

definition requested_fps :: "camera_options \<Rightarrow> video_profile \<Rightarrow> int" where
  "requested_fps options prof = (if opt_fps options = 0 then profile_fps prof else opt_fps options)"

definition start_open ::
  "('c, 'd) cv \<Rightarrow> platform \<Rightarrow> ('s, 't, 'o) rtc \<Rightarrow> camera_options \<Rightarrow> video_profile \<Rightarrow> camera_config
    \<Rightarrow> 'd \<Rightarrow> 'd \<times> ('c, 't, 'o) launch" where
  "start_open cv p rtc options prof config d =
     (case open_configured_camera cv p (cam_index config) (opt_width options) (opt_height options)
             (requested_fps options prof) d of
        (d', NotOpened e) \<Rightarrow> (d', NoCamera e)
      | (d', Released c e) \<Rightarrow> (d', CameraFailed c True e)
      | (d', Abandoned c e) \<Rightarrow> (d', CameraFailed c False e)
      | (d', Opened c f) \<Rightarrow>
          (d', case track_request rtc prof (cam_name config) f of
                 Inl e \<Rightarrow> CameraFailed c True e
               | Inr (track, opts) \<Rightarrow> Launched c f track opts))"

text \<open>\<open>_publish_track\<close> after its suspension, when the track is published.\<close>

definition track_published :: "pystr \<Rightarrow> 'c \<Rightarrow> 'p \<Rightarrow> ('c, 'p) publisher \<Rightarrow> ('c, 'p) publisher" where
  "track_published name c publication pub =
     pub\<lparr>publications := dict_set name publication (publications pub),
         tasks := dict_set name (Fresh c) (tasks pub)\<rparr>"

text \<open>The whole of \<open>start\<close> over what it opens and releases.\<close>

record ('c, 'p, 'd) cameras =
  driver :: 'd
  publisher_of :: "('c, 'p) publisher"
  cams_opened :: "'c list"
  cams_released :: "'c list"

definition note_failed :: "'c \<Rightarrow> bool \<Rightarrow> ('c, 'p, 'd) cameras \<Rightarrow> ('c, 'p, 'd) cameras" where
  "note_failed c was_released s =
     s\<lparr>cams_opened := c # cams_opened s,
       cams_released := (if was_released then c # cams_released s else cams_released s)\<rparr>"

fun start_loop ::
  "('c, 'd) cv \<Rightarrow> platform \<Rightarrow> ('s, 't, 'o) rtc \<Rightarrow> camera_options \<Rightarrow> ('t \<Rightarrow> 'o \<Rightarrow> 'p res)
    \<Rightarrow> camera_config list \<Rightarrow> ('c, 'p, 'd) cameras \<Rightarrow> ('c, 'p, 'd) cameras \<times> unit res"
where
  "start_loop cv p rtc options publish [] s = (s, Inr ())"
| "start_loop cv p rtc options publish (config # configs) s =
     (let proceed = (\<lambda>e s'. if is_Exception e then start_loop cv p rtc options publish configs s'
                             else (s', Inl e))
      in case start_open cv p rtc options (pub_profile (publisher_of s)) config (driver s) of
           (d', NoCamera e) \<Rightarrow> proceed e (s\<lparr>driver := d'\<rparr>)
         | (d', CameraFailed c was_released e) \<Rightarrow> proceed e (note_failed c was_released (s\<lparr>driver := d'\<rparr>))
         | (d', Launched c f track opts) \<Rightarrow>
             (case publish track opts of
                Inl e \<Rightarrow> proceed e (note_failed c True (s\<lparr>driver := d'\<rparr>))
              | Inr publication \<Rightarrow>
                  start_loop cv p rtc options publish configs
                    (s\<lparr>driver := d', cams_opened := c # cams_opened s,
                       publisher_of := track_published (cam_name config) c publication (publisher_of s)\<rparr>)))"

definition start ::
  "('c, 'd) cv \<Rightarrow> platform \<Rightarrow> ('s, 't, 'o) rtc \<Rightarrow> camera_options \<Rightarrow> ('t \<Rightarrow> 'o \<Rightarrow> 'p res)
    \<Rightarrow> ('c, 'p, 'd) cameras \<Rightarrow> ('c, 'p, 'd) cameras \<times> unit res" where
  "start cv p rtc options publish s =
     start_loop cv p rtc options publish (camera_configs (layout options)) s"

section \<open>The frame loop\<close>

text \<open>
  One round: a frame is read in a thread and captured, then the deadline moves on by one
  interval. The two clock readings are those of the delay and of a deadline already missed.
\<close>

datatype pacing = CatchUp pyfloat | SleepFor pyfloat pyfloat

definition frame_round ::
  "('g \<Rightarrow> unit res) \<Rightarrow> pyfloat \<Rightarrow> pyfloat \<Rightarrow> 'g option res \<Rightarrow> pyfloat \<Rightarrow> pyfloat \<Rightarrow> pacing res" where
  "frame_round capture interval deadline got now later =
     rbind got (\<lambda>frame.
     case frame of
       None \<Rightarrow> Inl (RuntimeError ''camera stopped returning frames'')
     | Some g \<Rightarrow> rbind (capture g) (\<lambda>_.
         let next = flt_add deadline interval; delay = flt_sub next now
         in Inr (if flt_le_int delay 0 then CatchUp later else SleepFor next delay)))"

text \<open>
  The loop over the rounds so far: its deadline, or the exception that ended it, after which the
  camera is released. The sleep may be interrupted by a cancellation.
\<close>

record 'g frame_input =
  got_frame :: "'g option res"
  clock_delay :: pyfloat
  clock_missed :: pyfloat
  sleep_result :: "unit res"

fun frames_from ::
  "('g \<Rightarrow> unit res) \<Rightarrow> pyfloat \<Rightarrow> pyfloat \<Rightarrow> 'g frame_input list \<Rightarrow> pyfloat res" where
  "frames_from capture interval deadline [] = Inr deadline"
| "frames_from capture interval deadline (i # is) =
     (case frame_round capture interval deadline (got_frame i) (clock_delay i) (clock_missed i) of
        Inl e \<Rightarrow> Inl e
      | Inr (CatchUp next) \<Rightarrow> frames_from capture interval next is
      | Inr (SleepFor next delay) \<Rightarrow>
          rbind (sleep_result i) (\<lambda>_. frames_from capture interval next is))"

text \<open>\<open>1 / camera_format.fps\<close> stands before the \<open>try\<close>: a failure there would keep the camera.\<close>

definition publish_frames ::
  "('g \<Rightarrow> unit res) \<Rightarrow> camera_format \<Rightarrow> pyfloat \<Rightarrow> 'g frame_input list \<Rightarrow> bool \<times> pyfloat res" where
  "publish_frames capture fmt begun is =
     (case flt_div f1 (fmt_fps fmt) of
        Inl e \<Rightarrow> (False, Inl e)
      | Inr interval \<Rightarrow>
          (case frames_from capture interval begun is of
             Inl e \<Rightarrow> (True, Inl e)
           | Inr deadline \<Rightarrow> (False, Inr deadline)))"

section \<open>Collecting and closing\<close>

text \<open>
  One entry of the snapshot \<open>collect_finished\<close> walks over: a task that ended is dropped, and its
  publication too when it failed; the result is the publication to be withdrawn.
\<close>

definition collect_task :: "pystr \<Rightarrow> ('c, 'p) publisher \<Rightarrow> ('c, 'p) publisher \<times> 'p option" where
  "collect_task name pub =
     (case map_of (tasks pub) name of
        Some (Ended e) \<Rightarrow>
          let pub' = pub\<lparr>tasks := dict_del name (tasks pub)\<rparr>
          in if is_Exception e
             then (pub'\<lparr>publications := dict_del name (publications pub)\<rparr>, map_of (publications pub) name)
             else (pub', None)
      | _ \<Rightarrow> (pub, None))"

text \<open>
  The walk. While a withdrawal is waiting the frame tasks run on: \<open>meanwhile\<close> is what they do to
  the publisher then, and \<open>unpublish\<close> how the withdrawal ends.
\<close>

fun collect_from ::
  "('p \<Rightarrow> unit res) \<Rightarrow> ('p \<Rightarrow> ('c, 'p) publisher \<Rightarrow> ('c, 'p) publisher) \<Rightarrow> pystr list
    \<Rightarrow> ('c, 'p) publisher \<Rightarrow> ('c, 'p) publisher \<times> unit res"
where
  "collect_from unpublish meanwhile [] pub = (pub, Inr ())"
| "collect_from unpublish meanwhile (name # names) pub =
     (case collect_task name pub of
        (pub', None) \<Rightarrow> collect_from unpublish meanwhile names pub'
      | (pub', Some publication) \<Rightarrow>
          (case unpublish publication of
             Inl e \<Rightarrow>
               if is_Exception e
               then collect_from unpublish meanwhile names (meanwhile publication pub')
               else (meanwhile publication pub', Inl e)
           | Inr _ \<Rightarrow> collect_from unpublish meanwhile names (meanwhile publication pub')))"

definition collect_finished ::
  "('p \<Rightarrow> unit res) \<Rightarrow> ('p \<Rightarrow> ('c, 'p) publisher \<Rightarrow> ('c, 'p) publisher)
    \<Rightarrow> ('c, 'p) publisher \<Rightarrow> ('c, 'p) publisher \<times> unit res" where
  "collect_finished unpublish meanwhile pub =
     collect_from unpublish meanwhile (dict_keys (tasks pub)) pub"

text \<open>
  \<open>task.cancel()\<close>: a task that has not begun never runs, so its \<open>finally\<close> does not either; one
  inside the \<open>try\<close> releases its camera; one that ended stays as it is.
\<close>

fun cancel_task :: "'c frame_task \<Rightarrow> 'c frame_task \<times> 'c list" where
  "cancel_task (Fresh c) = (Ended CancelledError, [])"
| "cancel_task (Streaming c) = (Ended CancelledError, [c])"
| "cancel_task (Ended e) = (Ended e, [])"

text \<open>\<open>close\<close>, with the cameras its cancellations release.\<close>

definition close_tasks :: "('c, 'p) publisher \<Rightarrow> ('c, 'p) publisher \<times> 'c list" where
  "close_tasks pub = (pub\<lparr>tasks := []\<rparr>, concat (map (\<lambda>(_, t). snd (cancel_task t)) (tasks pub)))"

end
