(* ===== verification/Vehicle_Node.thy ===== *)
theory Vehicle_Node
  imports Session_Runtime Device_Credentials Video_Publisher
begin

text \<open>
  \<open>vehicle_node.py\<close>: obtaining the credentials and the LiveKit token, the handler of LiveKit
  data, the connection loop, and \<open>run_agent\<close> as the step relation of its tasks.
\<close>

section \<open>Requesting tokens\<close>

definition livekit_request :: "pystr \<Rightarrow> pystr \<Rightarrow> pystr \<Rightarrow> http_request" where
  "livekit_request backend_url jwt vid =
     \<lparr>req_url = backend_url @ u ''?vid='' @ vid,
      req_auth = join (u '' '') [u ''Bear'' @ u ''er'', jwt], req_timeout = 5\<rparr>"

definition request_livekit_token :: "exchange \<Rightarrow> pyval res" where
  "request_livekit_token ex =
     rbind ex (\<lambda>resp.
     rbind (body_text resp) (\<lambda>_.
     if status_code resp \<noteq> 200 then Inl (RuntimeError ''token request failed'')
     else rbind (body_json resp) (\<lambda>data.
          rbind (py_get data (u ''token'') PNone) (\<lambda>token.
          if truthy token then Inr token else Inl (RuntimeError ''no token in response'')))))"

text \<open>\<open>backend_token_url or (gateway.rstrip("/") + "/api/token/vehicle")\<close>\<close>

definition token_endpoint :: "pystr option \<Rightarrow> pystr \<Rightarrow> pystr" where
  "token_endpoint backend gateway =
     (case backend of
        Some url \<Rightarrow> if url \<noteq> [] then url else rstrip 47 gateway @ u ''/api/token/vehicle''
      | None \<Rightarrow> rstrip 47 gateway @ u ''/api/token/vehicle'')"

section \<open>Data packets\<close>

text \<open>
  Strict UTF-8 decoding of one character: a sequence that is cut short, has a wrong continuation
  byte, is longer than needed, or denotes a surrogate or no code point is refused.
\<close>

definition is_continuation :: "nat \<Rightarrow> bool" where
  "is_continuation b \<longleftrightarrow> 128 \<le> b \<and> b < 192"

fun utf8_next :: "nat \<Rightarrow> bytes \<Rightarrow> (nat \<times> bytes) option" where
  "utf8_next a r =
     (if a < 128 then Some (a, r)
      else if a < 192 then None
      else if a < 224 then
        (case r of
           b # r' \<Rightarrow>
             let c = (a - 192) * 64 + (b - 128)
             in if is_continuation b \<and> 128 \<le> c then Some (c, r') else None
         | _ \<Rightarrow> None)
      else if a < 240 then
        (case r of
           b # d # r' \<Rightarrow>
             let c = (a - 224) * 4096 + (b - 128) * 64 + (d - 128)
             in if is_continuation b \<and> is_continuation d \<and> 2048 \<le> c \<and> \<not> is_surrogate c
                then Some (c, r') else None
         | _ \<Rightarrow> None)
      else if a < 248 then
        (case r of
           b # d # f # r' \<Rightarrow>
             let c = (a - 240) * 262144 + (b - 128) * 4096 + (d - 128) * 64 + (f - 128)
             in if is_continuation b \<and> is_continuation d \<and> is_continuation f \<and> 65536 \<le> c \<and> c < 1114112
                then Some (c, r') else None
         | _ \<Rightarrow> None)
      else None)"

lemma utf8_next_shorter: "utf8_next a r = Some (c, r') \<Longrightarrow> length r' \<le> length r"
  by (auto simp: Let_def split: if_splits list.splits)

function utf8_decode :: "bytes \<Rightarrow> pystr res" where
  "utf8_decode [] = Inr []"
| "utf8_decode (a # r) =
     (case utf8_next a r of
        None \<Rightarrow> Inl UnicodeError
      | Some (c, r') \<Rightarrow> rbind (utf8_decode r') (\<lambda>cs. Inr (c # cs)))"
  by pat_completeness auto
termination
  by (relation "measure length") (auto dest: utf8_next_shorter simp del: utf8_next.simps)

text \<open>
  The \<open>data\<close> attribute of a packet, or the packet itself: bytes, or an object whose \<open>str\<close> is used.
  What the handler passes to \<open>on_datachannel_message\<close>; any exception is logged and drops the packet.
\<close>

datatype packet_data = DataBytes bytes | DataObject "pystr res"

definition on_data :: "packet_data \<Rightarrow> pystr res \<Rightarrow> (pystr \<times> pystr) option" where
  "on_data data identity =
     (case rbind (case data of DataBytes b \<Rightarrow> utf8_decode b | DataObject s \<Rightarrow> s) (\<lambda>raw.
           rbind identity (\<lambda>sender. Inr (raw, sender))) of
        Inr delivery \<Rightarrow> Some delivery
      | Inl e \<Rightarrow> None)"

section \<open>The LiveKit connection\<close>

text \<open>
  One second of the loop that keeps the connection: what the frame tasks do during a withdrawal,
  what happens during the sleep, and how the sleep ends.
\<close>

record ('c, 'p, 'd) livekit_round =
  during_unpublish :: "'p \<Rightarrow> ('c, 'p) publisher \<Rightarrow> ('c, 'p) publisher"
  during_sleep :: "('c, 'p, 'd) cameras \<Rightarrow> ('c, 'p, 'd) cameras"
  slept :: "unit res"

fun livekit_rounds ::
  "('p \<Rightarrow> unit res) \<Rightarrow> bool \<Rightarrow> ('c, 'p, 'd) livekit_round list \<Rightarrow> ('c, 'p, 'd) cameras
    \<Rightarrow> ('c, 'p, 'd) cameras \<times> unit res"
where
  "livekit_rounds unpublish video [] s = (s, Inr ())"
| "livekit_rounds unpublish video (i # is) s =
     (case (if video then collect_finished unpublish (during_unpublish i) (publisher_of s)
            else (publisher_of s, Inr ())) of
        (p, Inl e) \<Rightarrow> (s\<lparr>publisher_of := p\<rparr>, Inl e)
      | (p, Inr _) \<Rightarrow>
          (case slept i of
             Inl e \<Rightarrow> (s\<lparr>publisher_of := p\<rparr>, Inl e)
           | Inr _ \<Rightarrow> livekit_rounds unpublish video is (during_sleep i (s\<lparr>publisher_of := p\<rparr>))))"

text \<open>\<open>video_publisher.close()\<close> of the \<open>finally\<close>.\<close>

definition close_publisher :: "('c, 'p, 'd) cameras \<Rightarrow> ('c, 'p, 'd) cameras" where
  "close_publisher s =
     (case close_tasks (publisher_of s) of
        (p, cs) \<Rightarrow> s\<lparr>publisher_of := p, cams_released := cs @ cams_released s\<rparr>)"

text \<open>
  The connection loop: the import of the library, the connection, the publisher and the rounds so
  far. \<open>Inr True\<close> is the loop still running, \<open>Inr False\<close> its return when the library is missing.
\<close>

definition livekit_connect_loop ::
  "('c, 'd) cv \<Rightarrow> platform \<Rightarrow> ('s, 't, 'o) rtc \<Rightarrow> camera_options \<Rightarrow> ('t \<Rightarrow> 'o \<Rightarrow> 'p res)
    \<Rightarrow> ('p \<Rightarrow> unit res) \<Rightarrow> unit res \<Rightarrow> unit res \<Rightarrow> ('c, 'p, 'd) livekit_round list
    \<Rightarrow> ('c, 'p, 'd) cameras \<Rightarrow> ('c, 'p, 'd) cameras \<times> bool res" where
  "livekit_connect_loop cv p rtc options publish unpublish imported joined rounds s =
     (case imported of
        Inl e \<Rightarrow> (s, if is_Exception e then Inr False else Inl e)
      | Inr _ \<Rightarrow>
          (case joined of
             Inl e \<Rightarrow> (s, Inl e)
           | Inr _ \<Rightarrow>
               let video = (layout options \<noteq> LAYOUT_OFF)
               in (case (if video then start cv p rtc options publish s else (s, Inr ())) of
                     (s1, Inl e) \<Rightarrow> (close_publisher s1, Inl e)
                   | (s1, Inr _) \<Rightarrow>
                       (case livekit_rounds unpublish video rounds s1 of
                          (s2, Inl e) \<Rightarrow> (if video then close_publisher s2 else s2, Inl e)
                        | (s2, Inr _) \<Rightarrow> (s2, Inr True)))))"

section \<open>Starting the agent\<close>

text \<open>The camera options \<open>main\<close> builds from the arguments.\<close>

definition main_camera_options :: "pystr \<Rightarrow> int \<Rightarrow> int \<Rightarrow> int \<Rightarrow> camera_options res" where
  "main_camera_options layout_arg w h fps =
     rbind (camera_layout_of layout_arg) (\<lambda>l.
     Inr \<lparr>layout = l, opt_width = w, opt_height = h, opt_fps = fps\<rparr>)"

record agent_args =
  arg_gateway :: pystr
  arg_vehicle :: pystr
  arg_backend :: "pystr option"
  arg_token :: "pystr option"

text \<open>
  The \<open>try\<close> block that obtains the credentials, from the device file or from the token on the
  command line: the token the verifier will use, the token manager when there is one, and the
  LiveKit token.
\<close>

definition device_credentials ::
  "agent_args \<Rightarrow> credentials res \<Rightarrow> exchange \<Rightarrow> pyfloat \<Rightarrow> exchange
    \<Rightarrow> (pystr \<times> token_manager option \<times> pyval) res" where
  "device_credentials a loaded token_ex now livekit_ex =
     rbind loaded (\<lambda>c.
     if cred_vehicle c \<noteq> arg_vehicle a
     then Inl (RuntimeError ''device credential vehicle_id does not match --vehicle-id'')
     else rbind (new_token_manager c 300) (\<lambda>m.
       case refresh_token token_ex now m of
         (m', Inl e) \<Rightarrow> Inl e
       | (m', Inr t) \<Rightarrow> rbind (request_livekit_token livekit_ex) (\<lambda>lk. Inr (t, Some m', lk))))"

definition agent_credentials ::
  "agent_args \<Rightarrow> credentials res \<Rightarrow> exchange \<Rightarrow> pyfloat \<Rightarrow> exchange
    \<Rightarrow> (pystr \<times> token_manager option \<times> pyval) res" where
  "agent_credentials a loaded token_ex now livekit_ex =
     (case arg_token a of
        Some t \<Rightarrow>
          if t \<noteq> [] then rbind (request_livekit_token livekit_ex) (\<lambda>lk. Inr (t, None, lk))
          else device_credentials a loaded token_ex now livekit_ex
      | None \<Rightarrow> device_credentials a loaded token_ex now livekit_ex)"

text \<open>
  The node: the runtime its tasks share, the token manager, and where the tasks are suspended:
  a refresh that waits for its response, audit events taken but not sent, a telemetry post.
\<close>

record 'k node =
  rt :: "'k runtime"
  tokens :: "token_manager option"
  in_flight :: "refresh_locals option"
  unsent :: "audit_event list"
  reporting :: bool
  alive :: bool

text \<open>\<open>run_agent\<close> up to the creation of its tasks, the initial refresh of the session included.\<close>

definition start_node ::
  "'k lib \<Rightarrow> agent_args \<Rightarrow> pystr \<Rightarrow> token_manager option \<Rightarrow> pyfloat \<Rightarrow> exchange \<Rightarrow> 'k node" where
  "start_node x a token manager created ex =
     (let v = (new_verifier (arg_gateway a) (arg_vehicle a) [] 100 100 created)\<lparr>auth_token := token\<rparr>
      in \<lparr>rt = new_runtime (fst (refresh_session x ex v)) new_brake, tokens = manager,
          in_flight = None, unsent = [], reporting = False, alive = True\<rparr>)"

section \<open>The tasks of the agent\<close>

text \<open>
  \<open>gather\<close> ends with the first exception of a task, or with a cancellation; the \<open>finally\<close> then
  clears \<open>running\<close> and cancels the other tasks.
\<close>

definition shut_down :: "'k node \<Rightarrow> 'k node" where
  "shut_down s = s\<lparr>rt := (rt s)\<lparr>running := False\<rparr>, alive := False\<rparr>"

text \<open>\<open>except Exception\<close> of \<open>_periodic_session_refresh\<close>: only a cancellation ends the task.\<close>

definition session_refresh_ends :: "unit res \<Rightarrow> bool" where
  "session_refresh_ends r = (case r of Inl e \<Rightarrow> \<not> is_Exception e | Inr _ \<Rightarrow> False)"

text \<open>What \<open>verify_packet\<close> makes of a delivery; \<open>Unloads\<close> is the refusal that finds the session expired.\<close>

datatype verification = Accepts pyval | Refuses | Unloads | Fails py_error

definition verification_of ::
  "'k lib \<Rightarrow> pystr \<Rightarrow> pystr \<Rightarrow> pyfloat \<Rightarrow> pyfloat \<Rightarrow> 'k verifier \<Rightarrow> verification" where
  "verification_of x raw sender wall now v =
     (case verify_packet x raw sender wall now v of
        (v', Inl e) \<Rightarrow> Fails e
      | (v', Inr (Some packet)) \<Rightarrow> Accepts packet
      | (v', Inr None) \<Rightarrow> if session v \<noteq> None \<and> session v' = None then Unloads else Refuses)"

text \<open>
  What a step is seen to do: a packet is delivered, with the clock readings of its handler; a refresh
  of the session asks the gateway and gets its answer; the watchdog looks at the clock and brakes or
  not; audit events are taken and sent; telemetry is reported and posted; the token is renewed or
  not; the agent ends with an exception.
\<close>

datatype node_event =
    Delivers pystr pystr readings verification
  | Asks http_request
  | Gets exchange
  | Watches pyfloat pyfloat bool
  | Takes "audit_event list"
  | Sends "audit_post list"
  | Reports "telemetry option"
  | Posts exchange
  | Renews "pystr option"
  | Ends py_error

text \<open>
  A step is what one task does between two suspension points; the handler of a data packet is a
  task of its own and never ends the agent. The watchdog runs with its default timeout.
\<close>

inductive node_step :: "'k lib \<Rightarrow> agent_args \<Rightarrow> node_event \<Rightarrow> 'k node \<Rightarrow> 'k node \<Rightarrow> bool"
  for x a
where
  packet:
    "on_data data identity = Some (raw, sender) \<Longrightarrow>
     on_datachannel_message x raw sender t (rt s) = (r, out) \<Longrightarrow>
     outcome = verification_of x raw sender (verify_wall t) (verify_mono t) (verifier (rt s)) \<Longrightarrow>
     node_step x a (Delivers raw sender t outcome) s (s\<lparr>rt := r\<rparr>)"
| refresh_starts:
    "alive s \<Longrightarrow> in_flight s = None \<Longrightarrow> refresh_begin (verifier (rt s)) = (v, loc, req) \<Longrightarrow>
     node_step x a (Asks req) s (s\<lparr>rt := (rt s)\<lparr>verifier := v\<rparr>, in_flight := Some loc\<rparr>)"
| refresh_returns:
    "alive s \<Longrightarrow> in_flight s = Some loc \<Longrightarrow>
     refresh_finish x loc ex (verifier (rt s)) = (v, out) \<Longrightarrow> \<not> session_refresh_ends out \<Longrightarrow>
     node_step x a (Gets ex) s (s\<lparr>rt := (rt s)\<lparr>verifier := v\<rparr>, in_flight := None\<rparr>)"
| watchdog:
    "alive s \<Longrightarrow> watchdog_round 300 now now_audit (rt s) = (r, Inr ()) \<Longrightarrow>
     braked \<longleftrightarrow> in_emergency (brake_controller r) \<noteq> in_emergency (brake_controller (rt s)) \<Longrightarrow>
     node_step x a (Watches now now_audit braked) s (s\<lparr>rt := r\<rparr>)"
| watchdog_raises:
    "alive s \<Longrightarrow> watchdog_round 300 now now_audit (rt s) = (r, Inl e) \<Longrightarrow>
     node_step x a (Ends e) s (shut_down (s\<lparr>rt := r\<rparr>))"
| audit_takes:
    "alive s \<Longrightarrow> unsent s = [] \<Longrightarrow> audit_take (rt s) = (r, evs) \<Longrightarrow>
     node_step x a (Takes evs) s (s\<lparr>rt := r, unsent := evs\<rparr>)"
| audit_sends_one:
    "alive s \<Longrightarrow> unsent s = ev # evs \<Longrightarrow>
     audit_sends (arg_gateway a) [ev] (\<lambda>i. (rt s, ex)) = (posts, Inr ()) \<Longrightarrow>
     node_step x a (Sends posts) s (s\<lparr>unsent := evs\<rparr>)"
| audit_raises:
    "alive s \<Longrightarrow> unsent s = ev # evs \<Longrightarrow>
     audit_sends (arg_gateway a) [ev] (\<lambda>i. (rt s, ex)) = (posts, Inl e) \<Longrightarrow>
     node_step x a (Ends e) s (shut_down s)"
| telemetry_reports:
    "alive s \<Longrightarrow> \<not> reporting s \<Longrightarrow> telemetry_round (arg_vehicle a) (rt s) = (r, Inr report) \<Longrightarrow>
     node_step x a (Reports report) s (s\<lparr>rt := r, reporting := (report \<noteq> None)\<rparr>)"
| telemetry_raises:
    "alive s \<Longrightarrow> \<not> reporting s \<Longrightarrow> telemetry_round (arg_vehicle a) (rt s) = (r, Inl e) \<Longrightarrow>
     node_step x a (Ends e) s (shut_down (s\<lparr>rt := r\<rparr>))"
| telemetry_posted:
    "alive s \<Longrightarrow> reporting s \<Longrightarrow> post_result ex = Inr () \<Longrightarrow>
     node_step x a (Posts ex) s (s\<lparr>reporting := False\<rparr>)"
| telemetry_post_raises:
    "alive s \<Longrightarrow> reporting s \<Longrightarrow> post_result ex = Inl e \<Longrightarrow>
     node_step x a (Ends e) s (shut_down s)"
| token_renewed:
    "alive s \<Longrightarrow> tokens s = Some m \<Longrightarrow> refresh_round ex now now_failed m = (m', NewToken t) \<Longrightarrow>
     node_step x a (Renews (Some t)) s
       (s\<lparr>tokens := Some m', rt := (rt s)\<lparr>verifier := (verifier (rt s))\<lparr>auth_token := t\<rparr>\<rparr>\<rparr>)"
| token_retry:
    "alive s \<Longrightarrow> tokens s = Some m \<Longrightarrow> refresh_round ex now now_failed m = (m', RetryAfter d) \<Longrightarrow>
     node_step x a (Renews None) s (s\<lparr>tokens := Some m'\<rparr>)"
| stops:
    \<comment> \<open>the connection loop raises, or the agent is cancelled\<close>
    "alive s \<Longrightarrow> node_step x a (Ends e) s (shut_down s)"

text \<open>The states of an agent that has its credentials, and its runs from one state to another.\<close>

inductive node_reachable :: "'k lib \<Rightarrow> agent_args \<Rightarrow> 'k node \<Rightarrow> bool"
  for x a
where
  started:
    "agent_credentials a loaded token_ex now livekit_ex = Inr (token, manager, lk) \<Longrightarrow>
     node_reachable x a (start_node x a token manager created session_ex)"
| stepped:
    "node_reachable x a s \<Longrightarrow> node_step x a e s s' \<Longrightarrow> node_reachable x a s'"

inductive node_run :: "'k lib \<Rightarrow> agent_args \<Rightarrow> 'k node \<Rightarrow> node_event list \<Rightarrow> 'k node \<Rightarrow> bool"
  for x a
where
  here: "node_run x a s [] s"
| onward: "node_step x a e s s1 \<Longrightarrow> node_run x a s1 es s' \<Longrightarrow> node_run x a s (e # es) s'"

inductive_simps node_run_Nil: "node_run x a s [] s'"
inductive_simps node_run_Cons: "node_run x a s (e # es) s'"

text \<open>The packets a run accepts, in order.\<close>

fun accepted_of :: "node_event list \<Rightarrow> pyval list" where
  "accepted_of (Delivers raw sender t (Accepts packet) # es) = packet # accepted_of es"
| "accepted_of (e # es) = accepted_of es"
| "accepted_of [] = []"

text \<open>
  Wall clock times in milliseconds for the events of a run. A delivery happens at the reading its
  handler takes. \<open>_periodic_session_refresh\<close> sleeps between an answer and the next request, so it
  asks again only when that pause is over, which \<open>ready\<close> keeps; the clock does not go back.
\<close>

definition refresh_pause_ms :: int where
  "refresh_pause_ms = 1000"

fun paced :: "int \<Rightarrow> int \<Rightarrow> (int \<times> node_event) list \<Rightarrow> bool" where
  "paced now ready [] \<longleftrightarrow> True"
| "paced now ready ((t, e) # es) \<longleftrightarrow>
     now \<le> t
   \<and> (case e of Delivers raw sender r out \<Rightarrow> millis (verify_wall r) = Inr t | Asks req \<Rightarrow> ready \<le> t | _ \<Rightarrow> True)
   \<and> paced t (case e of Gets ex \<Rightarrow> t + refresh_pause_ms | _ \<Rightarrow> ready) es"

end
