(* ===== verification/Secure_Runtime.thy ===== *)
theory Secure_Runtime
  imports Secure_Receiver
begin

text \<open>
  \<open>VehicleAgentRuntime\<close> of \<open>secure_receiver.py\<close>: the packet handler, the telemetry report, the
  watchdog and the reconnect loop with its backoff.
\<close>

record 'k agent =
  agent_verifier :: "'k command_verifier"
  agent_brake :: "pyval brake_state"
  agent_running :: bool
  agent_latencies :: "int list"
  agent_lost :: int
  last_seen_seq :: "int option"

definition new_agent :: "'k command_verifier \<Rightarrow> pyval brake_state \<Rightarrow> 'k agent" where
  "new_agent v b =
     \<lparr>agent_verifier = v, agent_brake = b, agent_running = True, agent_latencies = [],
      agent_lost = 0, last_seen_seq = None\<rparr>"

section \<open>Data packets\<close>

definition agent_count_lost :: "int \<Rightarrow> 'k agent \<Rightarrow> 'k agent" where
  "agent_count_lost sq a =
     (let a' = (case last_seen_seq a of
                  None \<Rightarrow> a
                | Some prev \<Rightarrow>
                    let diff = sq - prev
                    in if 1 < diff then a\<lparr>agent_lost := agent_lost a + (diff - 1)\<rparr> else a)
      in a'\<lparr>last_seen_seq := Some sq\<rparr>)"

definition agent_apply :: "int \<Rightarrow> pyval \<Rightarrow> 'k agent \<Rightarrow> 'k agent \<times> unit res" where
  "agent_apply recv_time_ms payload a =
     (case int_field payload ''ts'' of
        Inl e \<Rightarrow> (a, Inl e)
      | Inr send_time_ms \<Rightarrow>
          let a1 = a\<lparr>agent_latencies := agent_latencies a @ [max 0 (recv_time_ms - send_time_ms)]\<rparr>
          in (case int_field payload ''seq'' of
                Inl e \<Rightarrow> (a1, Inl e)
              | Inr sq \<Rightarrow>
                  let a2 = agent_count_lost sq a1
                  in (case rbind (py_getitem payload (u ''cmd'')) (\<lambda>cmd.
                           rbind (py_getitem payload (u ''val'')) (\<lambda>val. Inr (cmd, val))) of
                        Inl e \<Rightarrow> (a2, Inl e)
                      | Inr (cmd, val) \<Rightarrow>
                          (a2\<lparr>agent_brake := apply_control cmd val (agent_brake a2)\<rparr>, Inr ()))))"

definition agent_on_message ::
  "'k lib \<Rightarrow> pystr \<Rightarrow> pyfloat \<Rightarrow> pyfloat \<Rightarrow> pyfloat \<Rightarrow> 'k agent \<Rightarrow> 'k agent \<times> unit res" where
  "agent_on_message x raw recv_wall wall now a =
     (case millis recv_wall of
        Inl e \<Rightarrow> (a, Inl e)
      | Inr recv_time_ms \<Rightarrow>
          (case legacy_verify_packet x raw wall now (agent_verifier a) of
             (v, Inl e) \<Rightarrow> (a\<lparr>agent_verifier := v\<rparr>, Inl e)
           | (v, Inr None) \<Rightarrow> (a\<lparr>agent_verifier := v\<rparr>, Inr ())
           | (v, Inr (Some payload)) \<Rightarrow> agent_apply recv_time_ms payload (a\<lparr>agent_verifier := v\<rparr>)))"

section \<open>Telemetry\<close>

text \<open>The report is built before the counters are reset, so a failing \<open>float\<close> leaves them.\<close>

definition agent_percentiles :: "int list \<Rightarrow> (pyfloat \<times> pyfloat) res" where
  "agent_percentiles sorted_lats =
     (let count = length sorted_lats in
      rbind (if 0 < count then py_index sorted_lats (int count div 2) else Inr 0) (\<lambda>p50.
      rbind (p99_index count) (\<lambda>i.
      rbind (if 0 < count then py_index sorted_lats (if int count \<le> i then int count - 1 else i)
             else Inr 0) (\<lambda>p99.
      rbind (flt_of_int p50) (\<lambda>f50. rbind (flt_of_int p99) (\<lambda>f99. Inr (f50, f99)))))))"

definition agent_telemetry :: "pystr \<Rightarrow> 'k agent \<Rightarrow> 'k agent \<times> telemetry option res" where
  "agent_telemetry vid a =
     (if agent_latencies a = [] \<and> agent_lost a = 0 then (a, Inr None)
      else
        (case agent_percentiles (sort (agent_latencies a)) of
           Inl e \<Rightarrow> (a, Inl e)
         | Inr (f50, f99) \<Rightarrow>
             (a\<lparr>agent_latencies := [], agent_lost := 0\<rparr>,
              Inr (Some \<lparr>tel_vehicle = vid, p50 = PFloat f50, p99 = PFloat f99,
                         tel_lost = agent_lost a\<rparr>))))"

text \<open>\<open>except Exception\<close>: only a cancellation leaves the loop.\<close>

definition agent_post_result :: "exchange \<Rightarrow> unit res" where
  "agent_post_result ex =
     (case ex of Inl e \<Rightarrow> if is_Exception e then Inr () else Inl e | Inr _ \<Rightarrow> Inr ())"

section \<open>Watchdog\<close>

definition agent_watchdog :: "int \<Rightarrow> pyfloat \<Rightarrow> 'k agent \<Rightarrow> 'k agent \<times> unit res" where
  "agent_watchdog timeout_ms now a =
     (let elapsed = elapsed_ms now (cv_last_valid (agent_verifier a))
      in if int_lt_flt timeout_ms elapsed then
           (case watchdog_reason elapsed of
              Inl e \<Rightarrow> (a, Inl e)
            | Inr why \<Rightarrow> (a\<lparr>agent_brake := emergency_brake why (agent_brake a)\<rparr>, Inr ()))
         else (a, Inr ()))"

section \<open>Reconnecting\<close>

text \<open>
  Each round of \<open>reconnect_loop\<close> is given what it finds: the \<open>running\<close> flag when the loop
  condition is read and the outcome of the coroutine. The loop returns the brake, the
  delays it slept and how far it got; \<open>Waiting\<close> is the loop suspended with the rounds used up.
\<close>

datatype reconnect_end = Stopped | Reconnected | Raised py_error | Waiting

definition BACKOFF_START :: pyfloat where
  "BACKOFF_START = flt_of_decimal False 2 (-1)"

definition BACKOFF_CAP :: pyfloat where
  "BACKOFF_CAP = flt_small 5"

text \<open>\<open>min(backoff * 2, 5.0)\<close>: Python's \<open>min\<close> keeps the first unless the second is smaller.\<close>

definition next_backoff :: "pyfloat \<Rightarrow> pyfloat" where
  "next_backoff b =
     (let d = flt_mul b (flt_small 2) in if flt_lt BACKOFF_CAP d then BACKOFF_CAP else d)"

fun reconnect_from ::
  "pyfloat \<Rightarrow> (bool \<times> bool res) list \<Rightarrow> 'v brake_state \<Rightarrow> 'v brake_state \<times> pyfloat list \<times> reconnect_end"
where
  "reconnect_from backoff [] b = (b, [], Waiting)"
| "reconnect_from backoff ((active, outcome) # rounds) b =
     (if \<not> active then (b, [], Stopped)
      else (case outcome of
              Inl e \<Rightarrow> (b, [], Raised e)
            | Inr True \<Rightarrow> (b, [], Reconnected)
            | Inr False \<Rightarrow>
                (case reconnect_from (next_backoff backoff) rounds
                        (emergency_brake (u ''connection lost'') b) of
                   (b', delays, out) \<Rightarrow> (b', backoff # delays, out))))"

definition reconnect_loop ::
  "(bool \<times> bool res) list \<Rightarrow> 'v brake_state \<Rightarrow> 'v brake_state \<times> pyfloat list \<times> reconnect_end" where
  "reconnect_loop rounds b = reconnect_from BACKOFF_START rounds b"

end
