(* ===== verification/Sequence_Gate.thy ===== *)
theory Sequence_Gate
  imports Prelude
begin

text \<open>
  The anti-replay contract both verifiers offer to their runtime. A gate holds a mark, the
  number of the last input it let through, and may be armed or not; \<open>offer\<close> shows it one
  input and returns what it lets through. The runs of a gate are what a client sees.
\<close>

fun offers :: "('i \<Rightarrow> 's \<Rightarrow> 's \<times> 'p option) \<Rightarrow> 'i list \<Rightarrow> 's \<Rightarrow> 's \<times> 'p list" where
  "offers offer [] s = (s, [])"
| "offers offer (i # is) s =
     (case offer i s of (s', r) \<Rightarrow>
        (case offers offer is s' of (s'', ps) \<Rightarrow>
           (s'', (case r of None \<Rightarrow> ps | Some p \<Rightarrow> p # ps))))"

locale sequence_gate =
  fixes offer :: "'i \<Rightarrow> 's \<Rightarrow> 's \<times> 'p option"
    and armed :: "'s \<Rightarrow> bool"
    and mark :: "'s \<Rightarrow> int"
    and number :: "'p \<Rightarrow> int"
  assumes lets_through:
      "offer i s = (s', Some p) \<Longrightarrow> armed s \<and> armed s' \<and> mark s < number p \<and> mark s' = number p"
    and holds_back:
      "offer i s = (s', None) \<Longrightarrow> armed s' \<Longrightarrow> armed s \<and> mark s' = mark s"
begin

lemma disarmed_step: "offer i s = (s', r) \<Longrightarrow> \<not> armed s \<Longrightarrow> r = None \<and> \<not> armed s'"
  using lets_through [of i s s'] holds_back [of i s s'] by (cases r) auto

lemma disarmed_run: "\<not> armed s \<Longrightarrow> offers offer is s = (s', ps) \<Longrightarrow> ps = [] \<and> \<not> armed s'"
proof (induction "is" arbitrary: s s' ps)
  case (Cons i "is")
  then show ?case
    by (auto split: prod.splits dest: disarmed_step)
qed simp

text \<open>What a run lets through is strictly increasing and starts above the mark.\<close>

lemma run_ascending:
  "offers offer is s = (s', ps) \<Longrightarrow>
     sorted_wrt (<) (map number ps) \<and> (\<forall>p \<in> set ps. mark s < number p)"
proof (induction "is" arbitrary: s s' ps)
  case (Cons i "is")
  obtain t r where step: "offer i s = (t, r)" by fastforce
  obtain t' qs where run: "offers offer is t = (t', qs)" by fastforce
  have IH: "sorted_wrt (<) (map number qs)" "\<forall>p \<in> set qs. mark t < number p"
    using Cons.IH [OF run] by auto
  show ?case
  proof (cases r)
    case None
    with Cons.prems step run have "ps = qs" by simp
    moreover have "qs = [] \<or> mark t = mark s"
      using holds_back [of i s t] step None disarmed_run [OF _ run] by auto
    ultimately show ?thesis using IH by auto
  next
    case (Some p)
    with Cons.prems step run have "ps = p # qs" by simp
    moreover have "mark s < number p" "mark t = number p"
      using lets_through step Some by blast+
    ultimately show ?thesis using IH by auto
  qed
qed simp

lemma run_distinct: "offers offer is s = (s', ps) \<Longrightarrow> distinct (map number ps)"
  using run_ascending sorted_wrt_less_distinct by blast

text \<open>A gate that is still armed holds the number of the last input it let through.\<close>

lemma run_mark:
  "offers offer is s = (s', ps) \<Longrightarrow> armed s' \<Longrightarrow>
     armed s \<and> mark s' = (if ps = [] then mark s else number (last ps))"
proof (induction "is" arbitrary: s s' ps)
  case (Cons i "is")
  obtain t r where step: "offer i s = (t, r)" by fastforce
  obtain t' qs where run: "offers offer is t = (t', qs)" by fastforce
  have "s' = t'" "ps = (case r of None \<Rightarrow> qs | Some p \<Rightarrow> p # qs)"
    using Cons.prems step run by auto
  with Cons.IH [OF run] Cons.prems show ?case
    using lets_through [of i s t] holds_back [of i s t] step by (cases r) auto
qed simp

end

section \<open>Renewal\<close>

text \<open>
  A gate may be renewed from outside while it runs. \<open>steady k\<close> says that after every step of a
  run the gate is armed for the identity \<open>k\<close>.
\<close>

datatype ('i, 'r) gate_input = Offer 'i | Renew 'r

fun gate_step ::
  "('i \<Rightarrow> 's \<Rightarrow> 's \<times> 'p option) \<Rightarrow> ('r \<Rightarrow> 's \<Rightarrow> 's) \<Rightarrow> ('i, 'r) gate_input \<Rightarrow> 's \<Rightarrow> 's \<times> 'p option"
where
  "gate_step offer renew (Offer i) s = offer i s"
| "gate_step offer renew (Renew r) s = (renew r s, None)"

fun steady ::
  "('i \<Rightarrow> 's \<Rightarrow> 's \<times> 'p option) \<Rightarrow> ('r \<Rightarrow> 's \<Rightarrow> 's) \<Rightarrow> ('s \<Rightarrow> bool) \<Rightarrow> ('i, 'r) gate_input list \<Rightarrow> 's \<Rightarrow> bool"
where
  "steady offer renew ok [] s \<longleftrightarrow> ok s"
| "steady offer renew ok (g # gs) s \<longleftrightarrow> ok s \<and> steady offer renew ok gs (fst (gate_step offer renew g s))"

locale renewable_gate = sequence_gate offer armed mark number
  for offer :: "'i \<Rightarrow> 's \<Rightarrow> 's \<times> 'p option"
    and armed :: "'s \<Rightarrow> bool"
    and mark :: "'s \<Rightarrow> int"
    and number :: "'p \<Rightarrow> int" +
  fixes renew :: "'r \<Rightarrow> 's \<Rightarrow> 's"
    and same :: "'id \<Rightarrow> 's \<Rightarrow> bool"
  assumes renew_keeps_mark:
    "armed s \<Longrightarrow> armed (renew r s) \<Longrightarrow> same k s \<Longrightarrow> same k (renew r s) \<Longrightarrow> mark (renew r s) = mark s"
begin

text \<open>
  While the gate stays armed for one identity, renewals included, nothing is let through twice.
\<close>

lemma steady_ascending:
  "offers (gate_step offer renew) gs s = (s', ps) \<Longrightarrow>
   steady offer renew (\<lambda>s. armed s \<and> same k s) gs s \<Longrightarrow>
     sorted_wrt (<) (map number ps) \<and> (\<forall>p \<in> set ps. mark s < number p)"
proof (induction gs arbitrary: s s' ps)
  case (Cons g gs)
  obtain t r where step: "gate_step offer renew g s = (t, r)" by fastforce
  obtain t' qs where run: "offers (gate_step offer renew) gs t = (t', qs)" by fastforce
  have ps: "ps = (case r of None \<Rightarrow> qs | Some p \<Rightarrow> p # qs)"
    using Cons.prems(1) step run by auto
  have steady: "steady offer renew (\<lambda>s. armed s \<and> same k s) gs t" "armed s" "same k s"
    using Cons.prems(2) step by auto
  then have at: "armed t \<and> same k t" by (cases gs) auto
  have IH: "sorted_wrt (<) (map number qs)" "\<forall>p \<in> set qs. mark t < number p"
    using Cons.IH [OF run steady(1)] by auto
  have mark: "mark s < number p \<and> mark t = number p" if "r = Some p" for p
    using that step lets_through by (cases g) auto
  have "mark t = mark s" if "r = None"
    using that step at steady holds_back renew_keeps_mark by (cases g) auto
  with IH mark ps show ?case by (cases r) auto
qed simp

end

end
