(* ===== verification/Session_Facts.thy ===== *)
theory Session_Facts
  imports Session_Receiver Control_Protocol_Facts Sequence_Gate
begin

text \<open>
  The session verifier: when it accepts a packet, what a refusal leaves behind, which
  exceptions escape it, and what a refresh of the session keeps and drops.
\<close>

section \<open>The checks of a packet\<close>

lemma verify_header_True:
  "verify_header packet = Inr True \<longleftrightarrow>
     (\<exists>d w. packet = PDict d \<and> (\<forall>k \<in> set REQUIRED. map_of d k \<noteq> None)
       \<and> map_of d (u ''version'') = Some w \<and> eq_int w PROTOCOL_VERSION
       \<and> map_of d (u ''type'') = Some (PStr CONTROL_TYPE))"
  by (cases packet)
    (auto simp: verify_header_def rbind_iffs option_or_iffs py_issubset_dict eq_str_iff
       simp del: py_issubset.simps(1) split: if_splits)

lemma verify_sender_True:
  "verify_sender pr s packet sender = Inr True \<longleftrightarrow>
     (\<exists>sid op. py_getitem packet (u ''session_id'') = Inr sid \<and> py_eq sid (session_id s)
       \<and> py_str pr (operator_id s) = Inr op \<and> sender = u ''operator-'' @ op)"
  by (auto simp: verify_sender_def rbind_iffs split: if_splits)

text \<open>
  The contract of the verifier: what a packet has to satisfy, in terms of its fields, to be
  let through with sequence number \<open>sq\<close>.
\<close>

definition admissible ::
  "'k lib \<Rightarrow> pystr \<Rightarrow> pystr \<Rightarrow> pyfloat \<Rightarrow> 'k verifier \<Rightarrow> pyval \<Rightarrow> int \<Rightarrow> bool" where
  "admissible x raw sender wall v packet sq \<longleftrightarrow>
     (\<exists>s key d version sid op now_ms ts command msg m sg signature.
        session v = Some s \<and> verify_key v = Some key
      \<and> json_loads (rec_limit x) raw = Inr packet \<and> packet = PDict d
      \<and> (\<forall>k \<in> set REQUIRED. map_of d k \<noteq> None)
      \<and> map_of d (u ''version'') = Some version \<and> eq_int version PROTOCOL_VERSION
      \<and> map_of d (u ''type'') = Some (PStr CONTROL_TYPE)
      \<and> map_of d (u ''session_id'') = Some sid \<and> py_eq sid (session_id s)
      \<and> py_str (printable x) (operator_id s) = Inr op \<and> sender = u ''operator-'' @ op
      \<and> millis wall = Inr now_ms \<and> now_ms \<le> expires_at_ms s
      \<and> int_field packet ''timestamp_ms'' = Inr ts
      \<and> now_ms - ts \<le> max_age_ms v \<and> ts - now_ms \<le> max_future_skew_ms v
      \<and> int_field packet ''sequence'' = Inr sq \<and> last_sequence v < sq
      \<and> map_of d (u ''command'') = Some command \<and> valid_command command = Inr True
      \<and> build_sign_message (printable x) packet = Inr msg \<and> utf8_encode msg = Inr m
      \<and> map_of d (u ''signature'') = Some sg \<and> b64decode True sg = Inr signature
      \<and> verify_sig x key m signature = Inr ())"

lemma check_signature_ok:
  "check_signature x key (PDict d) = Inr () \<longleftrightarrow>
     (\<exists>msg m sg signature. build_sign_message (printable x) (PDict d) = Inr msg
        \<and> utf8_encode msg = Inr m \<and> map_of d (u ''signature'') = Some sg
        \<and> b64decode True sg = Inr signature \<and> verify_sig x key m signature = Inr ())"
  by (auto simp: check_signature_def rbind_iffs option_or_iffs)

lemma verify_body_Passed:
  "verify_body x v s key raw sender wall = Inr (Passed packet) \<longleftrightarrow>
     json_loads (rec_limit x) raw = Inr packet
   \<and> verify_header packet = Inr True
   \<and> verify_sender (printable x) s packet sender = Inr True
   \<and> (\<exists>now_ms ts sq command.
        millis wall = Inr now_ms \<and> now_ms \<le> expires_at_ms s
      \<and> int_field packet ''timestamp_ms'' = Inr ts
      \<and> now_ms - ts \<le> max_age_ms v \<and> ts - now_ms \<le> max_future_skew_ms v
      \<and> int_field packet ''sequence'' = Inr sq \<and> last_sequence v < sq
      \<and> py_getitem packet (u ''command'') = Inr command \<and> valid_command command = Inr True
      \<and> check_signature x key packet = Inr ())"
  by (fastforce simp: verify_body_def rbind_iffs not_less not_le split: if_splits)

lemma verify_body_Expired:
  "verify_body x v s key raw sender wall = Inr Expired \<Longrightarrow>
     \<exists>now_ms. millis wall = Inr now_ms \<and> expires_at_ms s < now_ms"
  by (auto simp: verify_body_def rbind_iffs split: if_splits)

lemma verify_packet_Some:
  "verify_packet x raw sender wall now v = (v', Inr (Some packet)) \<longleftrightarrow>
     (\<exists>s key sq. session v = Some s \<and> verify_key v = Some key
        \<and> verify_body x v s key raw sender wall = Inr (Passed packet)
        \<and> int_field packet ''sequence'' = Inr sq
        \<and> v' = v\<lparr>last_sequence := sq, last_valid_cmd_time := now\<rparr>)"
  by (auto simp: verify_packet_def split: option.splits sum.splits verdict.splits)

lemma admissible_iff:
  "admissible x raw sender wall v packet sq \<longleftrightarrow>
     (\<exists>s key. session v = Some s \<and> verify_key v = Some key
        \<and> verify_body x v s key raw sender wall = Inr (Passed packet)
        \<and> int_field packet ''sequence'' = Inr sq)"
proof (cases packet)
  case (PDict d)
  show ?thesis
    unfolding admissible_def verify_body_Passed verify_header_True verify_sender_True PDict
      check_signature_ok
    by (auto simp: option_or_iffs)
qed (simp_all add: admissible_def verify_body_Passed verify_header_True)

lemma verify_accepts:
  "verify_packet x raw sender wall now v = (v', Inr (Some packet)) \<longleftrightarrow>
     (\<exists>sq. admissible x raw sender wall v packet sq
        \<and> v' = v\<lparr>last_sequence := sq, last_valid_cmd_time := now\<rparr>)"
  by (auto simp: verify_packet_Some admissible_iff)

lemma verify_refuses:
  assumes "verify_packet x raw sender wall now v = (v', r)" and "\<nexists>packet. r = Inr (Some packet)"
  shows "v' = v \<or> v' = clear_session v \<and> r = Inr None
    \<and> (\<exists>s n. session v = Some s \<and> millis wall = Inr n \<and> expires_at_ms s < n)"
proof (cases "(session v, verify_key v)")
  case (Pair so ko)
  with assms show ?thesis
    by (auto simp: verify_packet_def dest!: verify_body_Expired
        split: option.splits sum.splits verdict.splits)
qed

lemma verify_disarmed:
  "session v = None \<or> verify_key v = None \<Longrightarrow>
     verify_packet x raw sender wall now v = (v, Inr None)"
  by (auto simp: verify_packet_def split: option.splits)

section \<open>What escapes the verifier\<close>

text \<open>The exceptions the handler of \<open>verify_packet\<close> lets through in a given value.\<close>

definition escapes :: "py_error \<Rightarrow> bool" where
  "escapes e \<longleftrightarrow> \<not> verify_caught e \<longrightarrow> e \<in> {OverflowError, RecursionError}"

lemma escapes_simps [simp]:
  "escapes KeyError" "escapes TypeError" "escapes ValueError" "escapes JSONDecodeError"
  "escapes UnicodeError" "escapes BinasciiError" "escapes OverflowError" "escapes RecursionError"
  by (simp_all add: escapes_def verify_caught_def is_ValueError_def)

lemma escapes_json: "json_loads n s = Inl e \<Longrightarrow> escapes e"
  by (auto dest: json_loads_errors)

lemma escapes_millis: "millis t = Inl e \<Longrightarrow> escapes e"
  by (auto simp: millis_def dest: flt_to_int_errors)

lemma escapes_int_field: "int_field v k = Inl e \<Longrightarrow> escapes e"
  by (auto simp: int_field_def rbind_iffs dest!: value_errors)

lemma escapes_header: "verify_header packet = Inl e \<Longrightarrow> escapes e"
  by (auto simp: verify_header_def rbind_iffs dest!: value_errors split: if_splits)

lemma escapes_sender: "verify_sender pr s packet sender = Inl e \<Longrightarrow> escapes e"
  by (auto simp: verify_sender_def rbind_iffs dest!: value_errors split: if_splits)

lemma valid_ranges_errors: "valid_ranges c d = Inl e \<Longrightarrow> e \<in> {KeyError, OverflowError}"
  by (auto simp: valid_ranges_def rbind_iffs is_ValueError_def dest!: value_errors
      split: sum.splits if_splits)

lemma valid_command_errors: "valid_command c = Inl e \<Longrightarrow> e \<in> {KeyError, TypeError, OverflowError}"
  by (cases c)
    (auto simp: mode_is_dict rbind_iffs in_actions_def simp del: py_getitem.simps
      dest!: value_errors valid_ranges_errors split: if_splits)

lemma str_field_errors: "str_field pr v k = Inl e \<Longrightarrow> e \<in> {KeyError, TypeError, ValueError}"
  by (auto simp: str_field_def rbind_iffs dest!: value_errors)

lemma command_fields_errors:
  "command_fields pr (PDict d) = Inl e \<Longrightarrow> e \<in> {KeyError, TypeError, ValueError}"
  by (auto simp: command_fields_def mode_is_dict rbind_iffs dest!: str_field_errors py_str_errors
      str_of_int_errors split: if_splits option.splits)

lemma check_signature_errors:
  assumes "check_signature x key packet = Inl e"
    and "py_getitem packet (u ''command'') = Inr (PDict d)"
  shows "e \<in> {KeyError, TypeError, ValueError, UnicodeError, BinasciiError}
    \<or> (\<exists>m sg. verify_sig x key m sg = Inl e)"
  using assms
  by (auto simp: check_signature_def build_sign_message_def sign_fields_def rbind_iffs
      dest!: str_field_errors command_fields_errors utf8_encode_errors value_errors b64decode_errors)

text \<open>
  Whatever the bytes, only an overflow and a too deep nesting escape, when the signature library
  raises what it documents (\<open>BadSignatureError\<close>, \<open>TypeError\<close> or \<open>ValueError\<close>).
\<close>

lemma verify_body_errors:
  assumes "verify_body x v s key raw sender wall = Inl e"
    and "\<And>m sg e. verify_sig x key m sg = Inl e \<Longrightarrow> verify_caught e"
  shows "escapes e"
proof -
  have dict: "\<exists>d. c = PDict d" if "valid_command c = Inr True" for c
    using that by (cases c) auto
  have "escapes e'" if "check_signature x key packet = Inl e'"
    "py_getitem packet (u ''command'') = Inr c" "valid_command c = Inr True" for packet c e'
    using check_signature_errors [of x key packet e'] that dict [of c] assms(2)
    by (auto simp: escapes_def verify_caught_def is_ValueError_def simp del: valid_command.simps)
  with assms(1) show ?thesis
    by (auto simp: verify_body_def rbind_iffs
        dest!: escapes_json escapes_header escapes_sender escapes_millis escapes_int_field
        valid_command_errors py_getitem_errors split: if_splits)
qed

lemma verify_packet_errors:
  assumes "verify_packet x raw sender wall now v = (v', Inl e)"
    and "\<And>key m sg e. verify_sig x key m sg = Inl e \<Longrightarrow> verify_caught e"
  shows "v' = v \<and> e \<in> {OverflowError, RecursionError}"
proof -
  have "v' = v \<and> (\<exists>s key. verify_body x v s key raw sender wall = Inl e) \<and> \<not> verify_caught e"
    using assms(1)
    by (auto simp: verify_packet_def verify_body_Passed split: option.splits sum.splits verdict.splits if_splits)
  with verify_body_errors assms(2) show ?thesis by (fastforce simp: escapes_def)
qed

section \<open>The state of the verifier\<close>

text \<open>
  The session and its key are there together; without them the sequence is zero; a session that
  is there is for this vehicle and active, and the sequence is never negative.
\<close>

definition wf_verifier :: "'k verifier \<Rightarrow> bool" where
  "wf_verifier v \<longleftrightarrow>
     (session v = None \<longleftrightarrow> verify_key v = None) \<and> 0 \<le> last_sequence v
   \<and> (case session v of None \<Rightarrow> last_sequence v = 0
      | Some s \<Rightarrow> sess_vehicle s = PStr (vehicle_id v) \<and> sess_status s = PStr (u ''ACTIVE''))"

lemma wf_new_verifier: "wf_verifier (new_verifier url vid token age skew now)"
  by (simp add: wf_verifier_def new_verifier_def)

lemma wf_clear_session: "wf_verifier (clear_session v)"
  by (simp add: wf_verifier_def clear_session_def)

lemma verify_accept_state:
  assumes "verify_packet x raw sender wall now v = (v', Inr (Some packet))"
  shows "session v' = session v" "verify_key v' = verify_key v" "session v \<noteq> None" "verify_key v \<noteq> None"
    "last_sequence v < last_sequence v'" "int_field packet ''sequence'' = Inr (last_sequence v')"
    "last_valid_cmd_time v' = now" "vehicle_id v' = vehicle_id v"
  using assms by (auto simp: verify_packet_Some verify_body_Passed)

lemma wf_verify_packet:
  assumes "verify_packet x raw sender wall now v = (v', r)" and "wf_verifier v"
  shows "wf_verifier v'"
proof (cases "\<exists>packet. r = Inr (Some packet)")
  case True
  then obtain packet where "verify_packet x raw sender wall now v = (v', Inr (Some packet))"
    using assms(1) by auto
  from verify_accept_state [OF this] assms(2) show ?thesis
    by (auto simp: wf_verifier_def split: option.splits)
next
  case False
  with verify_refuses [OF assms(1)] assms(2) show ?thesis
    by (auto simp: wf_clear_session)
qed

section \<open>Refreshing\<close>

text \<open>The request leaves the verifier without a session, whatever it held.\<close>

lemma refresh_begin_clears:
  assumes "refresh_begin v = (v', loc, req)"
  shows "session v' = None" "verify_key v' = None" "last_sequence v' = 0"
    "previous_sequence loc = last_sequence v"
    "vehicle_id v' = vehicle_id v" "last_valid_cmd_time v' = last_valid_cmd_time v"
  using assms by (auto simp: refresh_begin_def clear_session_def)

text \<open>When a response arms the verifier, and with what.\<close>

definition grants :: "'k lib \<Rightarrow> exchange \<Rightarrow> 'k verifier \<Rightarrow> active_session \<Rightarrow> 'k \<Rightarrow> bool" where
  "grants x ex v s key \<longleftrightarrow>
     (\<exists>r. ex = Inr r \<and> status_code r = 200 \<and> rbind (body_json r) parse_session = Inr s
        \<and> sess_vehicle s = PStr (vehicle_id v) \<and> sess_status s = PStr (u ''ACTIVE'')
        \<and> rbind (b64decode True (public_key_b64 s)) (new_key x) = Inr key)"

lemma load_key_Inr: "load_key x pk = Inr k \<longleftrightarrow> rbind (b64decode True pk) (new_key x) = Inr k"
  by (auto simp: load_key_def split: sum.splits if_splits)

lemma refresh_finish_granted:
  assumes "grants x ex v s key"
  shows "refresh_finish x loc ex v =
    (v\<lparr>session := Some s, verify_key := Some key,
       last_sequence := if py_eq (session_id s) (previous_session_id loc)
                        then previous_sequence loc else last_sequence v\<rparr>, Inr ())"
proof -
  obtain r where r: "ex = Inr r" "status_code r = 200" "rbind (body_json r) parse_session = Inr s"
    "sess_vehicle s = PStr (vehicle_id v)" "sess_status s = PStr (u ''ACTIVE'')"
    "load_key x (public_key_b64 s) = Inr key"
    using assms by (auto simp: grants_def load_key_Inr)
  then show ?thesis by (simp add: refresh_finish_def)
qed

lemma refresh_finish_refused:
  assumes "\<nexists>s key. grants x ex v s key"
  shows "fst (refresh_finish x loc ex v) = v"
proof (cases ex)
  case (Inr r)
  show ?thesis
  proof (cases "status_code r = 200 \<and> (\<exists>s. rbind (body_json r) parse_session = Inr s)")
    case True
    then obtain s where s: "status_code r = 200" "rbind (body_json r) parse_session = Inr s" by blast
    have "load_key x (public_key_b64 s) \<noteq> Inr key"
      if "sess_vehicle s = PStr (vehicle_id v)" "sess_status s = PStr (u ''ACTIVE'')" for key
      using assms s Inr that by (auto simp: grants_def load_key_Inr)
    then show ?thesis
      using s Inr by (cases "load_key x (public_key_b64 s)") (auto simp: refresh_finish_def eq_str_iff)
  next
    case False
    then show ?thesis
      using Inr by (cases "rbind (body_json r) parse_session") (auto simp: refresh_finish_def)
  qed
qed (simp add: refresh_finish_def)

lemma refresh_refused_result:
  assumes "\<nexists>s key. grants x ex v s key"
  shows "snd (refresh_finish x loc ex v) = Inr () \<longleftrightarrow> (\<exists>r. ex = Inr r \<and> status_code r = 404)"
proof (cases ex)
  case (Inr r)
  show ?thesis
  proof (cases "status_code r = 200 \<and> (\<exists>s. rbind (body_json r) parse_session = Inr s)")
    case True
    then obtain s where s: "status_code r = 200" "rbind (body_json r) parse_session = Inr s" by blast
    have "load_key x (public_key_b64 s) \<noteq> Inr key"
      if "sess_vehicle s = PStr (vehicle_id v)" "sess_status s = PStr (u ''ACTIVE'')" for key
      using assms s Inr that by (auto simp: grants_def load_key_Inr)
    then show ?thesis
      using s Inr by (cases "load_key x (public_key_b64 s)") (auto simp: refresh_finish_def eq_str_iff)
  next
    case False
    then show ?thesis
      using Inr by (cases "rbind (body_json r) parse_session") (auto simp: refresh_finish_def rbind_iffs)
  qed
qed (simp add: refresh_finish_def)

lemma refresh_finish_cases:
  assumes "refresh_finish x loc ex v = (v', r)"
  obtains (granted) s key where "grants x ex v s key" "r = Inr ()"
      "v' = v\<lparr>session := Some s, verify_key := Some key,
              last_sequence := if py_eq (session_id s) (previous_session_id loc)
                               then previous_sequence loc else last_sequence v\<rparr>"
  | (refused) "v' = v" "\<nexists>s key. grants x ex v s key"
proof (cases "\<exists>s key. grants x ex v s key")
  case True
  then obtain s key where g: "grants x ex v s key" by blast
  from granted [OF g] refresh_finish_granted [OF g, of loc] assms show ?thesis by simp
next
  case False
  with refused refresh_finish_refused [of x ex v loc] assms show ?thesis by simp
qed

lemma grants_cong: "vehicle_id v' = vehicle_id v \<Longrightarrow> grants x ex v' = grants x ex v"
  by (auto simp: grants_def fun_eq_iff)

lemma refresh_session_cases:
  assumes "refresh_session x ex v = (v', r)"
  obtains (granted) s key where "grants x ex v s key" "r = Inr ()"
      "v' = v\<lparr>session := Some s, verify_key := Some key,
              last_sequence := if py_eq (session_id s)
                                  (case session v of None \<Rightarrow> PNone | Some s \<Rightarrow> session_id s)
                               then last_sequence v else 0\<rparr>"
  | (refused) "v' = clear_session v" "\<nexists>s key. grants x ex v s key"
proof -
  have same: "grants x ex (clear_session v) = grants x ex v"
    by (rule grants_cong) (simp add: clear_session_def)
  have "refresh_finish x \<lparr>previous_session_id = (case session v of None \<Rightarrow> PNone | Some s \<Rightarrow> session_id s),
      previous_sequence = last_sequence v\<rparr> ex (clear_session v) = (v', r)"
    using assms by (simp add: refresh_session_def refresh_begin_def)
  then show ?thesis
  proof (cases rule: refresh_finish_cases)
    case (granted s key)
    then show ?thesis by (intro that(1) [of s key]) (simp_all add: same [unfolded clear_session_def] clear_session_def)
  next
    case refused
    then show ?thesis by (intro that(2)) (simp_all add: same)
  qed
qed

lemma wf_refresh_finish:
  assumes "refresh_finish x loc ex v = (v', r)" and "wf_verifier v" and "0 \<le> previous_sequence loc"
  shows "wf_verifier v'"
  using assms(1)
proof (cases rule: refresh_finish_cases)
  case (granted s key)
  with assms(2,3) show ?thesis by (auto simp: wf_verifier_def grants_def)
qed (use assms(2) in simp)

section \<open>The verifier as a gate\<close>

record packet_input =
  pk_raw :: pystr
  pk_sender :: pystr
  pk_wall :: pyfloat
  pk_now :: pyfloat

definition offer_packet :: "'k lib \<Rightarrow> packet_input \<Rightarrow> 'k verifier \<Rightarrow> 'k verifier \<times> pyval option" where
  "offer_packet x i v =
     (case verify_packet x (pk_raw i) (pk_sender i) (pk_wall i) (pk_now i) v of
        (v', Inr (Some packet)) \<Rightarrow> (v', Some packet)
      | (v', _) \<Rightarrow> (v', None))"

definition armed :: "'k verifier \<Rightarrow> bool" where
  "armed v \<longleftrightarrow> session v \<noteq> None \<and> verify_key v \<noteq> None"

definition packet_number :: "pyval \<Rightarrow> int" where
  "packet_number packet = (case int_field packet ''sequence'' of Inr n \<Rightarrow> n | Inl _ \<Rightarrow> 0)"

definition renew_session :: "'k lib \<Rightarrow> exchange \<Rightarrow> 'k verifier \<Rightarrow> 'k verifier" where
  "renew_session x ex v = fst (refresh_session x ex v)"

definition in_session :: "pystr \<Rightarrow> 'k verifier \<Rightarrow> bool" where
  "in_session k v \<longleftrightarrow> (case session v of None \<Rightarrow> False | Some s \<Rightarrow> session_id s = PStr k)"

lemma offer_packet_Some:
  "offer_packet x i v = (v', Some packet) \<longleftrightarrow>
     verify_packet x (pk_raw i) (pk_sender i) (pk_wall i) (pk_now i) v = (v', Inr (Some packet))"
  by (auto simp: offer_packet_def split: prod.splits sum.splits option.splits)

lemma offer_packet_None:
  "offer_packet x i v = (v', None) \<Longrightarrow>
     \<exists>r. verify_packet x (pk_raw i) (pk_sender i) (pk_wall i) (pk_now i) v = (v', r)
       \<and> (\<nexists>packet. r = Inr (Some packet))"
  by (auto simp: offer_packet_def split: prod.splits sum.splits option.splits)

lemma renew_session_eq:
  "renew_session x ex v = clear_session v
   \<or> (\<exists>s key. grants x ex v s key \<and> renew_session x ex v = v\<lparr>session := Some s, verify_key := Some key,
        last_sequence := if py_eq (session_id s)
                            (case session v of None \<Rightarrow> PNone | Some s \<Rightarrow> session_id s)
                         then last_sequence v else 0\<rparr>)"
proof -
  obtain v' r where eq: "refresh_session x ex v = (v', r)" by fastforce
  then have "renew_session x ex v = v'" by (simp add: renew_session_def)
  with eq show ?thesis
    by (cases rule: refresh_session_cases) (blast, simp)
qed

interpretation scv: renewable_gate "offer_packet x" armed last_sequence packet_number
  "renew_session x" in_session
proof
  fix i v v' packet
  assume "offer_packet x i v = (v', Some packet)"
  then have accept: "verify_packet x (pk_raw i) (pk_sender i) (pk_wall i) (pk_now i) v = (v', Inr (Some packet))"
    by (simp add: offer_packet_Some)
  from verify_accept_state [OF accept]
  show "armed v \<and> armed v' \<and> last_sequence v < packet_number packet
    \<and> last_sequence v' = packet_number packet"
    by (simp add: armed_def packet_number_def)
next
  fix i v v'
  assume "offer_packet x i v = (v', None)" "armed v'"
  then show "armed v \<and> last_sequence v' = last_sequence v"
    by (auto dest!: offer_packet_None verify_refuses simp: armed_def clear_session_def)
next
  fix v r k
  assume *: "armed v" "armed (renew_session x r v)" "in_session k v" "in_session k (renew_session x r v)"
  then have "renew_session x r v \<noteq> clear_session v"
    by (auto simp: armed_def clear_session_def)
  with renew_session_eq [of x r v] obtain s key where
    eq: "renew_session x r v = v\<lparr>session := Some s, verify_key := Some key,
        last_sequence := if py_eq (session_id s)
                            (case session v of None \<Rightarrow> PNone | Some s \<Rightarrow> session_id s)
                         then last_sequence v else 0\<rparr>"
    by blast
  from * show "last_sequence (renew_session x r v) = last_sequence v"
    unfolding eq by (auto simp: in_session_def split: option.splits)
qed

end
