(* ===== verification/Json_Facts.thy ===== *)
theory Json_Facts
  imports Json_Decode Py_Repr_Facts
begin

text \<open>
  What \<open>json.loads\<close> returns is well formed: every float in it is a binary64 value and every
  object in it has distinct keys.
\<close>

function (sequential) wf_value :: "pyval \<Rightarrow> bool" where
  "wf_value (PFloat x) \<longleftrightarrow> canonical x"
| "wf_value (PList vs) \<longleftrightarrow> (\<forall>v \<in> set vs. wf_value v)"
| "wf_value (PDict d) \<longleftrightarrow> distinct (dict_keys d) \<and> (\<forall>kv \<in> set d. wf_value (snd kv))"
| "wf_value v \<longleftrightarrow> True"
  by pat_completeness auto
termination
  by (relation "measure size") (auto dest: value_size)

lemma dict_set_values:
  "kv \<in> set (dict_set k v d) \<Longrightarrow> kv = (k, v) \<or> kv \<in> set d"
  by (induction k v d rule: dict_set.induct) (auto split: if_splits)

lemma wf_dict_set: "wf_value (PDict d) \<Longrightarrow> wf_value v \<Longrightarrow> wf_value (PDict (dict_set k v d))"
  by (auto simp: dict_set_distinct dest!: dict_set_values)

lemma wf_dict_get: "wf_value (PDict d) \<Longrightarrow> map_of d k = Some v \<Longrightarrow> wf_value v"
  by (fastforce dest: map_of_SomeD)

lemma py_getitem_wf: "wf_value v \<Longrightarrow> py_getitem v k = Inr w \<Longrightarrow> wf_value w"
  by (auto simp: py_getitem_eq_Inr_iff dest: wf_dict_get)

text \<open>Parsing a float text gives a canonical float.\<close>

lemma flt_of_decimal_canonical: "0 \<le> d \<Longrightarrow> canonical (flt_of_decimal s d k)"
  by (simp add: flt_of_decimal_real round_real_canonical)

lemma digits_val_takeWhile: "0 \<le> digits_val (takeWhile is_digit s @ takeWhile is_digit t)"
  by (rule digits_val_nonneg) (auto simp: list_all_iff dest: set_takeWhileD)

lemma parse_decimal_canonical: "parse_decimal neg s = Some x \<Longrightarrow> canonical x"
  using digits_val_takeWhile [of s] digits_val_takeWhile [of s "[]"]
  by (auto simp: parse_decimal_def Let_def intro!: flt_of_decimal_canonical
      split: if_splits list.splits)

lemma float_of_str_canonical: "float_of_str s = Inr x \<Longrightarrow> canonical x"
  by (auto simp: float_of_str_def Let_def option_or_iffs dest: parse_decimal_canonical
      split: prod.splits if_splits)

lemma flt_of_int_canonical: "flt_of_int n = Inr x \<Longrightarrow> canonical x"
  using round_ratio_canonical [of "\<bar>n\<bar>" 1 "n < 0"]
  by (auto simp: flt_of_int_def simp del: canonical.simps split: pyfloat.splits)

lemma py_float_canonical: "wf_value v \<Longrightarrow> py_float v = Inr x \<Longrightarrow> canonical x"
  by (cases v) (auto dest: float_of_str_canonical flt_of_int_canonical)

lemma scan_number_wf: "scan_number s = Done (v, r) \<Longrightarrow> wf_value v"
  by (auto simp: scan_number_def dest: float_of_str_canonical
      split: option.splits prod.splits sum.splits if_splits)

lemma scan_word_wf: "scan_word s = Some (v, r) \<Longrightarrow> wf_value v"
  by (auto simp: scan_word_def json_words_def split: list.splits if_splits)

lemma pbind_Done: "pbind p f = Done y \<longleftrightarrow> (\<exists>x. p = Done x \<and> f x = Done y)"
  by (cases p) auto

lemma parse_wf:
  "parse_value n d s = Done (v, r) \<Longrightarrow> wf_value v"
  "parse_items n d acc s = Done (v, r) \<Longrightarrow> \<forall>w \<in> set acc. wf_value w \<Longrightarrow> wf_value v"
  "parse_pairs n d dacc s = Done (v, r) \<Longrightarrow> wf_value (PDict dacc) \<Longrightarrow> wf_value v"
proof (induction n d s and n d acc s and n d dacc s arbitrary: v r and v r and v r
    rule: parse_value_parse_items_parse_pairs.induct)
  case (2 n d s)
  then show ?case
    by (auto simp: dict_keys_def dest: scan_number_wf scan_word_wf split: list.splits if_splits option.splits)
next
  case (4 n d acc s)
  from "4.prems"(1) obtain w r1 where w: "parse_value n d s = Done (w, r1)"
    and rest: "(case skip_ws r1 of
        c # r' \<Rightarrow> if c = 93 then Done (PList (rev (w # acc)), r')
            else if c = 44 then parse_items n d (w # acc) (skip_ws r') else Fail JSONDecodeError
      | [] \<Rightarrow> Fail JSONDecodeError) = Done (v, r)"
    by (auto simp: pbind_Done)
  have ok: "\<forall>x \<in> set (w # acc). wf_value x" using 4(1) [OF w] "4.prems"(2) by simp
  from rest obtain c r' where c: "skip_ws r1 = c # r'" by (cases "skip_ws r1") auto
  show ?case
  proof (cases "c = 93")
    case True
    with rest c ok show ?thesis by auto
  next
    case False
    with rest c have "c = 44" "parse_items n d (w # acc) (skip_ws r') = Done (v, r)"
      by (auto split: if_splits)
    with 4(2) [of r1 c r' w v r] False ok c show ?thesis by simp
  qed
next
  case (6 n d acc s)
  from "6.prems"(1) obtain s' k r1 r2 where s: "s = 34 # s'" "scan_string [] s' = Some (k, r1)"
    "skip_ws r1 = 58 # r2"
    and rest: "pbind (parse_value n d (skip_ws r2)) (\<lambda>(w, r3). case skip_ws r3 of
            [] \<Rightarrow> Fail JSONDecodeError
          | c' # r4 \<Rightarrow> if c' = 125 then Done (PDict (dict_set k w acc), r4)
              else if c' = 44 then parse_pairs n d (dict_set k w acc) (skip_ws r4)
              else Fail JSONDecodeError) = Done (v, r)"
    by (auto split: list.splits if_splits option.splits)
  then obtain w r3 where w: "parse_value n d (skip_ws r2) = Done (w, r3)"
    by (auto simp: pbind_Done)
  have "wf_value w" using 6(1) s w by simp
  with "6.prems"(2) have ok: "wf_value (PDict (dict_set k w acc))" by (intro wf_dict_set)
  from rest w obtain c r4 where c: "skip_ws r3 = c # r4" by (cases "skip_ws r3") auto
  show ?case
  proof (cases "c = 125")
    case True
    with rest w c ok show ?thesis by simp
  next
    case False
    with rest w c have "c = 44" "parse_pairs n d (dict_set k w acc) (skip_ws r4) = Done (v, r)"
      by (auto split: if_splits)
    with 6(2) [OF s(1) _ s(2) refl s(3) _ c] False ok show ?thesis by simp
  qed
qed simp_all

lemma json_loads_wf: "json_loads limit s = Inr v \<Longrightarrow> wf_value v"
  by (auto simp: json_loads_def simp del: parse_value.simps dest!: parse_wf(1)
      split: if_splits parse.splits)

end
