(* ===== verification/Sign_Facts.thy ===== *)
theory Sign_Facts
  imports Session_Facts Json_Facts
begin

text \<open>
  The signed text determines what the packet means. \<open>read_int\<close> and \<open>read_float\<close> recover the
  number from the text of a field, whatever JSON type the field had, and no field of a valid
  command holds the separator.
\<close>

section \<open>Numbers from their text\<close>

definition TRUE :: pystr where "TRUE = u ''True''"
definition FALSE :: pystr where "FALSE = u ''False''"

lemma int_of_str_chars:
  assumes "int_of_str s = Inr n" and "c \<in> set s"
    and c: "c < 127" "\<not> is_digit c" "\<not> ascii_space c" "c \<noteq> 95" "c \<noteq> 43" "c \<noteq> 45"
  shows False
proof -
  obtain neg body ds where
    t: "split_sign (number_text s) = (neg, body)" and ds: "digits_us body = Some ds"
    using assms(1) by (auto simp: int_of_str_def split: prod.splits option.splits if_splits)
  have "ascii_form c = c" using c(1) by (simp add: ascii_form_def)
  with assms(2) have "c \<in> set (map ascii_form s)" by (metis image_eqI list.set_map)
  then have "c \<in> set (number_text s)" using c(3) by (simp add: number_text_def strip_keeps)
  with split_sign_set [OF t] c have "c \<in> set ds"
    using digits_us_Some(1) [OF ds] by auto
  with digits_us_Some(2) [OF ds] c(2) show False by (auto simp: list_all_iff)
qed

lemma format_digits_mark: "46 \<in> set (format_digits ds k) \<or> 101 \<in> set (format_digits ds k)"
  by (simp add: format_digits_def exp_str_eq u_def Let_def)

lemma float_repr_mark: "canonical (Fin s m e) \<Longrightarrow> 46 \<in> set (float_repr (Fin s m e)) \<or> 101 \<in> set (float_repr (Fin s m e))"
proof (cases "m = 0")
  case False
  moreover assume "canonical (Fin s m e)"
  ultimately obtain ds k where "float_repr (Fin s m e) = (if s then [45] else []) @ format_digits ds k"
    using float_repr_finite [of s m e] by auto
  then show ?thesis using format_digits_mark [of ds k] by auto
qed (simp add: u_def)

lemma float_repr_no_int:
  assumes "canonical (Fin s m e)"
  shows "int_of_str (float_repr (Fin s m e)) \<noteq> Inr n"
proof
  assume int: "int_of_str (float_repr (Fin s m e)) = Inr n"
  from float_repr_mark [OF assms] show False
    by (elim disjE) (erule int_of_str_chars [OF int]; simp add: is_digit_def ascii_space_def)+
qed

lemma words_no_number: "int_of_str TRUE = Inl ValueError" "int_of_str FALSE = Inl ValueError"
  "float_of_str TRUE = Inl ValueError" "float_of_str FALSE = Inl ValueError"
  by (simp_all add: TRUE_def FALSE_def u_def int_of_str_def float_of_str_def number_text_def strip_def
      ascii_form_def ascii_space_def split_sign_def lower_def is_digit_def parse_decimal_def)

definition read_int :: "pystr \<Rightarrow> int res" where
  "read_int t =
     (if t = TRUE then Inr 1 else if t = FALSE then Inr 0
      else case int_of_str t of Inr n \<Rightarrow> Inr n | Inl _ \<Rightarrow> rbind (float_of_str t) flt_to_int)"

definition read_float :: "pystr \<Rightarrow> pyfloat res" where
  "read_float t =
     (if t = TRUE then flt_of_int 1 else if t = FALSE then flt_of_int 0 else float_of_str t)"

lemma float_of_int_str:
  assumes "length (dec_digits \<bar>n\<bar>) \<le> max_str_digits"
  shows "float_of_str (int_str n) = Inr (round_ratio (n < 0) \<bar>n\<bar> 1)"
proof -
  note d = dec_digits_props [of "\<bar>n\<bar>", simplified]
  obtain c r where cr: "dec_digits \<bar>n\<bar> = c # r" "is_digit c" using d by (cases "dec_digits \<bar>n\<bar>") auto
  have "int_str n = (if n < 0 then [45] else []) @ dec_digits \<bar>n\<bar>"
    by (simp add: int_str_def)
  with float_of_number_text [OF digits_chars [OF d(1)] cr, of "n < 0"] d show ?thesis
    by (simp add: parse_decimal_digits)
qed

lemma int_str_no_word: "int_str n \<noteq> TRUE" "int_str n \<noteq> FALSE"
  using dec_digits_props(1) [of "\<bar>n\<bar>"]
  by (auto simp: int_str_def TRUE_def FALSE_def u_def list_all_iff is_digit_def dest: arg_cong [of _ _ set])

lemma read_int_text:
  assumes "wf_value v" and "py_int v = Inr n" and "py_str pr v = Inr t"
  shows "read_int t = Inr n"
proof (cases v)
  case (PInt m)
  with assms have "t = int_str n" "length (dec_digits \<bar>n\<bar>) \<le> max_str_digits"
    by (auto simp: str_of_int_def split: if_splits)
  then show ?thesis using int_of_int_str int_str_no_word by (simp add: read_int_def)
next
  case (PFloat x)
  then obtain s m e where x: "x = Fin s m e" using assms(2) by (cases x) auto
  have can: "canonical x" and t: "t = float_repr x" and n: "flt_to_int x = Inr n"
    using PFloat assms by auto
  have reads: "float_of_str t = Inr x" using float_of_str_repr [OF can] t by simp
  then have "t \<noteq> TRUE" "t \<noteq> FALSE" using words_no_number by auto
  moreover obtain err where "int_of_str t = Inl err"
    using float_repr_no_int [of s m e] can unfolding t x by (cases "int_of_str (float_repr (Fin s m e))") auto
  ultimately show ?thesis using reads n by (simp add: read_int_def)
next
  case (PStr s)
  with assms have "int_of_str t = Inr n" by simp
  then show ?thesis using words_no_number by (auto simp: read_int_def)
qed (use assms in \<open>auto simp: read_int_def TRUE_def FALSE_def split: if_splits\<close>)

lemma read_float_text:
  assumes "wf_value v" and "py_float v = Inr x" and "py_str pr v = Inr t"
  shows "read_float t = Inr x"
proof (cases v)
  case (PInt m)
  with assms have t: "t = int_str m" "length (dec_digits \<bar>m\<bar>) \<le> max_str_digits"
    by (auto simp: str_of_int_def split: if_splits)
  moreover have "x = round_ratio (m < 0) \<bar>m\<bar> 1"
    using PInt assms(2) by (auto simp: flt_of_int_def split: pyfloat.splits)
  ultimately show ?thesis using float_of_int_str int_str_no_word by (simp add: read_float_def)
next
  case (PFloat y)
  then have "canonical x" "t = float_repr x" using assms by auto
  then have "float_of_str t = Inr x" using float_of_str_repr [of x] by simp
  then show ?thesis using words_no_number by (auto simp: read_float_def)
next
  case (PStr s)
  with assms have "float_of_str t = Inr x" by simp
  then show ?thesis using words_no_number by (auto simp: read_float_def)
qed (use assms in \<open>auto simp: read_float_def TRUE_def FALSE_def split: if_splits\<close>)

section \<open>No separator in a number\<close>

lemma read_int_no_bar: "read_int t = Inr n \<Longrightarrow> 124 \<notin> set t"
  by (auto simp: read_int_def TRUE_def FALSE_def u_def rbind_iffs split: if_splits sum.splits
      dest: int_of_str_no_bar float_of_str_no_bar)

lemma read_float_no_bar: "read_float t = Inr x \<Longrightarrow> 124 \<notin> set t"
  by (auto simp: read_float_def TRUE_def FALSE_def u_def split: if_splits dest: float_of_str_no_bar)

section \<open>The fields of a command\<close>

definition fields_command :: "pystr list \<Rightarrow> actuation res" where
  \<comment> \<open>the actuator values, from the texts of the command's fields\<close>
  "fields_command fs =
     (case fs of
        [mode, action] \<Rightarrow> Inr (resolve_action (PStr action))
      | [s, t, b] \<Rightarrow>
          rbind (read_float s) (\<lambda>s. rbind (read_float t) (\<lambda>t. rbind (read_float b) (\<lambda>b.
          Inr \<lparr>steering = s, throttle = t, brake = b, direction = f1\<rparr>)))
      | [mode, s, t, b, d] \<Rightarrow>
          rbind (read_float s) (\<lambda>s. rbind (read_float t) (\<lambda>t. rbind (read_float b) (\<lambda>b.
          rbind (read_float d) (\<lambda>d.
          Inr \<lparr>steering = s, throttle = t, brake = b, direction = d\<rparr>))))
      | _ \<Rightarrow> Inl ValueError)"

lemma str_field_read:
  assumes "str_field pr (PDict d) k = Inr t" and "wf_value (PDict d)"
    and "py_getitem (PDict d) (u k) = Inr v" and "py_float v = Inr x"
  shows "read_float t = Inr x \<and> 124 \<notin> set t"
proof -
  have "py_str pr v = Inr t" using assms(1,3) by (simp add: str_field_def)
  moreover have "wf_value v" using py_getitem_wf [OF assms(2,3)] .
  ultimately have "read_float t = Inr x" using assms(4) by (intro read_float_text)
  then show ?thesis using read_float_no_bar by blast
qed

lemma actions_no_bar: "a \<in> set HIGH_LEVEL_ACTIONS \<Longrightarrow> 124 \<notin> set a"
  by (auto simp: HIGH_LEVEL_ACTIONS_def u_def)

lemma modes_no_bar: "124 \<notin> set HIGH_LEVEL_MODE" "124 \<notin> set LOW_LEVEL_MODE"
  by (simp_all add: protocol_constants u_def)

lemma flt_of_int_1: "flt_of_int 1 = Inr f1"
  by (simp add: flt_of_int_def small_constants)

text \<open>The fields of a valid command hold no separator and resolve to what the command resolves to.\<close>

lemma command_fields_read:
  assumes valid: "valid_command command = Inr True" and wf: "wf_value command"
    and fs: "command_fields pr command = Inr fs"
  shows "resolve_command command = fields_command fs \<and> (\<forall>f \<in> set fs. 124 \<notin> set f)"
  using valid
proof (cases rule: valid_command_cases)
  case (high d a)
  with fs have "fs = [HIGH_LEVEL_MODE, a]"
    by (simp add: command_fields_def mode_is_dict str_field_def)
  with high show ?thesis
    using actions_no_bar modes_no_bar
    by (simp add: resolve_command_def mode_is_dict fields_command_def)
next
  case (low d dir)
  have modes: "HIGH_LEVEL_MODE \<noteq> LOW_LEVEL_MODE" by (simp add: protocol_constants)
  from low(4) show ?thesis
  proof (rule valid_ranges_True)
    fix v1 v2 v3 s t b k
    assume v: "py_getitem command (u ''steering'') = Inr v1" "py_float v1 = Inr s"
      "py_getitem command (u ''throttle'') = Inr v2" "py_float v2 = Inr t"
      "py_getitem command (u ''brake'') = Inr v3" "py_float v3 = Inr b"
      and k: "py_int dir = Inr k" "k \<in> {-1, 0, 1}"
    obtain x where x: "py_float dir = Inr x" using py_float_of_py_int [OF k] by blast
    from fs low modes obtain t1 t2 t3 t4 where
      ts: "str_field pr command ''steering'' = Inr t1" "str_field pr command ''throttle'' = Inr t2"
        "str_field pr command ''brake'' = Inr t3" "py_str pr dir = Inr t4"
        "fs = [LOW_LEVEL_MODE, t1, t2, t3, t4]"
      by (auto simp: command_fields_def mode_is_dict rbind_iffs)
    have dict: "command = PDict d" by (rule low(1))
    note reads = str_field_read [OF ts(1) [unfolded dict] wf [unfolded dict] v(1) [unfolded dict] v(2)]
      str_field_read [OF ts(2) [unfolded dict] wf [unfolded dict] v(3) [unfolded dict] v(4)]
      str_field_read [OF ts(3) [unfolded dict] wf [unfolded dict] v(5) [unfolded dict] v(6)]
    have "wf_value dir" using wf low by (auto dest: wf_dict_get simp del: wf_value.simps)
    from read_float_text [OF this x ts(4)] have r4: "read_float t4 = Inr x" .
    have "resolve_command command = Inr \<lparr>steering = s, throttle = t, brake = b, direction = x\<rparr>"
      using v low x modes by (simp add: resolve_command_def mode_is_dict)
    then show ?thesis
      using reads r4 read_float_no_bar [OF r4] modes_no_bar ts(5) by (simp add: fields_command_def)
  qed
next
  case (plain d)
  from plain(4) show ?thesis
  proof (rule valid_ranges_True)
    fix v1 v2 v3 s t b k
    assume v: "py_getitem command (u ''steering'') = Inr v1" "py_float v1 = Inr s"
      "py_getitem command (u ''throttle'') = Inr v2" "py_float v2 = Inr t"
      "py_getitem command (u ''brake'') = Inr v3" "py_float v3 = Inr b"
    from fs plain obtain t1 t2 t3 where
      ts: "str_field pr command ''steering'' = Inr t1" "str_field pr command ''throttle'' = Inr t2"
        "str_field pr command ''brake'' = Inr t3" "fs = [t1, t2, t3]"
      by (auto simp: command_fields_def mode_is_dict rbind_iffs)
    have dict: "command = PDict d" by (rule plain(1))
    note reads = str_field_read [OF ts(1) [unfolded dict] wf [unfolded dict] v(1) [unfolded dict] v(2)]
      str_field_read [OF ts(2) [unfolded dict] wf [unfolded dict] v(3) [unfolded dict] v(4)]
      str_field_read [OF ts(3) [unfolded dict] wf [unfolded dict] v(5) [unfolded dict] v(6)]
    have "resolve_command command = Inr \<lparr>steering = s, throttle = t, brake = b, direction = f1\<rparr>"
      using v plain by (simp add: resolve_command_def mode_is_dict flt_of_int_1)
    then show ?thesis using reads ts(4) by (simp add: fields_command_def)
  qed
qed

section \<open>The whole message\<close>

lemma version_no_bar:
  assumes "eq_int v 1" and "wf_value v" and "py_str pr v = Inr t"
  shows "124 \<notin> set t"
proof -
  have "py_int v = Inr 1 \<or> (\<exists>x. v = PFloat x)" using assms(1) by (cases v) auto
  then show ?thesis
  proof
    assume "py_int v = Inr 1"
    from read_int_text [OF assms(2) this assms(3)] show ?thesis by (rule read_int_no_bar)
  next
    assume "\<exists>x. v = PFloat x"
    then obtain x where "py_float v = Inr x" by auto
    from read_float_text [OF assms(2) this assms(3)] show ?thesis by (rule read_float_no_bar)
  qed
qed

lemma int_field_read:
  assumes "int_field (PDict d) k = Inr n" and "wf_value (PDict d)" and "str_field pr (PDict d) k = Inr t"
  shows "read_int t = Inr n"
proof -
  obtain v where v: "py_getitem (PDict d) (u k) = Inr v" "py_int v = Inr n" "py_str pr v = Inr t"
    using assms(1,3) by (auto simp: int_field_def str_field_def rbind_iffs)
  from read_int_text [OF py_getitem_wf [OF assms(2) v(1)] v(2,3)] show ?thesis .
qed

lemma message_parts:
  assumes d: "wf_value (PDict d)" "map_of d (u ''version'') = Some version" "eq_int version 1"
      "map_of d (u ''type'') = Some (PStr ty)" "map_of d (u ''session_id'') = Some (PStr sid)"
      "int_field (PDict d) ''sequence'' = Inr sq" "int_field (PDict d) ''timestamp_ms'' = Inr ts"
      "map_of d (u ''command'') = Some command" "valid_command command = Inr True"
    and msg: "build_sign_message pr (PDict d) = Inr msg"
  obtains vt st tt cf where
    "msg = vt @ 124 # ty @ 124 # sid @ 124 # join [124] (st # tt # cf)" "124 \<notin> set vt"
    "\<forall>f \<in> set (st # tt # cf). 124 \<notin> set f"
    "read_int st = Inr sq" "read_int tt = Inr ts" "resolve_command command = fields_command cf"
proof -
  from msg d obtain vt st tt cf where f: "py_str pr version = Inr vt"
      "str_field pr (PDict d) ''sequence'' = Inr st" "str_field pr (PDict d) ''timestamp_ms'' = Inr tt"
      "command_fields pr command = Inr cf"
    and m: "msg = join (u ''|'') ([vt, ty, sid, st, tt] @ cf)"
    by (auto simp: build_sign_message_def sign_fields_def rbind_iffs str_field_def option_or_iffs)
  have wf: "wf_value version" "wf_value command"
    using wf_dict_get [OF d(1)] d(2,8) by blast+
  have c: "resolve_command command = fields_command cf" "\<forall>f \<in> set cf. 124 \<notin> set f"
    using command_fields_read [OF d(9) wf(2) f(4)] by auto
  have r: "read_int st = Inr sq" "read_int tt = Inr ts"
    using int_field_read [OF d(6) d(1) f(2)] int_field_read [OF d(7) d(1) f(3)] by auto
  have vt: "124 \<notin> set vt" by (rule version_no_bar [OF d(3) wf(1) f(1)])
  have "u ''|'' = [124]" by (simp add: u_def)
  then have "msg = vt @ 124 # ty @ 124 # sid @ 124 # join [124] (st # tt # cf)"
    using m by simp
  from that [OF this vt _ r c(1)] show ?thesis
    using c(2) r read_int_no_bar by auto
qed

lemma join_same:
  assumes "join [c] xs = join [c] ys" and "xs \<noteq> []" and "ys \<noteq> []"
    and "\<forall>x \<in> set xs. c \<notin> set x" and "\<forall>y \<in> set ys. c \<notin> set y"
  shows "xs = ys"
proof -
  have "length xs - 1 = length ys - 1"
    using count_join [OF assms(4)] count_join [OF assms(5)] assms(1) by simp
  then have "length xs = length ys" using assms(2,3) by (cases xs; cases ys) auto
  from join_inject [OF assms(1) this assms(4,5)] show ?thesis .
qed

text \<open>Two admissible packets of one session with the same signed text mean the same.\<close>

lemma same_message_same_meaning:
  assumes "admissible x raw sender wall v packet sq" and "admissible x raw' sender' wall' v' packet' sq'"
    and "session v = Some s" and "session v' = Some s'"
    and "session_id s = PStr sid" and "session_id s' = PStr sid"
    and "build_sign_message (printable x) packet = build_sign_message (printable x) packet'"
  shows "sq = sq' \<and> int_field packet ''timestamp_ms'' = int_field packet' ''timestamp_ms''
    \<and> rbind (py_getitem packet (u ''command'')) resolve_command
      = rbind (py_getitem packet' (u ''command'')) resolve_command"
proof -
  obtain d ver ts command msg where p: "packet = PDict d" "wf_value (PDict d)"
    "map_of d (u ''version'') = Some ver" "eq_int ver 1"
    "map_of d (u ''type'') = Some (PStr CONTROL_TYPE)" "map_of d (u ''session_id'') = Some (PStr sid)"
    "int_field (PDict d) ''sequence'' = Inr sq" "int_field (PDict d) ''timestamp_ms'' = Inr ts"
    "map_of d (u ''command'') = Some command" "valid_command command = Inr True"
    "build_sign_message (printable x) (PDict d) = Inr msg"
    using assms(1,3,5) by (auto simp: admissible_def PROTOCOL_VERSION_def py_eq_str_iff dest: json_loads_wf)
  obtain d' ver' ts' command' where p': "packet' = PDict d'" "wf_value (PDict d')"
    "map_of d' (u ''version'') = Some ver'" "eq_int ver' 1"
    "map_of d' (u ''type'') = Some (PStr CONTROL_TYPE)" "map_of d' (u ''session_id'') = Some (PStr sid)"
    "int_field (PDict d') ''sequence'' = Inr sq'" "int_field (PDict d') ''timestamp_ms'' = Inr ts'"
    "map_of d' (u ''command'') = Some command'" "valid_command command' = Inr True"
    using assms(2,4,6) by (auto simp: admissible_def PROTOCOL_VERSION_def py_eq_str_iff dest: json_loads_wf)
  have msg': "build_sign_message (printable x) (PDict d') = Inr msg"
    using assms(7) p(1,11) p'(1) by simp
  obtain vt st tt cf where
    m: "msg = vt @ 124 # CONTROL_TYPE @ 124 # sid @ 124 # join [124] (st # tt # cf)" "124 \<notin> set vt"
    "\<forall>f \<in> set (st # tt # cf). 124 \<notin> set f"
    "read_int st = Inr sq" "read_int tt = Inr ts" "resolve_command command = fields_command cf"
    by (rule message_parts [OF p(2-11)])
  obtain vt' st' tt' cf' where
    m': "msg = vt' @ 124 # CONTROL_TYPE @ 124 # sid @ 124 # join [124] (st' # tt' # cf')" "124 \<notin> set vt'"
    "\<forall>f \<in> set (st' # tt' # cf'). 124 \<notin> set f"
    "read_int st' = Inr sq'" "read_int tt' = Inr ts'" "resolve_command command' = fields_command cf'"
    by (rule message_parts [OF p'(2-10) msg'])
  have "vt = vt' \<and> CONTROL_TYPE @ 124 # sid @ 124 # join [124] (st # tt # cf)
      = CONTROL_TYPE @ 124 # sid @ 124 # join [124] (st' # tt' # cf')"
    using split_at_unique [OF m(1) [unfolded m'(1), symmetric] m(2) m'(2)] .
  then have "join [124] (st # tt # cf) = join [124] (st' # tt' # cf')" by simp
  then have "st # tt # cf = st' # tt' # cf'"
    by (rule join_same) (use m(3) m'(3) in auto)
  with m m' p p' show ?thesis by simp
qed

end
