(* ===== verification/Loss_Counter.thy ===== *)
theory Loss_Counter
  imports Prelude
begin

text \<open>
  The packet-loss count both runtimes keep: the contract of their counting step and what it adds
  up to over a run of increasing sequence numbers.
\<close>

lemma increasing_bounds:
  "sorted_wrt (<) ((n :: int) # ns) \<Longrightarrow> m \<in> set (n # ns) \<Longrightarrow> n \<le> m \<and> m \<le> last (n # ns)"
proof (induction ns arbitrary: n m)
  case (Cons k ns)
  have sorted: "sorted_wrt (<) (k # ns)" and "n < k" using Cons.prems(1) by auto
  have "k \<le> last (k # ns)" using Cons.IH [OF sorted, of k] by simp
  with Cons.IH [OF sorted, of m] Cons.prems(2) \<open>n < k\<close> show ?case by auto
qed simp

text \<open>The numbers missing between what was seen and the next, summed over a run.\<close>

fun gaps :: "int option \<Rightarrow> int list \<Rightarrow> int" where
  "gaps seen [] = 0"
| "gaps None (n # ns) = gaps (Some n) ns"
| "gaps (Some m) (n # ns) = max 0 (n - m - 1) + gaps (Some n) ns"

locale loss_counter =
  fixes step :: "int \<Rightarrow> 's \<Rightarrow> 's"
    and lost :: "'s \<Rightarrow> int"
    and seen :: "'s \<Rightarrow> int option"
  assumes step_seen: "seen (step n s) = Some n"
    and step_first: "seen s = None \<Longrightarrow> lost (step n s) = lost s"
    and step_next: "seen s = Some m \<Longrightarrow> lost (step n s) = lost s + max 0 (n - m - 1)"
begin

lemma never_decreases: "lost s \<le> lost (step n s)"
  using step_first [of s n] step_next [of s _ n] by (cases "seen s") auto

lemma run_gaps: "lost (fold step ns s) = lost s + gaps (seen s) ns"
proof (induction ns arbitrary: s)
  case (Cons n ns)
  from Cons.IH [of "step n s"] show ?case
    using step_seen [of n s] step_first [of s n] step_next [of s _ n] by (cases "seen s") simp_all
qed simp

lemma run_after:
  "seen s = Some m \<Longrightarrow> sorted_wrt (<) (m # ns) \<Longrightarrow>
     lost (fold step ns s) = lost s + (last (m # ns) - m) - int (length ns)
   \<and> seen (fold step ns s) = Some (last (m # ns))"
proof (induction ns arbitrary: s m)
  case (Cons n ns)
  have "seen (step n s) = Some n" by (rule step_seen)
  moreover have "sorted_wrt (<) (n # ns)" "m < n" using Cons.prems(2) by auto
  ultimately have "lost (fold step ns (step n s)) = lost (step n s) + (last (n # ns) - n) - int (length ns)
      \<and> seen (fold step ns (step n s)) = Some (last (n # ns))"
    by (intro Cons.IH)
  moreover have "lost (step n s) = lost s + (n - m - 1)"
    using step_next [OF Cons.prems(1)] \<open>m < n\<close> by simp
  ultimately show ?case by simp
qed simp

text \<open>
  From a fresh counter, a run of increasing numbers counts exactly the numbers between the first
  and the last that are not in the run.
\<close>

lemma run_counts_missing:
  assumes "seen s = None" and "sorted_wrt (<) (n # ns)"
  shows "lost (fold step (n # ns) s) = lost s + int (card ({n..last (n # ns)} - set (n # ns)))"
proof -
  have run: "lost (fold step (n # ns) s) = lost s + (last (n # ns) - n) - int (length ns)"
    using run_after [of "step n s" n ns, OF step_seen assms(2)] step_first [OF assms(1)] by simp
  note le = increasing_bounds [OF assms(2)]
  have sub: "set (n # ns) \<subseteq> {n..last (n # ns)}" using le by auto
  have "card (set (n # ns)) = length (n # ns)"
    using sorted_wrt_less_distinct [OF assms(2)] by (rule distinct_card)
  moreover have "n \<le> last (n # ns)" using le [of n] by simp
  moreover have "card (set (n # ns)) \<le> card {n..last (n # ns)}" by (rule card_mono) (use sub in auto)
  ultimately have "int (card ({n..last (n # ns)} - set (n # ns))) = last (n # ns) - n - int (length ns)"
    using card_Diff_subset [OF _ sub] by simp
  with run show ?thesis by simp
qed

end

end
