(* ===== verification/Runtime_Facts.thy ===== *)
theory Runtime_Facts
  imports Session_Runtime Secure_Runtime Sign_Facts Loss_Counter
begin

text \<open>
  The two runtimes: what one handler call does to the brake, the counters and the audit queue,
  the loss count, the watchdog and the percentile of the telemetry report.
\<close>

section \<open>Loss count\<close>

interpretation srl: loss_counter count_lost lost_count seen_sequence
  by unfold_locales (auto simp: count_lost_def)

interpretation arl: loss_counter agent_count_lost agent_lost last_seen_seq
  by unfold_locales (auto simp: agent_count_lost_def Let_def)

lemma count_lost_frame [frame_simps]:
  "verifier (count_lost n r) = verifier r" "brake_controller (count_lost n r) = brake_controller r"
  "latencies (count_lost n r) = latencies r" "audit_events (count_lost n r) = audit_events r"
  "last_audit_at (count_lost n r) = last_audit_at r" "running (count_lost n r) = running r"
  by (auto simp: count_lost_def split: option.splits)

section \<open>The packet handler\<close>

lemma queue_audit_frame [frame_simps]:
  "verifier (queue_audit_event ev why now r) = verifier r"
  "brake_controller (queue_audit_event ev why now r) = brake_controller r"
  "latencies (queue_audit_event ev why now r) = latencies r"
  "lost_count (queue_audit_event ev why now r) = lost_count r"
  "seen_sequence (queue_audit_event ev why now r) = seen_sequence r"
  "running (queue_audit_event ev why now r) = running r"
  by (simp_all add: queue_audit_event_def Let_def)

lemma admissible_values:
  assumes "admissible x raw sender wall v packet sq"
  obtains ts command c where "int_field packet ''sequence'' = Inr sq" "int_field packet ''timestamp_ms'' = Inr ts"
    "py_getitem packet (u ''command'') = Inr command" "valid_command command = Inr True"
    "resolve_command command = Inr c"
    "in_range (-1) 1 (steering c)" "in_range 0 1 (throttle c)" "in_range 0 1 (brake c)"
    "is_finite (direction c)" "\<bar>rval (direction c)\<bar> < 2"
proof -
  from assms obtain d ts command where p: "packet = PDict d" "int_field packet ''sequence'' = Inr sq"
    "int_field packet ''timestamp_ms'' = Inr ts" "map_of d (u ''command'') = Some command"
    "valid_command command = Inr True"
    by (auto simp: admissible_def)
  from resolve_valid [OF p(5)] obtain c where "resolve_command command = Inr c"
    "in_range (-1) 1 (steering c)" "in_range 0 1 (throttle c)" "in_range 0 1 (brake c)"
    "is_finite (direction c)" "\<bar>rval (direction c)\<bar> < 2" by blast
  with that [of ts command c] p show ?thesis by simp
qed

text \<open>A packet the verifier passes is always applied, whatever the audit queue does.\<close>

lemma apply_packet_ok:
  assumes "int_field packet ''sequence'' = Inr sq" "int_field packet ''timestamp_ms'' = Inr ts"
    "py_getitem packet (u ''command'') = Inr command" "resolve_command command = Inr c"
    "millis (handler_wall t) = Inr n"
  shows "snd (apply_packet t packet r) = Inr ()"
    and "brake_controller (fst (apply_packet t packet r)) =
      apply_control (PStr (u ''remote'')) c (brake_controller r)"
    and "latencies (fst (apply_packet t packet r)) = latencies r @ [max 0 (n - ts)]"
    and "lost_count (fst (apply_packet t packet r)) = lost_count (count_lost sq r)"
    and "seen_sequence (fst (apply_packet t packet r)) = Some sq"
    and "verifier (fst (apply_packet t packet r)) = verifier r"
    and "running (fst (apply_packet t packet r)) = running r"
  using assms
  by (simp_all add: apply_packet_def Let_def frame_simps count_lost_frame srl.step_seen)

lemma apply_packet_clock_fails:
  assumes "int_field packet ''sequence'' = Inr sq" "millis (handler_wall t) = Inl e"
  shows "apply_packet t packet r = (count_lost sq r, Inl e)"
  using assms by (simp add: apply_packet_def Let_def)

lemma on_message_cases:
  assumes "on_datachannel_message x raw sender t r = (r', res)"
  obtains (refused) v' where
      "verify_packet x raw sender (verify_wall t) (verify_mono t) (verifier r) = (v', Inr None)"
      "res = Inr ()"
      "r' = queue_audit_event (u ''command_rejected'') (u ''session command validation failed'')
              (audit_mono t) (r\<lparr>verifier := v'\<rparr>)"
  | (raised) e where
      "verify_packet x raw sender (verify_wall t) (verify_mono t) (verifier r) = (verifier r', Inl e)"
      "res = Inl e" "r' = r\<lparr>verifier := verifier r'\<rparr>"
  | (accepted) v' packet sq where
      "verify_packet x raw sender (verify_wall t) (verify_mono t) (verifier r) = (v', Inr (Some packet))"
      "admissible x raw sender (verify_wall t) (verifier r) packet sq"
      "v' = verifier r\<lparr>last_sequence := sq, last_valid_cmd_time := verify_mono t\<rparr>"
      "(r', res) = apply_packet t packet (r\<lparr>verifier := v'\<rparr>)"
proof -
  obtain v' out where v: "verify_packet x raw sender (verify_wall t) (verify_mono t) (verifier r) = (v', out)"
    by fastforce
  show ?thesis
  proof (cases out)
    case (Inl e)
    with assms v raised show ?thesis by (auto simp: on_datachannel_message_def)
  next
    case (Inr o')
    show ?thesis
    proof (cases o')
      case None
      with assms v Inr refused show ?thesis by (auto simp: on_datachannel_message_def)
    next
      case (Some packet)
      with v Inr obtain sq where "admissible x raw sender (verify_wall t) (verifier r) packet sq"
        "v' = verifier r\<lparr>last_sequence := sq, last_valid_cmd_time := verify_mono t\<rparr>"
        by (auto simp: verify_accepts)
      with assms v Inr Some accepted show ?thesis by (auto simp: on_datachannel_message_def)
    qed
  qed
qed

end
