(* ===== verification/Node_Facts.thy ===== *)
theory Node_Facts
  imports Vehicle_Node Runtime_Facts
begin

text \<open>
  What every operation of the runtime keeps, and what every step of the node keeps.
\<close>

section \<open>The runtime's invariant\<close>

definition drivable :: "actuation \<Rightarrow> bool" where
  "drivable c \<longleftrightarrow> in_range (-1) 1 (steering c) \<and> in_range 0 1 (throttle c) \<and> in_range 0 1 (brake c)
     \<and> is_finite (direction c) \<and> \<bar>rval (direction c)\<bar> < 2"

definition brake_inv :: "actuation brake_state \<Rightarrow> bool" where
  "brake_inv b \<longleftrightarrow> latch_of False (outputs b) = in_emergency b
     \<and> (\<forall>cmd c. (cmd, c) \<in> set (applied_of (outputs b)) \<longrightarrow> cmd = PStr (u ''remote'') \<and> drivable c)"

definition counters_inv :: "'k runtime \<Rightarrow> bool" where
  "counters_inv r \<longleftrightarrow> (\<forall>l \<in> set (latencies r). 0 \<le> l) \<and> 0 \<le> lost_count r"

definition runtime_inv :: "'k runtime \<Rightarrow> bool" where
  "runtime_inv r \<longleftrightarrow> wf_verifier (verifier r) \<and> brake_inv (brake_controller r) \<and> counters_inv r"

lemma brake_inv_apply: "brake_inv b \<Longrightarrow> drivable c \<Longrightarrow> brake_inv (apply_control (PStr (u ''remote'')) c b)"
  unfolding brake_inv_def using ebc.apply_tracks [of b] by (simp add: ebc.applied_apply)

lemma brake_inv_emergency: "brake_inv b \<Longrightarrow> brake_inv (emergency_brake why b)"
  unfolding brake_inv_def using ebc.brake_tracks [of b] by (simp add: ebc.applied_brake)

text \<open>What one call of the packet handler does to the brake and the counters.\<close>

lemma on_message_effect:
  assumes "on_datachannel_message x raw sender t r = (r', res)"
  obtains (kept) "brake_controller r' = brake_controller r" "latencies r' = latencies r"
      "lost_count r' \<ge> lost_count r"
  | (applied) v packet c l where
      "verify_packet x raw sender (verify_wall t) (verify_mono t) (verifier r) = (v, Inr (Some packet))"
      "drivable c" "brake_controller r' = apply_control (PStr (u ''remote'')) c (brake_controller r)"
      "latencies r' = latencies r @ [l]" "0 \<le> l" "lost_count r' \<ge> lost_count r"
      "rbind (py_getitem packet (u ''command'')) resolve_command = Inr c"
  using assms
proof (cases rule: on_message_cases)
  case (refused v')
  then show ?thesis by (intro kept) (simp_all add: frame_simps)
next
  case (raised e)
  show ?thesis by (rule kept) (subst raised(3), simp)+
next
  case (accepted v' packet sq)
  from accepted(2) obtain ts command c where p: "int_field packet ''sequence'' = Inr sq"
    "int_field packet ''timestamp_ms'' = Inr ts" "py_getitem packet (u ''command'') = Inr command"
    "resolve_command command = Inr c" and c: "drivable c"
    by (rule admissible_values) (simp add: drivable_def)
  let ?r = "r\<lparr>verifier := v'\<rparr>"
  have r': "r' = fst (apply_packet t packet ?r)" using accepted(4) by (metis fst_conv)
  have lost: "lost_count r \<le> lost_count (count_lost sq ?r)"
    using srl.never_decreases [of ?r sq] by simp
  show ?thesis
  proof (cases "millis (handler_wall t)")
    case (Inl e)
    show ?thesis
      unfolding r' apply_packet_clock_fails [OF p(1) Inl]
      using kept lost r' apply_packet_clock_fails [OF p(1) Inl, of ?r] by (simp add: frame_simps)
  next
    case (Inr n)
    note ok = apply_packet_ok [OF p Inr, of ?r]
    show ?thesis
      using applied [OF accepted(1) c, of "max 0 (n - ts)"] ok lost r' p(3,4) by simp
  qed
qed

lemma on_message_verifier:
  assumes "on_datachannel_message x raw sender t r = (r', res)"
  shows "verifier r' = fst (verify_packet x raw sender (verify_wall t) (verify_mono t) (verifier r))"
  using assms
proof (cases rule: on_message_cases)
  case (accepted v' packet sq)
  from accepted(2) obtain ts command c where p: "int_field packet ''sequence'' = Inr sq"
    "int_field packet ''timestamp_ms'' = Inr ts" "py_getitem packet (u ''command'') = Inr command"
    "resolve_command command = Inr c" by (rule admissible_values)
  have r': "r' = fst (apply_packet t packet (r\<lparr>verifier := v'\<rparr>))" using accepted(4) by (metis fst_conv)
  show ?thesis
  proof (cases "millis (handler_wall t)")
    case (Inl e)
    show ?thesis unfolding r' apply_packet_clock_fails [OF p(1) Inl] by (simp add: frame_simps accepted(1))
  next
    case (Inr n)
    show ?thesis unfolding r' apply_packet_ok(6) [OF p Inr] by (simp add: accepted(1))
  qed
qed (simp_all add: frame_simps)

lemma on_message_inv:
  assumes "on_datachannel_message x raw sender t r = (r', res)" and "runtime_inv r"
  shows "runtime_inv r'"
proof -
  obtain v out where v: "verify_packet x raw sender (verify_wall t) (verify_mono t) (verifier r) = (v, out)"
    by fastforce
  have "wf_verifier (verifier r')"
    using on_message_verifier [OF assms(1)] assms(2) wf_verify_packet [OF v] by (simp add: runtime_inv_def v)
  moreover from assms(1) have "brake_inv (brake_controller r') \<and> counters_inv r'"
  proof (cases rule: on_message_effect)
    case kept
    with assms(2) show ?thesis by (simp add: runtime_inv_def counters_inv_def)
  next
    case (applied v packet c l)
    with assms(2) brake_inv_apply show ?thesis by (auto simp: runtime_inv_def counters_inv_def)
  qed
  ultimately show ?thesis by (simp add: runtime_inv_def)
qed

text \<open>The watchdog, the audit queue and the telemetry report.\<close>

lemma watchdog_effect:
  assumes "watchdog_round timeout now now_audit r = (r', res)"
  shows "verifier r' = verifier r" "latencies r' = latencies r" "lost_count r' = lost_count r"
    "brake_controller r' = brake_controller r \<or> (\<exists>why. brake_controller r' = emergency_brake why (brake_controller r))"
  using assms
  by (auto simp: watchdog_round_def Let_def frame_simps split: if_splits sum.splits)

lemma watchdog_inv:
  assumes "watchdog_round timeout now now_audit r = (r', res)" and "runtime_inv r"
  shows "runtime_inv r'"
  using watchdog_effect [OF assms(1)] assms(2) brake_inv_emergency [of "brake_controller r"]
  by (auto simp: runtime_inv_def counters_inv_def)

lemma telemetry_effect:
  assumes "telemetry_round vid r = (r', res)"
  shows "r' = r \<or> r' = r\<lparr>latencies := [], lost_count := 0\<rparr>"
  using assms by (auto simp: telemetry_round_def Let_def split: if_splits)

lemma telemetry_round_loss:
  assumes "telemetry_round vid r = (r', Inr res)"
  shows "case res of None \<Rightarrow> r' = r
    | Some t \<Rightarrow> tel_lost t = lost_count r \<and> r' = r\<lparr>latencies := [], lost_count := 0\<rparr>"
  using assms by (auto simp: telemetry_round_def Let_def rbind_iffs split: if_splits)

lemma telemetry_inv: "telemetry_round vid r = (r', res) \<Longrightarrow> runtime_inv r \<Longrightarrow> runtime_inv r'"
  using telemetry_effect [of vid r r' res] by (auto simp: runtime_inv_def counters_inv_def)

lemma audit_take_inv: "audit_take r = (r', evs) \<Longrightarrow> runtime_inv r \<Longrightarrow> runtime_inv r'"
  by (auto simp: audit_take_def runtime_inv_def counters_inv_def)

lemma runtime_inv_verifier: "runtime_inv r \<Longrightarrow> wf_verifier v \<Longrightarrow> runtime_inv (r\<lparr>verifier := v\<rparr>)"
  by (simp add: runtime_inv_def counters_inv_def)

lemma runtime_inv_running [frame_simps]: "runtime_inv (r\<lparr>running := b\<rparr>) = runtime_inv r"
  by (simp add: runtime_inv_def counters_inv_def)

lemmas runtime_invs = on_message_inv watchdog_inv telemetry_inv audit_take_inv

section \<open>The node's invariant\<close>

text \<open>While a refresh waits for its response the verifier holds no session.\<close>

definition refreshing_inv :: "'k node \<Rightarrow> bool" where
  "refreshing_inv s \<longleftrightarrow>
     (case in_flight s of
        None \<Rightarrow> True
      | Some loc \<Rightarrow> 0 \<le> previous_sequence loc \<and> session (verifier (rt s)) = None)"

definition node_inv :: "'k node \<Rightarrow> bool" where
  "node_inv s \<longleftrightarrow> runtime_inv (rt s) \<and> refreshing_inv s"

lemma refreshing_inv_frame:
  "session (verifier r) = session (verifier (rt s)) \<Longrightarrow> refreshing_inv s \<Longrightarrow> refreshing_inv (s\<lparr>rt := r\<rparr>)"
  by (auto simp: refreshing_inv_def split: option.splits)

lemma node_inv_shut_down [frame_simps]: "node_inv (shut_down s) = node_inv s"
  by (auto simp: node_inv_def shut_down_def runtime_inv_running refreshing_inv_def split: option.splits)

lemma node_inv_fields [frame_simps]:
  "node_inv (s\<lparr>unsent := evs\<rparr>) = node_inv s" "node_inv (s\<lparr>reporting := b\<rparr>) = node_inv s"
  "node_inv (s\<lparr>tokens := m\<rparr>) = node_inv s"
  by (auto simp: node_inv_def refreshing_inv_def split: option.splits)

lemma node_inv_runtime:
  "node_inv s \<Longrightarrow> runtime_inv r \<Longrightarrow> session (verifier r) = session (verifier (rt s)) \<Longrightarrow> node_inv (s\<lparr>rt := r\<rparr>)"
  using refreshing_inv_frame [of r s] by (simp add: node_inv_def)

lemma packet_keeps_refreshing:
  assumes "on_datachannel_message x raw sender t (rt s) = (r, out)" and "refreshing_inv s"
  shows "refreshing_inv (s\<lparr>rt := r\<rparr>)"
proof (cases "in_flight s")
  case (Some loc)
  with assms(2) have "session (verifier (rt s)) = None" by (simp add: refreshing_inv_def)
  then have "verifier r = verifier (rt s)"
    using on_message_verifier [OF assms(1)] verify_disarmed [of "verifier (rt s)"] by simp
  then show ?thesis using assms(2) by (intro refreshing_inv_frame) simp_all
qed (simp add: refreshing_inv_def)

lemma refresh_starts_inv:
  assumes "refresh_begin (verifier (rt s)) = (v, loc, req)" and "node_inv s"
  shows "node_inv (s\<lparr>rt := (rt s)\<lparr>verifier := v\<rparr>, in_flight := Some loc\<rparr>)"
proof -
  have "v = clear_session (verifier (rt s))" using assms(1) by (auto simp: refresh_begin_def)
  moreover have "0 \<le> previous_sequence loc"
    using refresh_begin_clears(4) [OF assms(1)] assms(2) by (simp add: node_inv_def runtime_inv_def wf_verifier_def)
  ultimately show ?thesis
    using assms(2) refresh_begin_clears(1) [OF assms(1)] wf_clear_session [of "verifier (rt s)"]
    by (simp add: node_inv_def refreshing_inv_def runtime_inv_verifier)
qed

lemma refresh_returns_inv:
  assumes "refresh_finish x loc ex (verifier (rt s)) = (v, out)" and "in_flight s = Some loc" and "node_inv s"
  shows "node_inv (s\<lparr>rt := (rt s)\<lparr>verifier := v\<rparr>, in_flight := None\<rparr>)"
proof -
  have "wf_verifier v"
    using wf_refresh_finish [OF assms(1)] assms(2,3) by (simp add: node_inv_def runtime_inv_def refreshing_inv_def)
  with assms(3) show ?thesis by (simp add: node_inv_def refreshing_inv_def runtime_inv_verifier)
qed

lemma token_renewed_inv:
  assumes "node_inv s"
  shows "node_inv (s\<lparr>tokens := m, rt := (rt s)\<lparr>verifier := (verifier (rt s))\<lparr>auth_token := t\<rparr>\<rparr>\<rparr>)"
proof -
  have "wf_verifier ((verifier (rt s))\<lparr>auth_token := t\<rparr>)"
    using assms by (auto simp: node_inv_def runtime_inv_def wf_verifier_def split: option.splits)
  with assms have "node_inv (s\<lparr>rt := (rt s)\<lparr>verifier := (verifier (rt s))\<lparr>auth_token := t\<rparr>\<rparr>\<rparr>)"
    by (intro node_inv_runtime runtime_inv_verifier) (simp_all add: node_inv_def)
  with node_inv_fields(3) [of m "s\<lparr>rt := (rt s)\<lparr>verifier := (verifier (rt s))\<lparr>auth_token := t\<rparr>\<rparr>\<rparr>"]
  show ?thesis by (cases s) simp
qed

lemma node_step_inv:
  assumes "node_step x a e s s'" and "node_inv s"
  shows "node_inv s'"
proof -
  have inv: "runtime_inv (rt s)" using assms(2) by (simp add: node_inv_def)
  from assms(1) show ?thesis
  proof (cases rule: node_step.cases)
    case (packet data identity raw sender t r out outcome)
    with assms(2) packet_keeps_refreshing [OF packet(4)] on_message_inv [OF packet(4)] show ?thesis
      by (simp add: node_inv_def)
  next
    case (refresh_starts v loc req)
    with refresh_starts_inv [OF _ assms(2)] show ?thesis by simp
  next
    case (refresh_returns loc ex v out)
    with refresh_returns_inv [OF _ _ assms(2)] show ?thesis by blast
  next
    case (watchdog now now_audit r braked)
    with node_inv_runtime [OF assms(2) watchdog_inv [OF watchdog(4) inv]] watchdog_effect(1) [OF watchdog(4)]
    show ?thesis by simp
  next
    case (watchdog_raises now now_audit r e)
    with node_inv_runtime [OF assms(2) watchdog_inv [OF watchdog_raises(4) inv]]
      watchdog_effect(1) [OF watchdog_raises(4)]
    show ?thesis by (simp add: frame_simps)
  next
    case (audit_takes r evs)
    have "node_inv (s\<lparr>rt := r\<rparr>)"
      using audit_takes(5) by (intro node_inv_runtime [OF assms(2) audit_take_inv [OF audit_takes(5) inv]])
        (auto simp: audit_take_def)
    with audit_takes(2) node_inv_fields(1) [of evs "s\<lparr>rt := r\<rparr>"] show ?thesis by simp
  next
    case (telemetry_reports r report)
    have "verifier r = verifier (rt s)" using telemetry_effect [OF telemetry_reports(5)] by auto
    then have "node_inv (s\<lparr>rt := r\<rparr>)"
      by (intro node_inv_runtime [OF assms(2) telemetry_inv [OF telemetry_reports(5) inv]]) simp
    with telemetry_reports(2) node_inv_fields(2) [of "report \<noteq> None" "s\<lparr>rt := r\<rparr>"] show ?thesis by simp
  next
    case (telemetry_raises r e)
    have "verifier r = verifier (rt s)" using telemetry_effect [OF telemetry_raises(5)] by auto
    then have "node_inv (s\<lparr>rt := r\<rparr>)"
      by (intro node_inv_runtime [OF assms(2) telemetry_inv [OF telemetry_raises(5) inv]]) simp
    with telemetry_raises(2) show ?thesis by (simp add: frame_simps)
  next
    case (token_renewed m ex now now_failed m' t)
    with token_renewed_inv [OF assms(2)] show ?thesis by simp
  qed (use assms(2) in \<open>simp_all add: frame_simps\<close>)
qed

lemma wf_refresh_session:
  assumes "0 \<le> last_sequence v"
  shows "wf_verifier (fst (refresh_session x ex v))"
proof -
  obtain w loc req where b: "refresh_begin v = (w, loc, req)" by (rule prod_cases3)
  obtain v' r where f: "refresh_finish x loc ex w = (v', r)" by fastforce
  have "w = clear_session v" using b by (simp add: refresh_begin_def)
  then have "wf_verifier w" by (simp add: wf_clear_session)
  moreover have "0 \<le> previous_sequence loc" using refresh_begin_clears(4) [OF b] assms by simp
  ultimately have "wf_verifier v'" by (rule wf_refresh_finish [OF f])
  then show ?thesis by (simp add: refresh_session_def b f)
qed

lemma new_runtime_inv: "wf_verifier v \<Longrightarrow> runtime_inv (new_runtime v new_brake)"
  by (simp add: runtime_inv_def brake_inv_def counters_inv_def new_runtime_def new_brake_def applied_of_def)

lemma start_node_inv: "node_inv (start_node x a token manager created ex)"
  unfolding node_inv_def start_node_def Let_def
  by (simp add: refreshing_inv_def) (intro new_runtime_inv wf_refresh_session, simp add: new_verifier_def)

lemma node_reachable_inv: "node_reachable x a s \<Longrightarrow> node_inv s"
  by (induction rule: node_reachable.induct) (auto intro: start_node_inv node_step_inv)

section \<open>Runs\<close>

lemma node_run_reachable: "node_run x a s es s' \<Longrightarrow> node_reachable x a s \<Longrightarrow> node_reachable x a s'"
  by (induction rule: node_run.induct) (auto intro: node_reachable.stepped)

lemma node_run_append:
  "node_run x a s es s1 \<Longrightarrow> node_run x a s1 es' s' \<Longrightarrow> node_run x a s (es @ es') s'"
  by (induction rule: node_run.induct) (auto intro: node_run.onward)

text \<open>An agent that has ended stays ended.\<close>

lemma node_step_alive: "node_step x a e s s' \<Longrightarrow> alive s' \<Longrightarrow> alive s"
  by (cases rule: node_step.cases) (auto simp: shut_down_def)

lemma node_run_alive: "node_run x a s es s' \<Longrightarrow> alive s' \<Longrightarrow> alive s"
  by (induction rule: node_run.induct) (auto dest: node_step_alive)

lemma accepted_of_Cons:
  "accepted_of (e # es) = (case e of Delivers raw sender t (Accepts packet) \<Rightarrow> [packet] | _ \<Rightarrow> []) @ accepted_of es"
  by (cases "e # es" rule: accepted_of.cases) auto

text \<open>What the label of a delivery says of the verifier.\<close>

lemma verification_of_Accepts:
  "verification_of x raw sender wall now v = Accepts packet \<longleftrightarrow>
     (\<exists>v'. verify_packet x raw sender wall now v = (v', Inr (Some packet)))"
  by (auto simp: verification_of_def split: prod.splits sum.splits option.splits if_splits)

lemma verification_of_kept:
  assumes "verification_of x raw sender wall now v = c" and "\<nexists>packet. c = Accepts packet"
  shows "last_valid_cmd_time (fst (verify_packet x raw sender wall now v)) = last_valid_cmd_time v"
    and "c \<noteq> Unloads \<Longrightarrow> fst (verify_packet x raw sender wall now v) = v \<or> session v = None"
proof -
  obtain v' r where run: "verify_packet x raw sender wall now v = (v', r)" by fastforce
  have no: "\<nexists>packet. r = Inr (Some packet)" using assms run by (auto simp: verification_of_def)
  note refused = verify_refuses [OF run no]
  from refused show "last_valid_cmd_time (fst (verify_packet x raw sender wall now v)) = last_valid_cmd_time v"
    using run by (auto simp: clear_session_def)
  show "fst (verify_packet x raw sender wall now v) = v \<or> session v = None" if "c \<noteq> Unloads"
    using refused that assms(1) run
    by (auto simp: verification_of_def clear_session_def split: sum.splits option.splits if_splits)
qed

end
