(* ===== verification/Session_Theorems.thy ===== *)
theory Session_Theorems
  imports Sign_Facts Samples
begin

text \<open>The properties of \<open>SessionCommandVerifier\<close> and of its refresh.\<close>

text \<open>
  C1: \<open>verify_packet\<close> lets a packet through exactly when a session with a key is loaded, the message is
  JSON text of an object with all required fields, of this protocol version and type, for this
  session, sent by the session's operator, while the session has not expired, the timestamp is
  inside the window, the sequence is new, the command is valid and the signature verifies; it
  then records the sequence and the time and changes nothing else.
\<close>

theorem verify_packet_accepts_iff:
  "verify_packet x raw sender wall now v = (v', Inr (Some packet)) \<longleftrightarrow>
     (\<exists>s key d version sid op now_ms ts sq command msg m sg signature.
        session v = Some s \<and> verify_key v = Some key
      \<and> json_loads (rec_limit x) raw = Inr packet \<and> packet = PDict d
      \<and> set (map u [''version'', ''type'', ''session_id'', ''sequence'', ''timestamp_ms'', ''command'',
           ''signature'']) \<subseteq> dom (map_of d)
      \<and> map_of d (u ''version'') = Some version \<and> eq_int version 1
      \<and> map_of d (u ''type'') = Some (PStr (u ''control''))
      \<and> map_of d (u ''session_id'') = Some sid \<and> py_eq sid (session_id s)
      \<and> py_str (printable x) (operator_id s) = Inr op \<and> sender = u ''operator-'' @ op
      \<and> millis wall = Inr now_ms \<and> now_ms \<le> expires_at_ms s
      \<and> int_field packet ''timestamp_ms'' = Inr ts
      \<and> now_ms - ts \<le> max_age_ms v \<and> ts - now_ms \<le> max_future_skew_ms v
      \<and> int_field packet ''sequence'' = Inr sq \<and> last_sequence v < sq
      \<and> map_of d (u ''command'') = Some command \<and> valid_command command = Inr True
      \<and> build_sign_message (printable x) packet = Inr msg \<and> utf8_encode msg = Inr m
      \<and> map_of d (u ''signature'') = Some sg \<and> b64decode True sg = Inr signature
      \<and> verify_sig x key m signature = Inr ()
      \<and> v' = v\<lparr>last_sequence := sq, last_valid_cmd_time := now\<rparr>)"
proof -
  have required: "(\<forall>k \<in> set REQUIRED. map_of d k \<noteq> None) \<longleftrightarrow>
      set (map u [''version'', ''type'', ''session_id'', ''sequence'', ''timestamp_ms'', ''command'',
           ''signature'']) \<subseteq> dom (map_of d)" for d :: "(pystr \<times> pyval) list"
    by (simp add: REQUIRED_def domIff)
  show ?thesis
    unfolding verify_accepts admissible_def required PROTOCOL_VERSION_def CONTROL_TYPE_def
    by blast
qed

text \<open>
  A packet that is not let through, by a refusal or by an exception, leaves the verifier as it
  was, except that the first packet after the session's expiry unloads the session.
\<close>

lemma verify_packet_refusal_state:
  assumes "verify_packet x raw sender wall now v = (v', r)" and "\<nexists>packet. r = Inr (Some packet)"
  shows "v' = v \<or> v' = v\<lparr>session := None, verify_key := None, last_sequence := 0\<rparr> \<and> r = Inr None
    \<and> (\<exists>s n. session v = Some s \<and> millis wall = Inr n \<and> expires_at_ms s < n)"
  using verify_refuses [OF assms] by (simp add: clear_session_def)

lemma verify_packet_refusal_state_witness:
  "verify_packet sample_lib [] [] f1 f1 sample_verifier = (sample_verifier, Inr None)
   \<and> sample_verifier \<noteq> sample_verifier\<lparr>session := None, verify_key := None, last_sequence := 0\<rparr>"
proof -
  obtain v' r where eq: "verify_packet sample_lib [] [] f1 f1 sample_verifier = (v', r)" by fastforce
  have r: "r = Inr None" and "v' = sample_verifier"
    using eq by (simp_all add: verify_packet_def verify_body_def sample_verifier_def sample_lib_def
        json_loads_def skip_ws_def verify_caught_def is_ValueError_def)
  with verify_packet_refusal_state [OF eq] eq show ?thesis
    by (simp add: sample_verifier_def)
qed

text \<open>
  C19: Whatever is received, only \<open>OverflowError\<close> and \<open>RecursionError\<close> can leave \<open>verify_packet\<close>, and
  they leave the verifier unchanged, when the signature library raises only what the handler
  catches (it documents \<open>BadSignatureError\<close>, \<open>TypeError\<close> and \<open>ValueError\<close>).
\<close>

theorem verify_packet_raises_only:
  assumes "verify_packet x raw sender wall now v = (v', Inl e)"
    and "\<And>key m sg e. verify_sig x key m sg = Inl e \<Longrightarrow> e \<in> {BadSignatureError, TypeError, ValueError}"
  shows "v' = v \<and> e \<in> {OverflowError, RecursionError}"
proof (rule verify_packet_errors [OF assms(1)])
  fix key m sg e
  assume "verify_sig x key m sg = Inl e"
  then show "verify_caught e"
    using assms(2) by (fastforce simp: verify_caught_def is_ValueError_def)
qed

theorem verify_packet_raises_only_witness:
  "verify_packet sample_lib (u ''['') [] (Inf False) f1 (sample_verifier\<lparr>last_sequence := 7\<rparr>)
     = (sample_verifier\<lparr>last_sequence := 7\<rparr>, Inr None)
   \<and> (\<exists>v' e. verify_packet (sample_lib\<lparr>rec_limit := 0\<rparr>) (u ''['') [] f1 f1 sample_verifier = (v', Inl e)
        \<and> v' = sample_verifier \<and> e \<in> {OverflowError, RecursionError})"
proof -
  obtain v' r where eq: "verify_packet (sample_lib\<lparr>rec_limit := 0\<rparr>) (u ''['') [] f1 f1 sample_verifier = (v', r)"
    by fastforce
  moreover from eq obtain e where e: "r = Inl e"
    by (auto simp: verify_packet_def verify_body_def sample_verifier_def sample_lib_def u_def json_eval
        verify_caught_def is_ValueError_def)
  moreover have "v' = sample_verifier \<and> e \<in> {OverflowError, RecursionError}"
    by (rule verify_packet_raises_only [OF eq [unfolded e]])
      (simp add: sample_lib_def sample_verify_def split: if_splits)
  ultimately show ?thesis
    by (auto simp: verify_packet_def verify_body_def sample_verifier_def sample_lib_def u_def json_eval
        verify_caught_def is_ValueError_def)
qed

section \<open>Replay\<close>

text \<open>
  C3: No command is accepted twice: in any run of packets and session refreshes during which the
  verifier stays in one control session, the sequence numbers of the accepted packets are
  strictly increasing, whatever the packets, their senders and the clock readings are.
\<close>

theorem session_no_replay:
  assumes "offers (gate_step (offer_packet x) (renew_session x)) inputs v = (v', packets)"
    and "steady (offer_packet x) (renew_session x) (\<lambda>v. armed v \<and> in_session sid v) inputs v"
  shows "sorted_wrt (<) (map packet_number packets)
    \<and> (\<forall>packet \<in> set packets. last_sequence v < packet_number packet)"
  by (rule scv.steady_ascending [OF assms])

definition sample_payload :: pyval where
  "sample_payload = PDict [(u ''session'', PDict [(u ''session_id'', PStr (u ''s1'')),
     (u ''vehicle_id'', PStr (u ''car-001'')), (u ''operator_id'', PStr (u ''a'')),
     (u ''public_key_b64'', PStr (u ''AAAA'')), (u ''status'', PStr (u ''ACTIVE'')),
     (u ''expires_at_ms'', PInt 5000)])]"

definition sample_response :: response where
  "sample_response = \<lparr>status_code = 200, body_json = Inr sample_payload, body_text = Inr []\<rparr>"

lemma sample_key: "b64decode True (PStr (u ''AAAA'')) = Inr [0, 0, 0]"
  by (simp add: u_def ascii_encode_def a2b_base64_def b64_value_def)

lemma sample_grants:
  "vehicle_id v = u ''car-001'' \<Longrightarrow> grants sample_lib (Inr sample_response) v sample_session [0, 0, 0]"
  using sample_key
  by (simp add: grants_def sample_response_def sample_payload_def parse_session_def sample_session_def
      sample_lib_def)

definition sample_input :: packet_input where
  "sample_input = \<lparr>pk_raw = sample_raw, pk_sender = u ''operator-a'', pk_wall = f1, pk_now = f1\<rparr>"

lemma sample_offer:
  "offer_packet sample_lib sample_input sample_verifier =
     (sample_verifier\<lparr>last_sequence := 1, last_valid_cmd_time := f1\<rparr>, Some sample_packet)"
  by (simp add: offer_packet_Some sample_input_def sample_accepted)

lemma sample_renew:
  "renew_session sample_lib (Inr sample_response)
     (sample_verifier\<lparr>last_sequence := n, last_valid_cmd_time := t\<rparr>)
   = sample_verifier\<lparr>last_sequence := n, last_valid_cmd_time := t\<rparr>"
proof -
  let ?v = "sample_verifier\<lparr>last_sequence := n, last_valid_cmd_time := t\<rparr>"
  have "grants sample_lib (Inr sample_response) (clear_session ?v) sample_session [0, 0, 0]"
    by (rule sample_grants) (simp add: clear_session_def sample_verifier_def)
  from refresh_finish_granted [OF this] show ?thesis
    by (simp add: renew_session_def refresh_session_def refresh_begin_def)
      (simp add: clear_session_def sample_verifier_def sample_session_def)
qed

theorem session_no_replay_witness:
  "offers (gate_step (offer_packet sample_lib) (renew_session sample_lib))
     [Offer sample_input, Renew (Inr sample_response)] sample_verifier
     = (sample_verifier\<lparr>last_sequence := 1, last_valid_cmd_time := f1\<rparr>, [sample_packet])
   \<and> last_sequence sample_verifier < packet_number sample_packet"
proof -
  have run: "offers (gate_step (offer_packet sample_lib) (renew_session sample_lib))
     [Offer sample_input, Renew (Inr sample_response)] sample_verifier
     = (sample_verifier\<lparr>last_sequence := 1, last_valid_cmd_time := f1\<rparr>, [sample_packet])"
    by (simp add: sample_offer sample_renew)
  have "steady (offer_packet sample_lib) (renew_session sample_lib)
     (\<lambda>v. armed v \<and> in_session (u ''s1'') v) [Offer sample_input, Renew (Inr sample_response)] sample_verifier"
    by (simp add: sample_offer sample_renew)
      (simp add: armed_def in_session_def sample_verifier_def sample_session_def)
  from session_no_replay [OF run this] run show ?thesis by simp
qed

text \<open>
  C31: A message that is accepted twice, by whatever sequence of refreshes and failures in between and
  on whatever states of a verifier with the same limits, is accepted at wall clock readings at
  most \<open>max_age_ms + max_future_skew_ms\<close> milliseconds apart.
\<close>

theorem replay_window:
  assumes "verify_packet x raw sender wall now v = (w, Inr (Some packet))"
    and "verify_packet x raw sender' wall' now' v' = (w', Inr (Some packet'))"
    and "max_age_ms v' = max_age_ms v" and "max_future_skew_ms v' = max_future_skew_ms v"
  shows "\<exists>n n'. millis wall = Inr n \<and> millis wall' = Inr n'
    \<and> \<bar>n - n'\<bar> \<le> max_age_ms v + max_future_skew_ms v"
proof -
  obtain n ts where n: "json_loads (rec_limit x) raw = Inr packet" "millis wall = Inr n"
    "int_field packet ''timestamp_ms'' = Inr ts" "n - ts \<le> max_age_ms v" "ts - n \<le> max_future_skew_ms v"
    using assms(1) by (auto simp: verify_packet_Some verify_body_Passed)
  obtain n' ts' where n': "json_loads (rec_limit x) raw = Inr packet'" "millis wall' = Inr n'"
    "int_field packet' ''timestamp_ms'' = Inr ts'" "n' - ts' \<le> max_age_ms v'" "ts' - n' \<le> max_future_skew_ms v'"
    using assms(2) by (auto simp: verify_packet_Some verify_body_Passed)
  with n assms(3,4) show ?thesis by (intro exI [of _ n] exI [of _ n']) auto
qed

theorem replay_window_witness:
  "verify_packet sample_lib sample_raw (u ''operator-a'') f1 f1 sample_verifier =
     (sample_verifier\<lparr>last_sequence := 1, last_valid_cmd_time := f1\<rparr>, Inr (Some sample_packet))
   \<and> (\<exists>n n'. millis f1 = Inr n \<and> millis f1 = Inr n' \<and> \<bar>n - n'\<bar> \<le> 200)"
  using replay_window [OF sample_accepted sample_accepted] sample_accepted
  by (simp add: sample_verifier_def)

text \<open>
  Where a replay is possible inside that window: a delivery that finds the session past its local
  expiry unloads it and forgets the recorded sequence, signed or not, and when the next refresh
  loads the lease the gateway has renewed in the meantime, under the same identifier, a message
  that was accepted before is accepted again, as long as it is fresh.
\<close>

lemma replay_after_expiry:
  assumes "verify_packet x raw sender wall now v = (v1, Inr (Some packet))"
    and "session v = Some s" and "0 \<le> last_sequence v" and "int_field packet ''timestamp_ms'' = Inr ts"
    and "verify_packet x raw' sender' wall' now' v1 = (v2, r2)" and "session v2 = None"
    and "grants x ex v (s\<lparr>expires_at_ms := renewed\<rparr>) key" and "verify_key v = Some key"
    and "refresh_session x ex v2 = (v3, r3)"
    and "millis wall'' = Inr n" and "n \<le> renewed" and "n - ts \<le> max_age_ms v" and "ts - n \<le> max_future_skew_ms v"
  shows "\<exists>v4. verify_packet x raw sender wall'' now'' v3 = (v4, Inr (Some packet))"
proof -
  have v1: "session v1 = Some s" "vehicle_id v1 = vehicle_id v" "max_age_ms v1 = max_age_ms v"
    "max_future_skew_ms v1 = max_future_skew_ms v"
    using assms(1,2) by (auto simp: verify_packet_Some)
  have "\<nexists>p. r2 = Inr (Some p)" using verify_accept_state(1) [of x raw' sender' wall' now' v1 v2] assms(5,6) v1(1) by auto
  from verify_refuses [OF assms(5) this] have v2: "v2 = clear_session v1" using assms(6) v1(1) by auto
  have "grants x ex (clear_session v2) (s\<lparr>expires_at_ms := renewed\<rparr>) key"
    using assms(7) grants_cong [of "clear_session v2" v x ex] v1 by (simp add: v2 clear_session_def)
  from refresh_finish_granted [OF this] assms(9)
  have v3: "session v3 = Some (s\<lparr>expires_at_ms := renewed\<rparr>)" "verify_key v3 = Some key" "last_sequence v3 = 0"
    "max_age_ms v3 = max_age_ms v" "max_future_skew_ms v3 = max_future_skew_ms v"
    by (auto simp: refresh_session_def refresh_begin_def v2 clear_session_def v1)
  from assms(1) obtain key' sq command where p: "json_loads (rec_limit x) raw = Inr packet"
    "verify_header packet = Inr True" "verify_sender (printable x) s packet sender = Inr True"
    "int_field packet ''sequence'' = Inr sq" "last_sequence v < sq"
    "py_getitem packet (u ''command'') = Inr command" "valid_command command = Inr True"
    "check_signature x key packet = Inr ()"
    using assms(2,8) by (auto simp: verify_packet_Some verify_body_Passed)
  have "verify_sender (printable x) (s\<lparr>expires_at_ms := renewed\<rparr>) packet sender = Inr True"
    using p(3) by (simp add: verify_sender_True)
  with p assms(3,4,10-13) v3 have "verify_body x v3 (s\<lparr>expires_at_ms := renewed\<rparr>) key raw sender wall'' = Inr (Passed packet)"
    by (simp add: verify_body_Passed)
  with p(4) v3 show ?thesis by (simp add: verify_packet_Some)
qed

section \<open>Refreshing the session\<close>

text \<open>
  C11: A refresh fails closed: it either ends with exactly the session the gateway granted, decoded
  and for this vehicle, and keeps the recorded sequence only for the session it had before, or
  the verifier holds no session, no key and no sequence at all, whatever it held.
\<close>

theorem refresh_session_fails_closed:
  "if \<exists>s key. grants x ex v s key
   then \<exists>s key. grants x ex v s key
      \<and> refresh_session x ex v =
          (v\<lparr>session := Some s, verify_key := Some key,
             last_sequence := (if py_eq (session_id s)
                                 (case session v of None \<Rightarrow> PNone | Some old \<Rightarrow> session_id old)
                               then last_sequence v else 0)\<rparr>, Inr ())
   else fst (refresh_session x ex v) = v\<lparr>session := None, verify_key := None, last_sequence := 0\<rparr>
      \<and> (snd (refresh_session x ex v) = Inr () \<longleftrightarrow> (\<exists>r. ex = Inr r \<and> status_code r = 404))"
proof (cases "\<exists>s key. grants x ex v s key")
  case True
  then obtain s key where g: "grants x ex v s key" by blast
  then have "grants x ex (clear_session v) s key"
    using grants_cong [of "clear_session v" v x ex] by (simp add: clear_session_def)
  from refresh_finish_granted [OF this] g show ?thesis
    by (intro if_P [THEN iffD2] exI [of _ s] exI [of _ key])
      (auto simp: refresh_session_def refresh_begin_def clear_session_def)
next
  case False
  have none: "\<nexists>s key. grants x ex (clear_session v) s key"
    using False grants_cong [of "clear_session v" v x ex] by (simp add: clear_session_def)
  have "fst (refresh_session x ex v) = v\<lparr>session := None, verify_key := None, last_sequence := 0\<rparr>"
    using renew_session_eq [of x ex v] False by (auto simp: renew_session_def clear_session_def)
  moreover have "snd (refresh_session x ex v) = Inr () \<longleftrightarrow> (\<exists>r. ex = Inr r \<and> status_code r = 404)"
    unfolding refresh_session_def refresh_begin_def prod.case
    by (rule refresh_refused_result [OF none])
  ultimately show ?thesis using False by simp
qed

text \<open>
  While the request of a refresh is under way no packet gets through: any number of packets that
  arrive between the request and its response are all dropped, and they leave no trace in the
  verifier the response then arms.
\<close>

lemma refresh_drops_in_flight:
  "offers (offer_packet x) inputs (fst (refresh_begin v)) = (fst (refresh_begin v), [])"
proof -
  have drop: "offer_packet x i (fst (refresh_begin v)) = (fst (refresh_begin v), None)" for i
    by (simp add: offer_packet_def verify_disarmed refresh_begin_def clear_session_def)
  show ?thesis by (induction inputs) (simp_all add: drop)
qed

section \<open>What a signature authorises\<close>

lemma accepted_admissible:
  assumes "verify_packet x raw sender wall now v = (w, Inr (Some packet))"
  shows "admissible x raw sender wall v packet (packet_number packet)"
  using assms by (auto simp: verify_accepts packet_number_def admissible_def)

text \<open>
  C10: A signature binds the meaning of the packet, however it is written: two accepted packets of the
  same session whose signed texts are equal have the same sequence number, the same timestamp and
  the same actuator values, even if their JSON differs (in types, in the spelling of numbers, in
  spaces or in further fields).
\<close>

theorem signed_text_binds_meaning:
  assumes "verify_packet x raw sender wall now v = (w, Inr (Some packet))"
    and "verify_packet x raw' sender' wall' now' v' = (w', Inr (Some packet'))"
    and "in_session sid v" and "in_session sid v'"
    and "build_sign_message (printable x) packet = build_sign_message (printable x) packet'"
  shows "packet_number packet = packet_number packet'
    \<and> int_field packet ''timestamp_ms'' = int_field packet' ''timestamp_ms''
    \<and> rbind (py_getitem packet (u ''command'')) resolve_command
      = rbind (py_getitem packet' (u ''command'')) resolve_command"
proof -
  from assms(3,4) obtain s s' where s: "session v = Some s" "session_id s = PStr sid"
    "session v' = Some s'" "session_id s' = PStr sid"
    by (auto simp: in_session_def split: option.splits)
  show ?thesis
    by (rule same_message_same_meaning [OF accepted_admissible [OF assms(1)]
          accepted_admissible [OF assms(2)] s(1,3,2,4) assms(5)])
qed

theorem signed_text_binds_meaning_witness:
  "verify_packet sample_lib sample_raw (u ''operator-a'') f1 f1 sample_verifier =
     (sample_verifier\<lparr>last_sequence := 1, last_valid_cmd_time := f1\<rparr>, Inr (Some sample_packet))
   \<and> packet_number sample_packet = packet_number sample_packet"
proof -
  have "in_session (u ''s1'') sample_verifier"
    by (simp add: in_session_def sample_verifier_def sample_session_def)
  from signed_text_binds_meaning [OF sample_accepted sample_accepted this this refl] sample_accepted
  show ?thesis by blast
qed

text \<open>What is accepted over a run in one session was each time admissible to a verifier of that session.\<close>

lemma accepted_in_session:
  assumes "offers (gate_step (offer_packet x) (renew_session x)) inputs v = (v', packets)"
    and "steady (offer_packet x) (renew_session x) (\<lambda>v. armed v \<and> in_session sid v) inputs v"
    and "p \<in> set packets"
  shows "\<exists>w raw sender wall. in_session sid w \<and> admissible x raw sender wall w p (packet_number p)"
  using assms
proof (induction inputs arbitrary: v packets)
  case (Cons g gs)
  obtain t r where step: "gate_step (offer_packet x) (renew_session x) g v = (t, r)" by fastforce
  obtain t' qs where run: "offers (gate_step (offer_packet x) (renew_session x)) gs t = (t', qs)" by fastforce
  have steady: "steady (offer_packet x) (renew_session x) (\<lambda>v. armed v \<and> in_session sid v) gs t"
    and here: "in_session sid v"
    using Cons.prems(2) step by auto
  have "packets = (case r of None \<Rightarrow> qs | Some q \<Rightarrow> q # qs)" "t' = v'"
    using Cons.prems(1) step run by auto
  then consider "p \<in> set qs" | "r = Some p" using Cons.prems(3) by (cases r) auto
  then show ?case
  proof cases
    case 1
    with Cons.IH [OF _ steady] run \<open>t' = v'\<close> show ?thesis by blast
  next
    case 2
    then obtain i where "g = Offer i" using step by (cases g) auto
    then have "verify_packet x (pk_raw i) (pk_sender i) (pk_wall i) (pk_now i) v = (t, Inr (Some p))"
      using step 2 by (simp add: offer_packet_Some)
    from accepted_admissible [OF this] here show ?thesis by blast
  qed
qed simp

lemma same_text_same_number:
  assumes "in_session sid w" "admissible x raw sender wall w p n"
    and "in_session sid w'" "admissible x raw' sender' wall' w' q n'"
    and "build_sign_message (printable x) p = build_sign_message (printable x) q"
  shows "n = n'"
proof -
  from assms(1,3) obtain s s' where s: "session w = Some s" "session_id s = PStr sid"
    "session w' = Some s'" "session_id s' = PStr sid"
    by (auto simp: in_session_def split: option.splits)
  from same_message_same_meaning [OF assms(2,4) s(1,3,2,4) assms(5)] show ?thesis ..
qed

text \<open>
  C30: A signature is good for one command: in any run of packets and refreshes that stays in one
  session, no two accepted packets have the same signed text.
\<close>

theorem signature_used_once:
  assumes "offers (gate_step (offer_packet x) (renew_session x)) inputs v = (v', packets)"
    and "steady (offer_packet x) (renew_session x) (\<lambda>v. armed v \<and> in_session sid v) inputs v"
  shows "distinct (map (build_sign_message (printable x)) packets)"
proof -
  have "distinct (map packet_number packets)"
    using scv.steady_ascending [OF assms] sorted_wrt_less_distinct by blast
  then have "distinct packets" "inj_on packet_number (set packets)"
    by (simp_all add: distinct_map)
  moreover have "packet_number p = packet_number q"
    if "p \<in> set packets" "q \<in> set packets"
      "build_sign_message (printable x) p = build_sign_message (printable x) q" for p q
    using accepted_in_session [OF assms that(1)] accepted_in_session [OF assms that(2)]
      same_text_same_number [OF _ _ _ _ that(3)] by blast
  ultimately show ?thesis
    unfolding distinct_map by (meson inj_onD inj_onI)
qed

theorem signature_used_once_witness:
  "offers (gate_step (offer_packet sample_lib) (renew_session sample_lib)) [Offer sample_input] sample_verifier
     = (sample_verifier\<lparr>last_sequence := 1, last_valid_cmd_time := f1\<rparr>, [sample_packet])
   \<and> distinct (map (build_sign_message (printable sample_lib)) [sample_packet])"
proof -
  have run: "offers (gate_step (offer_packet sample_lib) (renew_session sample_lib)) [Offer sample_input]
     sample_verifier = (sample_verifier\<lparr>last_sequence := 1, last_valid_cmd_time := f1\<rparr>, [sample_packet])"
    by (simp add: sample_offer)
  have "steady (offer_packet sample_lib) (renew_session sample_lib)
     (\<lambda>v. armed v \<and> in_session (u ''s1'') v) [Offer sample_input] sample_verifier"
    by (simp add: sample_offer) (simp add: armed_def in_session_def sample_verifier_def sample_session_def)
  from signature_used_once [OF run this] run show ?thesis by simp
qed

end
