(* ===== verification/Runtime_Theorems.thy ===== *)
theory Runtime_Theorems
  imports Runtime_Facts Session_Theorems
begin

text \<open>The properties of \<open>SessionVehicleRuntime\<close>.\<close>

section \<open>The packet handler\<close>

text \<open>
  C16: The handler sends nothing to the brake controller but authorised commands: when a call of
  \<open>on_datachannel_message\<close> changes the controller at all, the verifier has accepted the packet,
  and the change is one application of the packet's command, with finite actuator values in range.
\<close>

theorem handler_applies_only_accepted:
  assumes "on_datachannel_message x raw sender t r = (r', res)"
    and "brake_controller r' \<noteq> brake_controller r"
  shows "\<exists>v packet command c.
      verify_packet x raw sender (verify_wall t) (verify_mono t) (verifier r) = (v, Inr (Some packet))
    \<and> py_getitem packet (u ''command'') = Inr command \<and> resolve_command command = Inr c
    \<and> brake_controller r' = apply_control (PStr (u ''remote'')) c (brake_controller r)
    \<and> in_range (-1) 1 (steering c) \<and> in_range 0 1 (throttle c) \<and> in_range 0 1 (brake c)
    \<and> is_finite (direction c) \<and> \<bar>rval (direction c)\<bar> < 2"
  using assms(1)
proof (cases rule: on_message_cases)
  case (refused v')
  with assms(2) show ?thesis by (simp add: frame_simps)
next
  case (raised e)
  have "brake_controller r' = brake_controller r" by (subst raised(3)) simp
  with assms(2) show ?thesis by simp
next
  case (accepted v' packet sq)
  from accepted(2) obtain ts command c where p: "int_field packet ''sequence'' = Inr sq"
    "int_field packet ''timestamp_ms'' = Inr ts" "py_getitem packet (u ''command'') = Inr command"
    "resolve_command command = Inr c" "in_range (-1) 1 (steering c)" "in_range 0 1 (throttle c)"
    "in_range 0 1 (brake c)" "is_finite (direction c)" "\<bar>rval (direction c)\<bar> < 2"
    by (rule admissible_values)
  have r': "r' = fst (apply_packet t packet (r\<lparr>verifier := v'\<rparr>))"
    using accepted(4) by (metis fst_conv)
  show ?thesis
  proof (cases "millis (handler_wall t)")
    case (Inl e)
    have "brake_controller r' = brake_controller r"
      unfolding r' apply_packet_clock_fails [OF p(1) Inl] by (simp add: frame_simps)
    with assms(2) show ?thesis by simp
  next
    case (Inr n)
    from apply_packet_ok(2) [OF p(1-4) Inr, of "r\<lparr>verifier := v'\<rparr>"] r'
    have "brake_controller r' = apply_control (PStr (u ''remote'')) c (brake_controller r)" by simp
    with accepted(1) p show ?thesis by blast
  qed
qed

definition sample_readings :: readings where
  "sample_readings = \<lparr>verify_wall = f1, verify_mono = f1, handler_wall = f1, audit_mono = f1\<rparr>"

definition sample_runtime :: "bytes runtime" where
  "sample_runtime = new_runtime sample_verifier new_brake"

lemma sample_handled:
  "brake_controller (fst (on_datachannel_message sample_lib sample_raw (u ''operator-a'') sample_readings sample_runtime))
     = apply_control (PStr (u ''remote'')) \<lparr>steering = f0, throttle = f1, brake = f0, direction = f1\<rparr> new_brake"
proof -
  have "resolve_command sample_command = Inr \<lparr>steering = f0, throttle = f1, brake = f0, direction = f1\<rparr>"
    by (simp add: resolve_command_def sample_command_def mode_is_def resolve_action_def protocol_constants)
  moreover have "int_field sample_packet ''sequence'' = Inr 1" "int_field sample_packet ''timestamp_ms'' = Inr 1000"
    "py_getitem sample_packet (u ''command'') = Inr sample_command"
    by (simp_all add: int_field_def sample_packet_def)
  moreover have "millis (handler_wall sample_readings) = Inr 1000"
    by (simp add: sample_readings_def sample_millis)
  ultimately show ?thesis
    using sample_accepted
    by (simp add: on_datachannel_message_def sample_readings_def sample_runtime_def new_runtime_def
        apply_packet_ok(2))
qed

theorem handler_applies_only_accepted_witness:
  "\<exists>r' res v packet command c.
     on_datachannel_message sample_lib sample_raw (u ''operator-a'') sample_readings sample_runtime = (r', res)
   \<and> verify_packet sample_lib sample_raw (u ''operator-a'') f1 f1 sample_verifier = (v, Inr (Some packet))
   \<and> py_getitem packet (u ''command'') = Inr command \<and> resolve_command command = Inr c
   \<and> brake_controller r' = apply_control (PStr (u ''remote'')) c new_brake \<and> in_range 0 1 (throttle c)"
proof -
  obtain r' res where eq:
    "on_datachannel_message sample_lib sample_raw (u ''operator-a'') sample_readings sample_runtime = (r', res)"
    by fastforce
  have "brake_controller r' \<noteq> brake_controller sample_runtime"
    using sample_handled eq by (simp add: sample_runtime_def new_runtime_def apply_control_def new_brake_def)
  from handler_applies_only_accepted [OF eq this] eq show ?thesis
    by (fastforce simp: sample_readings_def sample_runtime_def new_runtime_def)
qed

text \<open>
  C17: Every packet the verifier accepts is applied: the handler then ends without an exception, hands
  the resolved command to the controller, records the latency, which is never negative, and the
  sequence, and touches nothing else but the loss count and the audit queue. The wall clock
  must be readable as a number of milliseconds.
\<close>

theorem accepted_packet_is_applied:
  assumes "verify_packet x raw sender (verify_wall t) (verify_mono t) (verifier r) = (v', Inr (Some packet))"
    and "millis (handler_wall t) = Inr n"
    and "on_datachannel_message x raw sender t r = (r', res)"
  shows "res = Inr () \<and> verifier r' = v' \<and> running r' = running r
    \<and> seen_sequence r' = Some (packet_number packet)
    \<and> (\<exists>ts. int_field packet ''timestamp_ms'' = Inr ts \<and> latencies r' = latencies r @ [max 0 (n - ts)])
    \<and> (\<exists>c. rbind (py_getitem packet (u ''command'')) resolve_command = Inr c
        \<and> brake_controller r' = apply_control (PStr (u ''remote'')) c (brake_controller r))"
  using assms(3)
proof (cases rule: on_message_cases)
  case (accepted w packet' sq)
  then have w: "w = v'" "packet' = packet" using assms(1) by auto
  from accepted(2) obtain ts command c where p: "int_field packet' ''sequence'' = Inr sq"
    "int_field packet' ''timestamp_ms'' = Inr ts" "py_getitem packet' (u ''command'') = Inr command"
    "resolve_command command = Inr c"
    by (rule admissible_values)
  have r': "r' = fst (apply_packet t packet' (r\<lparr>verifier := w\<rparr>))"
      "res = snd (apply_packet t packet' (r\<lparr>verifier := w\<rparr>))"
    using accepted(4) by (metis fst_conv, metis snd_conv)
  show ?thesis
    unfolding r' using p apply_packet_ok [OF p assms(2), of "r\<lparr>verifier := w\<rparr>"] w
    by (simp add: packet_number_def)
qed (use assms(1) in auto)

theorem accepted_packet_is_applied_witness:
  "\<exists>r' res. on_datachannel_message sample_lib sample_raw (u ''operator-a'') sample_readings sample_runtime = (r', res)
     \<and> res = Inr () \<and> seen_sequence r' = Some (packet_number sample_packet)"
proof -
  obtain r' res where eq:
    "on_datachannel_message sample_lib sample_raw (u ''operator-a'') sample_readings sample_runtime = (r', res)"
    by fastforce
  have v: "verify_packet sample_lib sample_raw (u ''operator-a'') (verify_wall sample_readings)
      (verify_mono sample_readings) (verifier sample_runtime)
      = (sample_verifier\<lparr>last_sequence := 1, last_valid_cmd_time := f1\<rparr>, Inr (Some sample_packet))"
    using sample_accepted by (simp add: sample_readings_def sample_runtime_def new_runtime_def)
  have "millis (handler_wall sample_readings) = Inr 1000"
    by (simp add: sample_readings_def sample_millis)
  from accepted_packet_is_applied [OF v this eq] eq show ?thesis by blast
qed

end
