(* ===== verification/Py_Float_Error.thy ===== *)
theory Py_Float_Error
  imports Py_Float_Round
begin

text \<open>
  The error of rounding: the value of a rounded real is an integer multiple of its last digit, at
  most half a digit away, and rounding never crosses an integer of at most 53 bits. Hence what
  the computations of the program on small numbers lose, which is often nothing.
\<close>

section \<open>The rounded value\<close>

lemma round_real_value:
  assumes "0 < x" and "is_finite (round_real s x)"
  shows "rval (round_real s x)
    = (if s then - 1 else 1) * (of_int (round_even (x / 2 powi last_exp x)) * 2 powi last_exp x)"
proof (cases "round_even (x / 2 powi last_exp x) = 2 ^ 53")
  case True
  have "2 powi (last_exp x + 1) = (2::real) * 2 powi last_exp x"
    using powi_Suc [of "last_exp x"] by (simp add: add.commute)
  with True assms show ?thesis by (simp add: round_real_def Let_def split: if_splits)
next
  case False
  with assms show ?thesis by (simp add: round_real_def Let_def split: if_splits)
qed

lemma round_real_zero [simp]: "round_real s 0 = Fin s 0 (-1074)"
  by (simp add: round_real_def)

lemma round_real_error:
  assumes "0 < x" and "is_finite (round_real s x)"
  shows "\<bar>(if s then - 1 else 1) * rval (round_real s x) - x\<bar> \<le> 2 powi last_exp x / 2"
proof -
  let ?u = "(2::real) powi last_exp x"
  have u: "0 < ?u" by simp
  have "of_int (round_even (x / ?u)) * ?u - x = (of_int (round_even (x / ?u)) - x / ?u) * ?u"
    by (simp add: left_diff_distrib)
  then have "\<bar>of_int (round_even (x / ?u)) * ?u - x\<bar> = \<bar>of_int (round_even (x / ?u)) - x / ?u\<bar> * ?u"
    by (simp add: abs_mult)
  also have "\<dots> \<le> 1 / 2 * ?u"
    using round_even_bounds [of "x / ?u"] u by (intro mult_right_mono) auto
  finally show ?thesis using round_real_value [OF assms] by auto
qed

lemma last_exp_relative:
  assumes "2 powi (- 1000) \<le> x"
  shows "2 powi last_exp x \<le> x / 2 ^ 52"
proof -
  have x: "0 < x" using assms by (meson less_le_trans zero_less_power_int zero_less_numeral)
  have "2 powi (log2_floor x + 1) > x" using log2_floor_is_log2 [OF x] by (simp add: is_log2_def)
  with assms have "(2::real) powi (- 1000) < 2 powi (log2_floor x + 1)" by linarith
  then have "last_exp x \<noteq> - 1074" by (simp only: powi_less_iff last_exp_def)
  with last_exp_scaled(3) [OF x] have "2 ^ 52 \<le> x / 2 powi last_exp x" by blast
  then show ?thesis by (simp add: pos_le_divide_eq field_simps)
qed

lemma half_digit: "v \<le> q / 2 ^ 52 \<Longrightarrow> d \<le> v / 2 \<Longrightarrow> d \<le> (q::real) / 2 ^ 53"
  by simp

section \<open>Integers\<close>

lemma int_scaled:
  assumes "e \<le> 0"
  obtains k where "of_int n = of_int k * (2::real) powi e"
proof
  show "of_int n = of_int (n * 2 ^ nat (- e)) * (2::real) powi e"
    using assms by (auto simp: power_int_def field_simps)
qed

lemma within_real: "2 ^ 52 \<le> n \<Longrightarrow> (2 ^ 52 :: real) \<le> of_int n" "n \<le> 2 ^ 53 \<Longrightarrow> (of_int n :: real) \<le> 2 ^ 53"
proof -
  show "(2 ^ 52 :: real) \<le> of_int n" if "2 ^ 52 \<le> n"
  proof -
    from that have "(of_int (2 ^ 52) :: real) \<le> of_int n" by (simp only: of_int_le_iff)
    then show ?thesis by simp
  qed
  show "(of_int n :: real) \<le> 2 ^ 53" if "n \<le> 2 ^ 53"
  proof -
    from that have "(of_int n :: real) \<le> of_int (2 ^ 53)" by (simp only: of_int_le_iff)
    then show ?thesis by simp
  qed
qed

lemma below_real: "n < 2 ^ 53 \<Longrightarrow> (of_int n :: real) < 2 ^ 53"
proof -
  assume "n < 2 ^ 53"
  then have "(of_int n :: real) < of_int (2 ^ 53)" by (simp only: of_int_less_iff)
  then show ?thesis by simp
qed

text \<open>A positive exponent means a number of more than 53 bits.\<close>

lemma last_exp_positive: "0 < x \<Longrightarrow> 0 < last_exp x \<Longrightarrow> 2 ^ 52 \<le> x / 2 powi last_exp x \<and> 2 ^ 53 \<le> x"
proof -
  assume x: "0 < x" "0 < last_exp x"
  then have low: "2 ^ 52 \<le> x / 2 powi last_exp x" using last_exp_scaled(3) [of x] by auto
  have "(2::real) powi 1 \<le> 2 powi last_exp x" unfolding powi_le_iff using x by simp
  then have "2 ^ 52 * 2 \<le> 2 ^ 52 * (2::real) powi last_exp x" by simp
  also have "\<dots> \<le> x" using low by (simp add: pos_le_divide_eq)
  finally show ?thesis using low by simp
qed

lemma round_real_ge_int:
  assumes "0 < x" "is_finite (round_real False x)" and "of_int n \<le> x" and "n \<le> 2 ^ 53"
  shows "of_int n \<le> rval (round_real False x)"
proof (cases "last_exp x \<le> 0")
  case True
  then obtain k where k: "of_int n = of_int k * (2::real) powi last_exp x" by (rule int_scaled)
  with assms(3) have "of_int k \<le> x / 2 powi last_exp x" by (simp add: pos_le_divide_eq)
  then have "k \<le> round_even (x / 2 powi last_exp x)" by (rule round_even_mono_int(1))
  then show ?thesis using round_real_value [OF assms(1,2)] k by simp
next
  case False
  then have "2 ^ 52 \<le> x / 2 powi last_exp x" using last_exp_positive [OF assms(1)] by simp
  then have m: "2 ^ 52 \<le> round_even (x / 2 powi last_exp x)"
    using round_even_mono_int(1) [of "2 ^ 52" "x / 2 powi last_exp x"] by simp
  have "(2::real) powi 1 \<le> 2 powi last_exp x" unfolding powi_le_iff using False by simp
  moreover have "(2 ^ 52 :: real) \<le> of_int (round_even (x / 2 powi last_exp x))" by (rule within_real(1) [OF m])
  ultimately have "2 ^ 52 * 2 \<le> of_int (round_even (x / 2 powi last_exp x)) * (2::real) powi last_exp x"
    by (intro mult_mono) auto
  moreover have "of_int n \<le> (2 ^ 53 :: real)" by (rule within_real(2) [OF assms(4)])
  ultimately show ?thesis using round_real_value [OF assms(1,2)] by simp
qed

lemma round_real_le_int:
  assumes "0 < x" "is_finite (round_real False x)" and "x \<le> of_int n" and "n < 2 ^ 53"
  shows "rval (round_real False x) \<le> of_int n"
proof -
  have "x < 2 ^ 53" using assms(3) below_real [OF assms(4)] by linarith
  then have "last_exp x \<le> 0" using last_exp_positive [OF assms(1)] by linarith
  then obtain k where k: "of_int n = of_int k * (2::real) powi last_exp x" by (rule int_scaled)
  with assms(3) have "x / 2 powi last_exp x \<le> of_int k" by (simp add: pos_divide_le_eq)
  then have "round_even (x / 2 powi last_exp x) \<le> k" by (rule round_even_mono_int(2))
  then show ?thesis using round_real_value [OF assms(1,2)] k by simp
qed

text \<open>Below \<open>2^1023\<close> nothing overflows.\<close>

lemma round_real_finite:
  assumes "0 \<le> x" and "x < 2 powi 1023"
  shows "is_finite (round_real s x)"
proof (cases "x = 0")
  case False
  with assms have x: "0 < x" by simp
  have "2 powi log2_floor x \<le> x" using log2_floor_is_log2 [OF x] by (simp add: is_log2_def)
  with assms(2) have "(2::real) powi log2_floor x < 2 powi 1023" by linarith
  then have "log2_floor x < 1023" by (simp only: powi_less_iff)
  then have "last_exp x + 1 \<le> 971" by (simp add: last_exp_def)
  then show ?thesis by (simp add: round_real_def Let_def)
qed simp

lemma round_real_int:
  assumes "0 \<le> n" and "n < 2 ^ 53"
  shows "is_finite (round_real False (of_int n))" "rval (round_real False (of_int n)) = of_int n"
proof -
  have "(of_int n :: real) < 2 ^ 53" by (rule below_real [OF assms(2)])
  also have "\<dots> = 2 powi 53" by (simp only: powi_nat)
  also have "\<dots> < 2 powi 1023" unfolding powi_less_iff by simp
  finally show fin: "is_finite (round_real False (of_int n))"
    using assms(1) by (intro round_real_finite) auto
  show "rval (round_real False (of_int n)) = of_int n"
  proof (cases "n = 0")
    case False
    with assms have "0 < (of_int n :: real)" by simp
    then show ?thesis
      using round_real_ge_int [OF _ fin, of n] round_real_le_int [OF _ fin, of n] assms(2) by linarith
  qed simp
qed

section \<open>Arithmetic over the reals\<close>

fun neg_sign :: "pyfloat \<Rightarrow> bool" where
  "neg_sign (Fin s m e) = s"
| "neg_sign (Inf s) = s"
| "neg_sign NaN = False"

lemma fin_den_nonzero: "fin_den e \<noteq> 0"
  using fin_den_pos [of e] by linarith

lemma abs_rval: "canonical (Fin s m e) \<Longrightarrow> \<bar>rval (Fin s m e)\<bar> = of_int (scale2 m e) / of_int (fin_den e)"
  by (simp add: scale2_real abs_mult)

lemma flt_mul_real:
  assumes "is_finite x" "is_finite y" "canonical x" "canonical y"
  shows "flt_mul x y = round_real (neg_sign x \<noteq> neg_sign y) \<bar>rval x * rval y\<bar>"
proof -
  obtain s m e where x: "x = Fin s m e" using assms(1) by (rule finite_cases)
  obtain s' m' e' where y: "y = Fin s' m' e'" using assms(2) by (rule finite_cases)
  have n: "0 \<le> scale2 m e * scale2 m' e'" "0 < fin_den e * fin_den e'"
    using assms(3,4) x y by (simp_all add: scale2_nonneg)
  have "of_int (scale2 m e * scale2 m' e') / of_int (fin_den e * fin_den e') = \<bar>rval x * rval y\<bar>"
    unfolding abs_mult x y abs_rval [OF assms(3) [unfolded x]] abs_rval [OF assms(4) [unfolded y]]
    by simp
  with round_ratio_real [OF n] show ?thesis by (simp add: x y del: rval.simps)
qed

lemma flt_div_real:
  assumes "is_finite x" "is_finite y" "canonical x" "canonical y" "rval y \<noteq> 0"
  shows "flt_div x y = Inr (round_real (neg_sign x \<noteq> neg_sign y) \<bar>rval x / rval y\<bar>)"
proof -
  obtain s m e where x: "x = Fin s m e" using assms(1) by (rule finite_cases)
  obtain s' m' e' where y: "y = Fin s' m' e'" using assms(2) by (rule finite_cases)
  have m: "0 < m'" using assms(4,5) y by (auto simp: less_le)
  then have p: "0 < scale2 m' e'" by (rule scale2_pos)
  have n: "0 \<le> scale2 m e * fin_den e'" "0 < fin_den e * scale2 m' e'"
    using assms(3) x p by (simp_all add: scale2_nonneg less_imp_le)
  have "of_int (scale2 m e * fin_den e') / of_int (fin_den e * scale2 m' e') = \<bar>rval x / rval y\<bar>"
    unfolding abs_divide x y abs_rval [OF assms(3) [unfolded x]] abs_rval [OF assms(4) [unfolded y]]
    by simp
  with round_ratio_real [OF n] m show ?thesis by (simp add: x y del: rval.simps)
qed

lemma quotient_negative: "0 < d \<Longrightarrow> (of_int n / of_int d :: real) < 0 \<longleftrightarrow> n < 0"
  by (simp add: divide_less_0_iff)

lemma flt_add_real:
  assumes "is_finite x" "is_finite y" "canonical x" "canonical y" and "rval x + rval y \<noteq> 0"
  shows "flt_add x y = round_real (rval x + rval y < 0) \<bar>rval x + rval y\<bar>"
proof -
  obtain s m e where x: "x = Fin s m e" using assms(1) by (rule finite_cases)
  obtain s' m' e' where y: "y = Fin s' m' e'" using assms(2) by (rule finite_cases)
  let ?n = "fin_num s m e * fin_den e' + fin_num s' m' e' * fin_den e" and ?d = "fin_den e * fin_den e'"
  have sum: "rval x + rval y = of_int ?n / of_int ?d"
    unfolding x y rval_ratio of_int_add of_int_mult by (subst add_frac_eq) (simp_all add: fin_den_nonzero mult.commute)
  have d: "0 < (of_int ?d :: real)" "0 < ?d" by simp_all
  have "of_int \<bar>?n\<bar> / of_int ?d = \<bar>rval x + rval y\<bar>" unfolding sum abs_divide
    using d(1) by (simp only: abs_of_pos of_int_abs)
  moreover have "?n < 0 \<longleftrightarrow> rval x + rval y < 0" unfolding sum quotient_negative [OF d(2)] ..
  moreover have "?n \<noteq> 0"
  proof
    assume "?n = 0"
    then have "rval x + rval y = 0" unfolding sum by (simp only: of_int_0 div_0)
    with assms(5) show False ..
  qed
  ultimately show ?thesis
    using round_ratio_real [of "\<bar>?n\<bar>" ?d] d(2) by (simp add: x y round_signed_def del: rval.simps)
qed

lemma flt_of_int_Inr: "flt_of_int n = Inr x \<longleftrightarrow> round_ratio (n < 0) \<bar>n\<bar> 1 = x \<and> is_finite x"
  by (cases "round_ratio (n < 0) \<bar>n\<bar> 1") (auto simp: flt_of_int_def)

lemma flt_of_int_real: "0 \<le> n \<Longrightarrow> n < 2 ^ 53 \<Longrightarrow> flt_of_int n = Inr (round_real False (of_int n))"
proof -
  assume n: "0 \<le> n" "n < 2 ^ 53"
  have eq: "round_ratio (n < 0) \<bar>n\<bar> 1 = round_real False (of_int n)"
    using n(1) round_ratio_real [of n 1 False] by simp
  show ?thesis
    using round_real_int(1) [OF n] unfolding flt_of_int_def eq
    by (cases "round_real False (of_int n)") auto
qed

text \<open>A small natural number as a float: nothing is lost.\<close>

lemma flt_of_small:
  assumes "0 \<le> n" and "n < 2 ^ 53"
  obtains x where "flt_of_int n = Inr x" "is_finite x" "canonical x" "rval x = of_int n" "\<not> neg_sign x"
proof -
  have "\<not> neg_sign (round_real False (of_int n))" by (simp add: round_real_def Let_def)
  with that [of "round_real False (of_int n)"] flt_of_int_real [OF assms] round_real_int [OF assms]
    round_real_canonical [of "of_int n" False] assms(1)
  show ?thesis by simp
qed

end
