(* ===== verification/Percentile_Facts.thy ===== *)
theory Percentile_Facts
  imports World Py_Float_Error
begin

text \<open>
  The index of the 99th percentile, \<open>int(n * 0.99)\<close>: the constant is a little below 0.99, the product
  is rounded, and the truncation still gives the exact \<open>n * 99 div 100\<close>.
\<close>

definition c99 :: pyfloat where
  "c99 = Fin False 8917127262193582 (-53)"

lemma c99: "flt_of_decimal False 99 (-2) = c99"
  by (simp add: c99_def flt_of_decimal_def round_ratio_def floor_log2_def scale2_def round_half_even_def bit_length.simps)

lemma c99_value: "rval c99 = 99 / 100 - 8 / (100 * 2 ^ 53)" "is_finite c99" "canonical c99" "\<not> neg_sign c99"
proof -
  show "rval c99 = 99 / 100 - 8 / (100 * 2 ^ 53)"
    unfolding c99_def rval_ratio by (simp add: fin_num_def fin_den_def scale2_def)
qed (simp_all add: c99_def)

lemma flt_to_int_floor:
  assumes "is_finite x" and "canonical x" and "\<not> neg_sign x"
  shows "flt_to_int x = Inr \<lfloor>rval x\<rfloor>"
proof -
  obtain s m e where x: "x = Fin s m e" using assms(1) by (rule finite_cases)
  have "rval x = of_int (scale2 m e) / of_int (fin_den e)"
    using assms(3) by (simp add: x scale2_real)
  then have "\<lfloor>rval x\<rfloor> = scale2 m e div fin_den e" by (simp only: floor_divide_of_int_eq)
  with assms(3) show ?thesis by (simp add: x fin_den_def)
qed

text \<open>A real just below an integer of few bits rounds to that integer.\<close>

lemma round_up_to_int:
  assumes "0 < x" and "x < of_int k" and "of_int k - x < x / 2 ^ 54" and "k < 2 ^ 53" and "is_finite (round_real s x)"
  shows "rval (round_real s x) = (if s then - 1 else 1) * of_int k"
proof -
  let ?u = "(2::real) powi last_exp x"
  have u: "0 < ?u" by simp
  have "x < 2 ^ 53" using assms(2) below_real [OF assms(4)] by linarith
  then have "last_exp x \<le> 0" using last_exp_positive [OF assms(1)] by linarith
  then obtain K where K: "of_int k = of_int K * ?u" by (rule int_scaled)
  have "x < 2 ^ 53 * ?u" using last_exp_scaled(2) [OF assms(1)] u by (simp add: pos_divide_less_eq)
  then have "x / 2 ^ 54 < ?u / 2" by simp
  with assms(3) have "of_int K * ?u - x < ?u / 2" unfolding K by linarith
  then have "of_int K - x / ?u < 1 / 2" using u by (simp add: field_simps)
  moreover have "x / ?u < of_int K" using assms(2) u unfolding K by (simp add: pos_divide_less_eq)
  ultimately have "\<bar>x / ?u - of_int K\<bar> < 1 / 2" by linarith
  then have "round_even (x / ?u) = K" by (rule round_even_near)
  with round_real_value [OF assms(1,5)] K show ?thesis by simp
qed

lemma product99:
  fixes n :: int
  assumes "0 < n" and "n < 2 ^ 40"
  defines "k \<equiv> n * 99 div 100" and "x \<equiv> of_int n * (99 / 100 - 8 / (100 * 2 ^ 53)) :: real"
  shows "0 < x" "x < 2 ^ 40" "x < of_int k + 1 - 1 / 200"
    "of_int k \<le> x \<or> (x < of_int k \<and> of_int k - x < x / 2 ^ 54)"
proof -
  let ?r = "n * 99 mod 100"
  have n: "(1::real) \<le> of_int n" using assms(1) by simp
  have "(of_int n :: real) < of_int (2 ^ 40)" using assms(2) by (simp only: of_int_less_iff)
  then have n40: "of_int n < (2 ^ 40 :: real)" by simp
  have r: "0 \<le> ?r" "?r \<le> 99" by simp_all
  have "n * 99 = k * 100 + ?r" unfolding k_def by (rule div_mult_mod_eq [symmetric])
  then have "(of_int (n * 99) :: real) = of_int (k * 100 + ?r)" by (simp only:)
  then have k: "of_int n * 99 = of_int k * 100 + (of_int ?r :: real)"
    by (simp only: of_int_mult of_int_add of_int_numeral)
  have x: "x = of_int k + of_int ?r / 100 - of_int n * (8 / (100 * 2 ^ 53))"
    using k unfolding x_def by (simp add: right_diff_distrib)
  have small: "of_int n * (8 / (100 * 2 ^ 53)) < (1 / 200 :: real)" using n40 by simp
  have rr: "(0::real) \<le> of_int ?r" "(of_int ?r :: real) \<le> 99" using r by linarith+
  show "0 < x" using n unfolding x_def by simp
  show "x < 2 ^ 40" using n n40 unfolding x_def by simp
  show "x < of_int k + 1 - 1 / 200" using rr n unfolding x by simp
  show "of_int k \<le> x \<or> (x < of_int k \<and> of_int k - x < x / 2 ^ 54)"
  proof (cases "?r = 0")
    case True
    then have "of_int k - x = of_int n * (8 / (100 * 2 ^ 53))" using x by simp
    with n show ?thesis by (simp add: x_def)
  next
    case False
    with r have "1 \<le> ?r" by linarith
    then have "(1::real) \<le> of_int ?r" by simp
    with small show ?thesis unfolding x by simp
  qed
qed

lemma below_next: "\<bar>y - x\<bar> \<le> x / 2 ^ 53 \<Longrightarrow> x < 2 ^ 40 \<Longrightarrow> x < k + 1 - 1 / 200 \<Longrightarrow> y < k + (1::real)"
proof -
  assume y: "\<bar>y - x\<bar> \<le> x / 2 ^ 53" and x: "x < 2 ^ 40" "x < k + 1 - 1 / 200"
  have "x / 2 ^ 53 < 1 / 200" using x(1) by simp
  with y x(2) show ?thesis by linarith
qed

lemma p99_index_exact:
  assumes "0 < n" and "n < 2 ^ 40"
  shows "p99_index n = Inr (int n * 99 div 100)"
proof -
  let ?n = "int n" and ?k = "int n * 99 div 100"
  let ?x = "of_int ?n * (99 / 100 - 8 / (100 * 2 ^ 53)) :: real"
  have "int n < int (2 ^ 40)" using assms(2) by (simp only: of_nat_less_iff)
  then have n: "0 < ?n" "?n < 2 ^ 40" using assms(1) by simp_all
  note x = product99 [OF n]
  obtain y where y: "flt_of_int ?n = Inr y" "is_finite y" "canonical y" "rval y = of_int ?n" "\<not> neg_sign y"
    using flt_of_small [of ?n] n by auto
  have prod: "flt_mul y c99 = round_real False ?x"
    using flt_mul_real [OF y(2) c99_value(2) y(3) c99_value(3)] y(4,5) c99_value(1,4) x(1) by simp
  have fin: "is_finite (round_real False ?x)"
  proof (rule round_real_finite)
    have "(2 ^ 40 :: real) = 2 powi 40" by (simp add: power_int_def)
    also have "\<dots> < 2 powi 1023" unfolding powi_less_iff by simp
    finally show "?x < 2 powi 1023" using x(2) by linarith
  qed (use x(1) in simp)
  have k53: "?k < 2 ^ 53" using n by simp
  have low: "of_int ?k \<le> rval (round_real False ?x)"
    using x(4)
  proof
    assume "of_int ?k \<le> ?x"
    with k53 show ?thesis by (intro round_real_ge_int [OF x(1) fin]) simp_all
  next
    assume "?x < of_int ?k \<and> of_int ?k - ?x < ?x / 2 ^ 54"
    with round_up_to_int [OF x(1) _ _ k53 fin] show ?thesis by simp
  qed
  have "2 powi (- 1000) \<le> ?x"
  proof -
    have "(2::real) powi (- 1000) \<le> 2 powi (- 1)" unfolding powi_le_iff by simp
    also have "\<dots> = 1 / 2" by (simp add: power_int_minus)
    also have "\<dots> \<le> ?x" using n by simp
    finally show ?thesis .
  qed
  then have "2 powi last_exp ?x \<le> ?x / 2 ^ 52" by (rule last_exp_relative)
  moreover have "\<bar>rval (round_real False ?x) - ?x\<bar> \<le> 2 powi last_exp ?x / 2"
    using round_real_error [OF x(1) fin] by (simp only: if_False mult_1_left)
  ultimately have "\<bar>rval (round_real False ?x) - ?x\<bar> \<le> ?x / 2 ^ 53" by (rule half_digit)
  then have "rval (round_real False ?x) < of_int ?k + 1"
    using x(2,3) by (rule below_next)
  with low have "\<lfloor>rval (round_real False ?x)\<rfloor> = ?k" by (intro floor_unique) simp_all
  moreover have "canonical (round_real False ?x)" using x(1) by (intro round_real_canonical) simp
  moreover have "\<not> neg_sign (round_real False ?x)" by (simp add: round_real_def Let_def)
  ultimately have "flt_to_int (round_real False ?x) = Inr ?k" using flt_to_int_floor [OF fin] by simp
  then show ?thesis by (simp add: p99_index_def y(1) c99 prod)
qed

end
