(* ===== verification/Report_Theorems.thy ===== *)
theory Report_Theorems
  imports Runtime_Theorems Percentile_Facts
begin

text \<open>
  The properties of the watchdog, the loss count, the audit queue and the telemetry report of
  \<open>SessionVehicleRuntime\<close>.
\<close>

section \<open>Watchdog\<close>

lemma elapsed_canonical: "canonical (elapsed_ms now since)"
  by (simp add: elapsed_ms_def flt_mul_canonical flt_sub_canonical flt_small_canonical)

lemma watchdog_reason_cases:
  "watchdog_reason (elapsed_ms now since) =
     (case elapsed_ms now since of
        Fin s m e \<Rightarrow> Inr (u ''no valid command for '' @ int_str (if s then - (scale2 m e div scale2 1 (-e)) else scale2 m e div scale2 1 (-e)) @ u ''ms'')
      | Inf s \<Rightarrow> Inl OverflowError | NaN \<Rightarrow> Inl ValueError)"
proof (cases "elapsed_ms now since")
  case (Fin s m e)
  then have "canonical (Fin s m e)" using elapsed_canonical [of now since] by simp
  from str_of_float_int [OF this flt_to_int.simps(1)] show ?thesis
    by (simp add: watchdog_reason_def Fin)
qed (simp_all add: watchdog_reason_def)

lemma watchdog_quiet:
  "\<not> int_lt_flt n (elapsed_ms now (last_valid_cmd_time (verifier r))) \<Longrightarrow>
     watchdog_round n now na r = (r, Inr ())"
  by (simp add: watchdog_round_def Let_def)

lemma watchdog_brakes:
  assumes "int_lt_flt n (elapsed_ms now (last_valid_cmd_time (verifier r)))"
    and "watchdog_reason (elapsed_ms now (last_valid_cmd_time (verifier r))) = Inr why"
  shows "snd (watchdog_round n now na r) = Inr ()"
    and "brake_controller (fst (watchdog_round n now na r)) = emergency_brake why (brake_controller r)"
    and "verifier (fst (watchdog_round n now na r)) = verifier r"
  using assms by (simp_all add: watchdog_round_def Let_def frame_simps)

text \<open>
  C29: One round of the watchdog: the emergency is latched afterwards exactly when it was latched before
  or the elapsed time is a number of milliseconds above the timeout; the round applies no
  command and leaves the verifier alone; and it raises only when the elapsed time is infinite,
  with the runtime as it was and the brake not called.
\<close>

theorem watchdog_round_outcome:
  "let elapsed = elapsed_ms now (last_valid_cmd_time (verifier r)) in
   case watchdog_round timeout now now_audit r of
     (r', Inr _) \<Rightarrow> elapsed \<noteq> Inf False \<and> verifier r' = verifier r
       \<and> (in_emergency (brake_controller r') \<longleftrightarrow>
            in_emergency (brake_controller r) \<or> is_finite elapsed \<and> of_int timeout < rval elapsed)
       \<and> applied_of (outputs (brake_controller r')) = applied_of (outputs (brake_controller r))
   | (r', Inl e) \<Rightarrow> r' = r \<and> elapsed = Inf False \<and> e = OverflowError"
proof -
  let ?e = "elapsed_ms now (last_valid_cmd_time (verifier r))"
  show ?thesis
  proof (cases "int_lt_flt timeout ?e")
    case False
    then have "\<not> (is_finite ?e \<and> of_int timeout < rval ?e)" using cmp_int_rval(3) by blast
    moreover have "?e \<noteq> Inf False" using False by auto
    ultimately show ?thesis by (auto simp: watchdog_quiet [OF False] Let_def)
  next
    case True
    show ?thesis
    proof (cases "is_finite ?e")
      case fin: True
      then obtain why where why: "watchdog_reason ?e = Inr why"
        using watchdog_reason_cases [of now "last_valid_cmd_time (verifier r)"] by (cases ?e) auto
      obtain r' where r': "watchdog_round timeout now now_audit r = (r', Inr ())"
        "brake_controller r' = emergency_brake why (brake_controller r)" "verifier r' = verifier r"
        using watchdog_brakes [OF True why, of now_audit] by (metis prod.collapse)
      have "?e \<noteq> Inf False" using fin by auto
      with r' fin cmp_int_rval(3) [OF fin] True show ?thesis
        by (simp add: Let_def ebc.brake_latches ebc.applied_brake)
    next
      case False
      with True have e: "?e = Inf False" by (cases ?e) auto
      with True show ?thesis by (simp add: watchdog_round_def Let_def watchdog_reason_def)
    qed
  qed
qed

section \<open>Loss count\<close>

definition deliver :: "'k lib \<Rightarrow> packet_input \<Rightarrow> pyfloat \<Rightarrow> pyfloat \<Rightarrow> 'k runtime \<Rightarrow> 'k runtime" where
  "deliver x i wall now r =
     fst (on_datachannel_message x (pk_raw i) (pk_sender i)
            \<lparr>verify_wall = pk_wall i, verify_mono = pk_now i, handler_wall = wall, audit_mono = now\<rparr> r)"

lemma count_lost_agree:
  "lost_count r = lost_count r' \<Longrightarrow> seen_sequence r = seen_sequence r' \<Longrightarrow>
     lost_count (fold count_lost ns r) = lost_count (fold count_lost ns r')"
proof (induction ns arbitrary: r r')
  case (Cons n ns)
  have "lost_count (count_lost n r) = lost_count (count_lost n r')"
    using Cons.prems by (simp add: count_lost_def split: option.splits)
  with Cons.IH [of "count_lost n r" "count_lost n r'"] show ?case by (simp add: srl.step_seen)
qed simp

text \<open>A run of messages, each with the clock readings of its handler.\<close>

fun deliver_all :: "'k lib \<Rightarrow> (packet_input \<times> pyfloat \<times> pyfloat) list \<Rightarrow> 'k runtime \<Rightarrow> 'k runtime" where
  "deliver_all x [] r = r"
| "deliver_all x ((i, wall, now) # ms) r = deliver_all x ms (deliver x i wall now r)"

lemma deliver_counts:
  assumes "offer_packet x i (verifier r) = (v, out)"
  shows "verifier (deliver x i wall now r) = v"
    and "lost_count (deliver x i wall now r) =
      lost_count (case out of None \<Rightarrow> r | Some packet \<Rightarrow> count_lost (packet_number packet) r)"
    and "seen_sequence (deliver x i wall now r) =
      seen_sequence (case out of None \<Rightarrow> r | Some packet \<Rightarrow> count_lost (packet_number packet) r)"
proof -
  let ?t = "\<lparr>verify_wall = pk_wall i, verify_mono = pk_now i, handler_wall = wall, audit_mono = now\<rparr>"
  obtain r' res where run: "on_datachannel_message x (pk_raw i) (pk_sender i) ?t r = (r', res)" by fastforce
  have d: "deliver x i wall now r = r'" by (simp add: deliver_def run)
  from run have "verifier r' = v
    \<and> lost_count r' = lost_count (case out of None \<Rightarrow> r | Some packet \<Rightarrow> count_lost (packet_number packet) r)
    \<and> seen_sequence r' = seen_sequence (case out of None \<Rightarrow> r | Some packet \<Rightarrow> count_lost (packet_number packet) r)"
  proof (cases rule: on_message_cases)
    case (refused v')
    then have "v = v' \<and> out = None" using assms by (simp add: offer_packet_def)
    with refused(3) show ?thesis by (simp add: frame_simps)
  next
    case (raised e)
    then have "v = verifier r' \<and> out = None" using assms by (simp add: offer_packet_def)
    moreover have "lost_count r' = lost_count r" "seen_sequence r' = seen_sequence r"
      by (subst raised(3), simp)+
    ultimately show ?thesis by simp
  next
    case (accepted v' packet sq)
    then have out: "v = v'" "out = Some packet" using assms by (simp_all add: offer_packet_def)
    from accepted(2) obtain ts command c where p: "int_field packet ''sequence'' = Inr sq"
      "int_field packet ''timestamp_ms'' = Inr ts" "py_getitem packet (u ''command'') = Inr command"
      "resolve_command command = Inr c" by (rule admissible_values)
    let ?r = "r\<lparr>verifier := v'\<rparr>"
    have count: "lost_count (count_lost sq ?r) = lost_count (count_lost sq r)"
      "seen_sequence (count_lost sq ?r) = seen_sequence (count_lost sq r)"
      by (simp_all add: count_lost_def split: option.splits)
    have r': "r' = fst (apply_packet ?t packet ?r)" using accepted(4) by (metis fst_conv)
    show ?thesis
    proof (cases "millis wall")
      case (Inl e)
      then have "millis (handler_wall ?t) = Inl e" by simp
      from apply_packet_clock_fails [OF p(1) this, of ?r] have "r' = count_lost sq ?r" using r' by simp
      with count out p(1) show ?thesis by (simp add: packet_number_def count_lost_frame)
    next
      case (Inr n)
      then have "millis (handler_wall ?t) = Inr n" by simp
      note ok = apply_packet_ok [OF p this, of ?r]
      have "verifier r' = v'" "lost_count r' = lost_count (count_lost sq r)" "seen_sequence r' = Some sq"
        unfolding r' using ok(4-6) count(1) by simp_all
      with out p(1) srl.step_seen [of sq r] show ?thesis by (simp add: packet_number_def)
    qed
  qed
  then show "verifier (deliver x i wall now r) = v"
    and "lost_count (deliver x i wall now r) =
      lost_count (case out of None \<Rightarrow> r | Some packet \<Rightarrow> count_lost (packet_number packet) r)"
    and "seen_sequence (deliver x i wall now r) =
      seen_sequence (case out of None \<Rightarrow> r | Some packet \<Rightarrow> count_lost (packet_number packet) r)"
    by (simp_all add: d)
qed

lemma deliver_all_counts:
  "offers (offer_packet x) (map fst ms) (verifier r) = (v, packets) \<Longrightarrow>
     lost_count (deliver_all x ms r) = lost_count (fold count_lost (map packet_number packets) r)
   \<and> verifier (deliver_all x ms r) = v"
proof (induction ms arbitrary: r v packets)
  case (Cons m ms)
  obtain i wall now where m: "m = (i, wall, now)" by (rule prod_cases3)
  obtain w out where step: "offer_packet x i (verifier r) = (w, out)" by fastforce
  note d = deliver_counts [OF step, of wall now]
  obtain v' qs where run: "offers (offer_packet x) (map fst ms) w = (v', qs)" by fastforce
  have IH: "lost_count (deliver_all x ms (deliver x i wall now r))
      = lost_count (fold count_lost (map packet_number qs) (deliver x i wall now r))
      \<and> verifier (deliver_all x ms (deliver x i wall now r)) = v'"
    by (rule Cons.IH) (simp add: d(1) run)
  let ?s = "case out of None \<Rightarrow> r | Some packet \<Rightarrow> count_lost (packet_number packet) r"
  have "lost_count (fold count_lost ns (deliver x i wall now r)) = lost_count (fold count_lost ns ?s)" for ns
    using d(2,3) by (rule count_lost_agree)
  moreover have "v = v'" "packets = (case out of None \<Rightarrow> qs | Some p \<Rightarrow> p # qs)"
    using Cons.prems m step run by simp_all
  ultimately show ?case using IH by (cases out) (simp_all add: m)
qed simp

text \<open>
  C20: The loss count is right: over any run of messages that starts with a fresh runtime, and in which the
  verifier accepts the packets numbered \<open>n\<close>, ..., it grows by exactly the number of sequence
  numbers between the first and the last accepted one that never arrived in an accepted packet.
\<close>

theorem lost_count_counts_gaps:
  assumes "offers (offer_packet x) (map fst ms) (verifier r) = (v, packet # packets)"
    and "seen_sequence r = None"
  shows "lost_count (deliver_all x ms r) = lost_count r
    + int (card ({packet_number packet..packet_number (last (packet # packets))}
                 - packet_number ` set (packet # packets)))"
proof -
  let ?ns = "map packet_number packets"
  have "sorted_wrt (<) (packet_number packet # ?ns)"
    using scv.run_ascending [OF assms(1)] by simp
  from srl.run_counts_missing [where s = r, OF assms(2) this]
  have "lost_count (fold count_lost (packet_number packet # ?ns) r)
      = lost_count r + int (card ({packet_number packet..last (packet_number packet # ?ns)}
                                  - set (packet_number packet # ?ns)))" .
  moreover have "last (packet_number packet # ?ns) = packet_number (last (packet # packets))"
    by (simp add: last_map)
  ultimately show ?thesis using deliver_all_counts [OF assms(1)] by simp
qed

theorem lost_count_counts_gaps_witness:
  "offers (offer_packet sample_lib) [sample_input] sample_verifier
     = (sample_verifier\<lparr>last_sequence := 1, last_valid_cmd_time := f1\<rparr>, [sample_packet])
   \<and> lost_count (deliver_all sample_lib [(sample_input, f1, f1)] (new_runtime sample_verifier new_brake)) = 0"
proof -
  have run: "offers (offer_packet sample_lib) (map fst [(sample_input, f1, f1)])
      (verifier (new_runtime sample_verifier new_brake))
    = (sample_verifier\<lparr>last_sequence := 1, last_valid_cmd_time := f1\<rparr>, [sample_packet])"
    by (simp add: new_runtime_def sample_offer)
  have "seen_sequence (new_runtime sample_verifier new_brake) = None" by (simp add: new_runtime_def)
  from lost_count_counts_gaps [OF run this] run show ?thesis by (simp add: new_runtime_def)
qed

section \<open>Audit events\<close>

text \<open>A run of calls of \<open>_queue_audit_event\<close>, with the events it recorded and their times.\<close>

fun queue_all ::
  "(pystr \<times> pystr \<times> pyfloat) list \<Rightarrow> 'k runtime \<Rightarrow> 'k runtime \<times> (pystr \<times> pyfloat) list"
where
  "queue_all [] r = (r, [])"
| "queue_all ((ev, why, now) # calls) r =
     (let r1 = queue_audit_event ev why now r
      in case queue_all calls r1 of
           (r', recorded) \<Rightarrow> (r', if audit_events r1 = audit_events r then recorded else (ev, now) # recorded))"

lemma queue_audit_cases:
  obtains (dropped) "queue_audit_event ev why now r = r"
  | (recorded) "audit_events (queue_audit_event ev why now r) = audit_events r @ [\<lparr>event = ev, reason = why\<rparr>]"
      "map_of (last_audit_at (queue_audit_event ev why now r)) = (map_of (last_audit_at r))(ev \<mapsto> now)"
      "\<And>t. map_of (last_audit_at r) ev = Some t \<Longrightarrow> \<not> flt_lt_int (flt_sub now t) 5"
proof (cases "queue_audit_event ev why now r = r")
  case False
  then show ?thesis
    using recorded by (auto simp: queue_audit_event_def Let_def split: option.splits if_splits)
qed (rule dropped)

lemma queue_all_spacing:
  "successively (\<lambda>t t'. \<not> flt_lt_int (flt_sub t' t) 5)
     ((case map_of (last_audit_at r) ev of None \<Rightarrow> [] | Some t \<Rightarrow> [t])
      @ map snd (filter (\<lambda>q. fst q = ev) (snd (queue_all calls r))))"
proof (induction calls arbitrary: r)
  case (Cons call calls)
  obtain e why now where call: "call = (e, why, now)" by (rule prod_cases3)
  show ?case
  proof (rule queue_audit_cases [of e why now r])
    assume "queue_audit_event e why now r = r"
    with Cons.IH [of r] show ?thesis by (simp add: call Let_def split: prod.split)
  next
    let ?r = "queue_audit_event e why now r"
    assume rec: "audit_events ?r = audit_events r @ [\<lparr>event = e, reason = why\<rparr>]"
      "map_of (last_audit_at ?r) = (map_of (last_audit_at r))(e \<mapsto> now)"
      "\<And>t. map_of (last_audit_at r) e = Some t \<Longrightarrow> \<not> flt_lt_int (flt_sub now t) 5"
    have all: "snd (queue_all (call # calls) r) = (e, now) # snd (queue_all calls ?r)"
      using rec(1) by (simp add: call Let_def split: prod.split)
    show ?thesis
    proof (cases "e = ev")
      case True
      with Cons.IH [of ?r] rec(2,3) show ?thesis
        unfolding all by (cases "map_of (last_audit_at r) ev") auto
    next
      case False
      with Cons.IH [of ?r] rec(2) show ?thesis unfolding all by simp
    qed
  qed
qed (simp split: option.splits)

text \<open>
  The audit queue limits the rate of every kind of event: in any run of calls, whatever the clock
  says, an event is recorded only when the clock is not less than five seconds past the reading
  at which the last event of its kind was recorded.
\<close>

lemma audit_events_spaced:
  "successively (\<lambda>t t'. \<not> flt_lt_int (flt_sub t' t) 5)
     (map snd (filter (\<lambda>q. fst q = ev) (snd (queue_all calls r))))"
proof -
  have "successively P ys" if "successively P (xs @ ys)" for P and xs ys :: "pyfloat list"
    using that by (simp add: successively_append_iff)
  with queue_all_spacing [of r ev calls] show ?thesis by blast
qed

lemma flt_sub_zero:
  assumes "is_finite x" and "canonical x"
  shows "is_finite (flt_sub x f0)" "rval (flt_sub x f0) = rval x"
proof -
  obtain s m e where x: "x = Fin s m e" using assms(1) by (rule finite_cases)
  have "is_finite (flt_sub x f0) \<and> rval (flt_sub x f0) = rval x"
  proof (cases "m = 0")
    case True
    then show ?thesis by (simp add: x flt_sub_def round_signed_def fin_num_def scale2_def)
  next
    case False
    with assms(2) x have m: "0 < m" by auto
    have pow: "\<not> (2::real) powi e < 0" by (simp add: not_less)
    have v: "rval x < 0 \<longleftrightarrow> s" "\<bar>rval x\<bar> = of_int m * 2 powi e" "rval x \<noteq> 0"
      using m pow by (auto simp: x abs_mult mult_less_0_iff)
    have "flt_sub x f0 = round_real (rval x < 0) \<bar>rval x\<bar>"
      using flt_add_real [of x "flt_neg f0"] assms v(3) by (simp add: flt_sub_def)
    also have "\<dots> = x" unfolding v using round_real_exact [of s m e] assms(2) m by (simp add: x)
    finally show ?thesis by (simp add: assms(1))
  qed
  then show "is_finite (flt_sub x f0)" "rval (flt_sub x f0) = rval x" by auto
qed

text \<open>
  The limit also drops the first event: \<open>.get(event, 0)\<close> takes the origin of the monotonic clock
  for the time of a previous event, so during the first five seconds of that clock no audit
  event is recorded at all.
\<close>

lemma audit_silent_at_clock_origin:
  assumes "map_of (last_audit_at r) ev = None" and "is_finite now" "canonical now" and "rval now < 5"
  shows "queue_audit_event ev why now r = r"
  using flt_sub_zero [OF assms(2,3)] cmp_int_rval(4) [of "flt_sub now f0" 5] assms(1,4)
  by (simp add: queue_audit_event_def)

lemma audit_silent_at_clock_origin_witness:
  "queue_audit_event (u ''watchdog_timeout'') [] f1 sample_runtime = sample_runtime \<and> audit_events sample_runtime = []"
proof -
  have "map_of (last_audit_at sample_runtime) (u ''watchdog_timeout'') = None"
    by (simp add: sample_runtime_def new_runtime_def)
  moreover have "is_finite f1" "canonical f1" "rval f1 < 5"
    by (simp_all add: rval_ratio fin_num_def fin_den_def scale2_def del: rval.simps)
  ultimately show ?thesis
    using audit_silent_at_clock_origin [of sample_runtime "u ''watchdog_timeout''" f1 "[]"]
    by (simp add: sample_runtime_def new_runtime_def)
qed

section \<open>Telemetry\<close>

text \<open>
  C23: A telemetry report covers the time since the last one: it is skipped exactly when there is nothing
  to report; otherwise the counters are reset, the median and the 99th percentile are the
  latencies at places \<open>n div 2\<close> and \<open>99 n div 100\<close> of the sorted list, and the only exception is that
  of a latency no float holds, which loses the data and ends the loop.
\<close>

theorem telemetry_round_outcome:
  assumes "length (latencies r) < 2 ^ 40"
  defines "ls \<equiv> sort (latencies r)" and "n \<equiv> length (latencies r)"
  shows "if latencies r = [] \<and> lost_count r = 0 then telemetry_round vid r = (r, Inr None)
    else fst (telemetry_round vid r) = r\<lparr>latencies := [], lost_count := 0\<rparr>
      \<and> (case snd (telemetry_round vid r) of
           Inr None \<Rightarrow> False
         | Inr (Some t) \<Rightarrow> tel_vehicle t = vid \<and> tel_lost t = lost_count r
             \<and> (if n = 0 then p50 t = PInt 0 \<and> p99 t = PInt 0
                else \<exists>x y. flt_of_int (ls ! (n div 2)) = Inr x \<and> p50 t = PFloat x
                   \<and> flt_of_int (ls ! (99 * n div 100)) = Inr y \<and> p99 t = PFloat y)
         | Inl e \<Rightarrow> e = OverflowError \<and> (\<exists>l \<in> set (latencies r). flt_of_int l = Inl OverflowError))"
proof (cases "n = 0")
  case True
  then show ?thesis by (simp add: n_def telemetry_round_def p50_of_def p99_of_def Let_def)
next
  case False
  have len: "length ls = n" "0 < n" and ne: "ls \<noteq> []" "latencies r \<noteq> []"
    using False by (auto simp: n_def ls_def dest: arg_cong [of _ _ length])
  have i: "n div 2 < n" "99 * n div 100 < n" using len(2) by (auto simp: div_less_iff_less_mult)
  have at50: "py_index ls (int n div 2) = Inr (ls ! (n div 2))"
    using len i(1) by (simp add: py_index_def nat_div_distrib Let_def)
  have at99: "p99_index n = Inr (int n * 99 div 100)"
    using p99_index_exact [of n] len(2) assms(1) by (simp add: n_def)
  have "min (int n - 1) (int n * 99 div 100) = int (99 * n div 100)"
    using i(2) by (simp add: zdiv_int mult.commute)
  then have at99': "py_index ls (min (int n - 1) (int n * 99 div 100)) = Inr (ls ! (99 * n div 100))"
    using len i(2) by (simp add: py_index_def Let_def)
  have inside: "ls ! (n div 2) \<in> set (latencies r)" "ls ! (99 * n div 100) \<in> set (latencies r)"
    using i len nth_mem [of _ ls] by (auto simp: ls_def)
  have p: "p50_of ls = rbind (flt_of_int (ls ! (n div 2))) (\<lambda>x. Inr (PFloat x))"
    "p99_of ls = rbind (flt_of_int (ls ! (99 * n div 100))) (\<lambda>x. Inr (PFloat x))"
    using ne at50 at99 at99' by (simp_all add: p50_of_def p99_of_def len(1))
  show ?thesis
    using ne False inside flt_of_int_errors [of "ls ! (n div 2)"] flt_of_int_errors [of "ls ! (99 * n div 100)"]
    by (cases "flt_of_int (ls ! (n div 2))"; cases "flt_of_int (ls ! (99 * n div 100))")
      (auto simp: telemetry_round_def Let_def p ls_def [symmetric])
qed

theorem telemetry_round_outcome_witness:
  "fst (telemetry_round [] (sample_runtime\<lparr>latencies := [1]\<rparr>)) = sample_runtime
   \<and> length (latencies (sample_runtime\<lparr>latencies := [1]\<rparr>)) < 2 ^ 40"
proof -
  have "length (latencies (sample_runtime\<lparr>latencies := [1]\<rparr>)) < 2 ^ 40" by simp
  from telemetry_round_outcome [OF this, of "[]"] show ?thesis
    by (simp add: sample_runtime_def new_runtime_def)
qed

end
