(* ===== verification/Node_Samples.thy ===== *)
theory Node_Samples
  imports Node_Facts Report_Theorems
begin

text \<open>
  A concrete agent: started with a token from the command line, it loads the sample session, is
  sent the sample packet and reports its telemetry.
\<close>

definition sample_args :: agent_args where
  "sample_args = \<lparr>arg_gateway = u ''http://gw'', arg_vehicle = u ''car-001'', arg_backend = None,
                  arg_token = Some (u ''t'')\<rparr>"

definition sample_token_response :: response where
  "sample_token_response =
     \<lparr>status_code = 200, body_json = Inr (PDict [(u ''token'', PStr (u ''lk''))]), body_text = Inr []\<rparr>"

definition sample_node :: "bytes node" where
  "sample_node = \<lparr>rt = sample_runtime, tokens = None, in_flight = None, unsent = [],
                  reporting = False, alive = True\<rparr>"

lemma sample_start: "start_node sample_lib sample_args (u ''t'') None f0 (Inr sample_response) = sample_node"
proof -
  let ?v = "(new_verifier (arg_gateway sample_args) (arg_vehicle sample_args) [] 100 100 f0)\<lparr>auth_token := u ''t''\<rparr>
    :: bytes verifier"
  have v: "?v = \<lparr>gateway_url = u ''http://gw'', vehicle_id = u ''car-001'', auth_token = u ''t'', max_age_ms = 100,
      max_future_skew_ms = 100, session = None, verify_key = None, last_sequence = 0, last_valid_cmd_time = f0\<rparr>"
    by (simp add: new_verifier_def sample_args_def rstrip_def u_def)
  have g: "grants sample_lib (Inr sample_response) (clear_session ?v) sample_session [0, 0, 0]"
    by (rule sample_grants) (simp add: v clear_session_def)
  have "refresh_session sample_lib (Inr sample_response) ?v = (sample_verifier, Inr ())"
    by (simp add: refresh_session_def refresh_begin_def refresh_finish_granted [OF g]) (simp add: v clear_session_def sample_verifier_def sample_session_def,
        simp add: new_verifier_def)
  then show ?thesis by (simp add: start_node_def sample_node_def sample_runtime_def)
qed

lemma sample_credentials:
  "agent_credentials sample_args (Inl OSError) (Inl ClientError) f0 (Inr sample_token_response)
     = Inr (u ''t'', None, PStr (u ''lk''))"
  by (simp add: agent_credentials_def sample_args_def request_livekit_token_def sample_token_response_def)

lemma sample_reachable: "node_reachable sample_lib sample_args sample_node"
  using node_reachable.started [OF sample_credentials, of sample_lib f0 "Inr sample_response"]
  by (simp add: sample_start)

definition sample_actuation :: actuation where
  "sample_actuation = \<lparr>steering = f0, throttle = f1, brake = f0, direction = f1\<rparr>"

text \<open>The sample packet on any runtime with the sample verifier.\<close>

lemma sample_drives:
  assumes "verifier r = sample_verifier"
  obtains r' where "on_datachannel_message sample_lib sample_raw (u ''operator-a'') sample_readings r = (r', Inr ())"
    "brake_controller r' = apply_control (PStr (u ''remote'')) sample_actuation (brake_controller r)"
    "latencies r' = latencies r @ [0]"
proof -
  have p: "int_field sample_packet ''sequence'' = Inr 1" "int_field sample_packet ''timestamp_ms'' = Inr 1000"
    "py_getitem sample_packet (u ''command'') = Inr sample_command"
    by (simp_all add: int_field_def sample_packet_def)
  have c: "resolve_command sample_command = Inr sample_actuation"
    by (simp add: resolve_command_def sample_command_def mode_is_def resolve_action_def protocol_constants
        sample_actuation_def)
  have m: "millis (handler_wall sample_readings) = Inr 1000" by (simp add: sample_readings_def sample_millis)
  let ?r = "r\<lparr>verifier := sample_verifier\<lparr>last_sequence := 1, last_valid_cmd_time := f1\<rparr>\<rparr>"
  have run: "on_datachannel_message sample_lib sample_raw (u ''operator-a'') sample_readings r
      = apply_packet sample_readings sample_packet ?r"
    using sample_accepted by (simp add: on_datachannel_message_def sample_readings_def assms)
  show ?thesis
  proof (rule that)
    show "on_datachannel_message sample_lib sample_raw (u ''operator-a'') sample_readings r
        = (fst (apply_packet sample_readings sample_packet ?r), Inr ())"
      using apply_packet_ok(1) [OF p c m, of ?r] by (simp add: run prod_eq_iff)
    show "brake_controller (fst (apply_packet sample_readings sample_packet ?r))
        = apply_control (PStr (u ''remote'')) sample_actuation (brake_controller r)"
      using apply_packet_ok(2) [OF p c m, of ?r] by simp
    show "latencies (fst (apply_packet sample_readings sample_packet ?r)) = latencies r @ [0]"
      using apply_packet_ok(3) [OF p c m, of ?r] by simp
  qed
qed

lemma sample_delivery: "on_data (DataObject (Inr sample_raw)) (Inr (u ''operator-a'')) = Some (sample_raw, u ''operator-a'')"
  by (simp add: on_data_def)

lemma neg_sign_value: "canonical x \<Longrightarrow> neg_sign x \<Longrightarrow> rval x \<le> 0"
  by (cases x) auto

lemma sample_elapsed: "is_finite (elapsed_ms f1 f0)" "300 < rval (elapsed_ms f1 f0)"
proof -
  have one: "is_finite f1" "canonical f1" "rval f1 = 1"
    by (simp_all add: rval_ratio fin_num_def fin_den_def scale2_def del: rval.simps)
  note d = flt_sub_zero [OF one(1,2)]
  have thousand: "flt_small 1000 = round_real False (of_int 1000)"
    using round_ratio_real [of 1000 1 False] by (simp add: flt_small_def)
  have "rval (flt_sub f1 f0) = 1" using d(2) one(3) by simp
  moreover have k: "is_finite (flt_small 1000)" "rval (flt_small 1000) = 1000"
    using round_real_int [of 1000] unfolding thousand by simp_all
  ultimately have "elapsed_ms f1 f0 = round_real (neg_sign (flt_sub f1 f0) \<noteq> neg_sign (flt_small 1000)) (of_int 1000)"
    using flt_mul_real [OF d(1) k(1) flt_sub_canonical flt_small_canonical]
    by (simp add: elapsed_ms_def)
  moreover have "\<not> neg_sign (flt_small 1000)" unfolding thousand by (simp add: round_real_def Let_def)
  moreover have "\<not> neg_sign (flt_sub f1 f0)"
    using neg_sign_value [OF flt_sub_canonical [of f1 f0]] \<open>rval (flt_sub f1 f0) = 1\<close> by auto
  ultimately have "elapsed_ms f1 f0 = round_real False (of_int 1000)" by simp
  with round_real_int [of 1000] show "is_finite (elapsed_ms f1 f0)" "300 < rval (elapsed_ms f1 f0)" by simp_all
qed

end
