(* ===== verification/Node_Theorems.thy ===== *)
theory Node_Theorems
  imports Node_Samples
begin

text \<open>The properties of the whole vehicle node: every interleaving of its tasks.\<close>

section \<open>What a step does to the brake\<close>

abbreviation brake_of :: "'k node \<Rightarrow> actuation brake_state" where
  "brake_of s \<equiv> brake_controller (rt s)"

lemma shut_down_frame [simp]:
  "brake_of (shut_down s) = brake_of s" "alive (shut_down s) = False" "running (rt (shut_down s)) = False"
  by (simp_all add: shut_down_def)

lemma node_step_brake:
  assumes "node_step x a e s s'"
  obtains (kept) "brake_of s' = brake_of s"
  | (braked) why where "brake_of s' = emergency_brake why (brake_of s)" "alive s'"
  | (applied) data identity raw sender t out packet c where
      "e = Delivers raw sender t (Accepts packet)" "on_data data identity = Some (raw, sender)"
      "on_datachannel_message x raw sender t (rt s) = (rt s', out)" "s' = s\<lparr>rt := rt s'\<rparr>"
      "verify_packet x raw sender (verify_wall t) (verify_mono t) (verifier (rt s))
         = (verifier (rt s'), Inr (Some packet))"
      "drivable c" "brake_of s' = apply_control (PStr (u ''remote'')) c (brake_of s)"
      "rbind (py_getitem packet (u ''command'')) resolve_command = Inr c"
  using assms
proof (cases rule: node_step.cases)
  case (packet data identity raw sender t r out outcome)
  from packet(4) show ?thesis
  proof (cases rule: on_message_effect)
    case kept
    with packet(2) that(1) show ?thesis by simp
  next
    case (applied v pk c l)
    have "outcome = Accepts pk" using packet(5) applied(1) by (auto simp: verification_of_Accepts)
    moreover have "verifier r = v" using on_message_verifier [OF packet(4)] applied(1) by simp
    ultimately show ?thesis
      using packet applied by (intro that(3) [of raw sender t pk data identity out c]) simp_all
  qed
next
  case (watchdog now now_audit r newly)
  with watchdog_effect(4) [OF watchdog(4)] kept braked show ?thesis by auto
next
  case (watchdog_raises now now_audit r e)
  then have "r = rt s"
    by (auto simp: watchdog_round_def Let_def split: if_splits sum.splits)
  with watchdog_raises kept show ?thesis by simp
next
  case (audit_takes r evs)
  then have "brake_controller r = brake_of s" by (auto simp: audit_take_def)
  with audit_takes kept show ?thesis by simp
next
  case (telemetry_reports r report)
  have "brake_controller r = brake_of s" using telemetry_effect [OF telemetry_reports(5)] by auto
  with telemetry_reports kept show ?thesis by simp
next
  case (telemetry_raises r e)
  have "brake_controller r = brake_of s" using telemetry_effect [OF telemetry_raises(5)] by auto
  with telemetry_raises kept show ?thesis by simp
qed (use kept in simp_all)

section \<open>Releasing the emergency brake\<close>

text \<open>
  C7: Only an accepted packet releases the emergency brake: a step of any task of the node that takes
  the latch away is the delivery of a data packet which the verifier accepts at the clock readings
  of that very call, and it releases the brake by applying that packet's command, in range.
\<close>

theorem emergency_release:
  assumes "node_step x a e s s'" and "in_emergency (brake_of s)" and "\<not> in_emergency (brake_of s')"
  shows "\<exists>data identity raw sender t out packet c.
      e = Delivers raw sender t (Accepts packet) \<and> on_data data identity = Some (raw, sender)
    \<and> on_datachannel_message x raw sender t (rt s) = (rt s', out) \<and> s' = s\<lparr>rt := rt s'\<rparr>
    \<and> verify_packet x raw sender (verify_wall t) (verify_mono t) (verifier (rt s))
        = (verifier (rt s'), Inr (Some packet))
    \<and> rbind (py_getitem packet (u ''command'')) resolve_command = Inr c \<and> drivable c
    \<and> brake_of s' = apply_control (PStr (u ''remote'')) c (brake_of s)"
  using assms(1)
proof (cases rule: node_step_brake)
  case kept
  with assms(2,3) show ?thesis by simp
next
  case (braked why)
  with ebc.brake_latches [of why "brake_of s"] assms(3) show ?thesis by simp
next
  case (applied data identity raw sender t out packet c)
  then show ?thesis by blast
qed

definition sample_braked :: "bytes node" where
  "sample_braked = sample_node\<lparr>rt := sample_runtime\<lparr>brake_controller := emergency_brake [] new_brake\<rparr>\<rparr>"

lemma sample_braked_step:
  obtains e s' where "node_step sample_lib sample_args e sample_braked s'" "in_emergency (brake_of sample_braked)"
    "\<not> in_emergency (brake_of s')"
proof -
  have "verifier (rt sample_braked) = sample_verifier"
    by (simp add: sample_braked_def sample_runtime_def new_runtime_def)
  then obtain r' where r':
    "on_datachannel_message sample_lib sample_raw (u ''operator-a'') sample_readings (rt sample_braked) = (r', Inr ())"
    "brake_controller r' = apply_control (PStr (u ''remote'')) sample_actuation (brake_of sample_braked)"
    by (rule sample_drives)
  show ?thesis
    by (rule that [OF node_step.packet [OF sample_delivery r'(1) refl]])
      (simp_all add: r'(2) ebc.apply_releases sample_braked_def ebc.brake_latches)
qed

theorem emergency_release_witness:
  "\<exists>e s' raw sender t packet. node_step sample_lib sample_args e sample_braked s'
     \<and> in_emergency (brake_of sample_braked) \<and> \<not> in_emergency (brake_of s')
     \<and> e = Delivers raw sender t (Accepts packet)
     \<and> verify_packet sample_lib raw sender (verify_wall t) (verify_mono t) (verifier (rt sample_braked))
         = (verifier (rt s'), Inr (Some packet))"
proof (rule sample_braked_step)
  fix e s'
  assume s: "node_step sample_lib sample_args e sample_braked s'" "in_emergency (brake_of sample_braked)"
    "\<not> in_emergency (brake_of s')"
  from emergency_release [OF s] s show ?thesis by blast
qed

section \<open>Refinement of the guard\<close>

text \<open>
  The specification: a guard that is latched or not and remembers the last command it let through.
  It may let a command in range through, which unlatches it, or latch.
\<close>

record guard =
  g_latched :: bool
  g_command :: "actuation option"

inductive guard_step :: "guard \<Rightarrow> guard \<Rightarrow> bool" where
  idle: "guard_step g g"
| drive: "drivable c \<Longrightarrow> guard_step g \<lparr>g_latched = False, g_command = Some c\<rparr>"
| halt: "guard_step g (g\<lparr>g_latched := True\<rparr>)"

definition last_command :: "(pyval \<times> actuation) list \<Rightarrow> actuation option" where
  "last_command cs = (if cs = [] then None else Some (snd (last cs)))"

definition guard_of :: "'k node \<Rightarrow> guard" where
  "guard_of s = \<lparr>g_latched = in_emergency (brake_of s),
                 g_command = last_command (applied_of (outputs (brake_of s)))\<rparr>"

text \<open>
  C5: The node refines that guard: every step of every task, seen through the brake controller's latch
  and output, is a step of the guard or no step at all.
\<close>

theorem node_refines_guard:
  assumes "node_step x a e s s'"
  shows "guard_step (guard_of s) (guard_of s')"
  using assms
proof (cases rule: node_step_brake)
  case kept
  then have "guard_of s' = guard_of s" by (simp add: guard_of_def)
  then show ?thesis by (simp add: guard_step.idle)
next
  case (braked why)
  then have "guard_of s' = (guard_of s)\<lparr>g_latched := True\<rparr>"
    by (simp add: guard_of_def ebc.brake_latches ebc.applied_brake)
  then show ?thesis by (simp add: guard_step.halt)
next
  case (applied data identity raw sender t out packet c)
  then have "guard_of s' = \<lparr>g_latched = False, g_command = Some c\<rparr>"
    by (simp add: guard_of_def ebc.apply_releases ebc.applied_apply last_command_def)
  then show ?thesis using applied(6) by (simp add: guard_step.drive)
qed

theorem node_refines_guard_witness:
  "\<exists>e s'. node_step sample_lib sample_args e sample_braked s' \<and> guard_step (guard_of sample_braked) (guard_of s')
     \<and> guard_of s' \<noteq> guard_of sample_braked"
proof (rule sample_braked_step)
  fix e s'
  assume s: "node_step sample_lib sample_args e sample_braked s'" "in_emergency (brake_of sample_braked)"
    "\<not> in_emergency (brake_of s')"
  then have "guard_of s' \<noteq> guard_of sample_braked" by (simp add: guard_of_def)
  with node_refines_guard [OF s(1)] s(1) show ?thesis by blast
qed

section \<open>The watchdog of the node\<close>

abbreviation last_command_time :: "'k node \<Rightarrow> pyfloat" where
  "last_command_time s \<equiv> last_valid_cmd_time (verifier (rt s))"

lemma watchdog_latch:
  assumes "watchdog_round timeout now now_audit r = (r', Inr ())"
  shows "in_emergency (brake_controller r') \<longleftrightarrow> in_emergency (brake_controller r)
    \<or> is_finite (elapsed_ms now (last_valid_cmd_time (verifier r)))
      \<and> of_int timeout < rval (elapsed_ms now (last_valid_cmd_time (verifier r)))"
proof -
  let ?e = "elapsed_ms now (last_valid_cmd_time (verifier r))"
  show ?thesis
  proof (cases "int_lt_flt timeout ?e")
    case True
    then have "is_finite ?e"
      using assms by (cases ?e) (auto simp: watchdog_round_def Let_def watchdog_reason_def)
    with True assms cmp_int_rval(3) [of ?e timeout] show ?thesis
      by (auto simp: watchdog_round_def Let_def frame_simps ebc.brake_latches split: if_splits sum.splits)
  next
    case False
    with assms cmp_int_rval(3) [of ?e timeout] show ?thesis by (auto simp: watchdog_quiet)
  qed
qed

lemma watchdog_runs:
  assumes "is_finite (elapsed_ms now (last_valid_cmd_time (verifier r)))"
  shows "\<exists>r'. watchdog_round timeout now now_audit r = (r', Inr ())"
proof (cases "int_lt_flt timeout (elapsed_ms now (last_valid_cmd_time (verifier r)))")
  case True
  obtain why where "watchdog_reason (elapsed_ms now (last_valid_cmd_time (verifier r))) = Inr why"
    using watchdog_reason_cases [of now "last_valid_cmd_time (verifier r)"] assms
    by (cases "elapsed_ms now (last_valid_cmd_time (verifier r))") auto
  from watchdog_brakes(1) [OF True this] show ?thesis by (metis prod.collapse)
qed (simp add: watchdog_quiet)

lemma step_without_command:
  assumes "node_step x a e s s'" and "accepted_of [e] = []" and "alive s'"
  shows "last_command_time s' = last_command_time s
    \<and> (in_emergency (brake_of s') \<longleftrightarrow> in_emergency (brake_of s)
        \<or> (\<exists>now now_audit braked. e = Watches now now_audit braked
             \<and> is_finite (elapsed_ms now (last_command_time s)) \<and> 300 < rval (elapsed_ms now (last_command_time s))))"
  using assms(1)
proof (cases rule: node_step.cases)
  case (packet data identity raw sender t r out outcome)
  have no: "\<nexists>p. outcome = Accepts p" using assms(2) packet(1) by auto
  have "last_valid_cmd_time (verifier r) = last_command_time s"
    using verification_of_kept(1) [OF packet(5) [symmetric] no] on_message_verifier [OF packet(4)] by simp
  moreover from packet(4) have "brake_controller r = brake_of s"
  proof (cases rule: on_message_effect)
    case (applied v pk c l)
    then have "outcome = Accepts pk" using packet(5) by (auto simp: verification_of_Accepts)
    with no show ?thesis by blast
  qed
  ultimately show ?thesis using packet(1,2) by simp
next
  case (refresh_starts v loc req)
  with refresh_begin_clears(6) [OF refresh_starts(5)] show ?thesis by simp
next
  case (refresh_returns loc ex v out)
  from refresh_returns(5) have "last_valid_cmd_time v = last_command_time s"
    by (cases rule: refresh_finish_cases) simp_all
  with refresh_returns(1,2) show ?thesis by simp
next
  case (watchdog now now_audit r braked)
  with watchdog_latch [OF watchdog(4)] watchdog_effect(1) [OF watchdog(4)] show ?thesis by simp
next
  case (audit_takes r evs)
  then show ?thesis by (auto simp: audit_take_def)
next
  case (telemetry_reports r report)
  with telemetry_effect [OF telemetry_reports(5)] show ?thesis by auto
qed (use assms(3) in simp_all)

lemma run_without_command:
  "node_run x a s es s' \<Longrightarrow> accepted_of es = [] \<Longrightarrow> alive s' \<Longrightarrow>
     last_command_time s' = last_command_time s
   \<and> (in_emergency (brake_of s') \<longleftrightarrow> in_emergency (brake_of s)
        \<or> (\<exists>now now_audit braked. Watches now now_audit braked \<in> set es
             \<and> is_finite (elapsed_ms now (last_command_time s)) \<and> 300 < rval (elapsed_ms now (last_command_time s))))"
proof (induction rule: node_run.induct)
  case (onward e s s1 es s')
  have "accepted_of [e] = []" "accepted_of es = []"
    using onward.prems(1) by (simp_all add: accepted_of_Cons)
  then have first: "last_command_time s1 = last_command_time s"
      "in_emergency (brake_of s1) \<longleftrightarrow> in_emergency (brake_of s)
        \<or> (\<exists>now now_audit braked. e = Watches now now_audit braked
             \<and> is_finite (elapsed_ms now (last_command_time s)) \<and> 300 < rval (elapsed_ms now (last_command_time s)))"
    and rest: "last_command_time s' = last_command_time s1"
      "in_emergency (brake_of s') \<longleftrightarrow> in_emergency (brake_of s1)
        \<or> (\<exists>now now_audit braked. Watches now now_audit braked \<in> set es
             \<and> is_finite (elapsed_ms now (last_command_time s1)) \<and> 300 < rval (elapsed_ms now (last_command_time s1)))"
    using step_without_command [OF onward.hyps(1)] onward.IH onward.prems(2) node_run_alive [OF onward.hyps(2)] by simp_all
  show ?case unfolding rest(2) first(2) rest(1) first(1) list.set insert_iff by blast
qed simp

text \<open>
  C6: While the agent runs, losing the operator brakes the vehicle, after 300 milliseconds and not before.
  Over any run in which no packet is accepted, whatever else the tasks do, the time of the last
  accepted packet stays; the emergency is latched at the end exactly if it was at the start or the
  watchdog took a clock reading more than 300 milliseconds after that time; and the watchdog can
  always take its next reading, which latches the emergency under the same condition and does
  not end the agent.
\<close>

theorem silence_brakes:
  assumes "node_run x a s es s'" and "alive s'" and "accepted_of es = []"
  shows "last_command_time s' = last_command_time s
    \<and> (in_emergency (brake_of s') \<longleftrightarrow> in_emergency (brake_of s)
         \<or> (\<exists>now now_audit braked. Watches now now_audit braked \<in> set es
              \<and> is_finite (elapsed_ms now (last_command_time s)) \<and> 300 < rval (elapsed_ms now (last_command_time s))))
    \<and> (\<forall>now now_audit. is_finite (elapsed_ms now (last_command_time s)) \<longrightarrow>
         (\<exists>braked s''. node_step x a (Watches now now_audit braked) s' s'' \<and> alive s''
            \<and> (in_emergency (brake_of s'') \<longleftrightarrow> in_emergency (brake_of s') \<or> 300 < rval (elapsed_ms now (last_command_time s)))))"
proof -
  have "\<exists>braked s''. node_step x a (Watches now now_audit braked) s' s'' \<and> alive s''
      \<and> (in_emergency (brake_of s'') \<longleftrightarrow> in_emergency (brake_of s') \<or> 300 < rval (elapsed_ms now (last_command_time s)))"
    if fin: "is_finite (elapsed_ms now (last_command_time s))" for now now_audit
  proof -
    have same: "last_command_time s' = last_command_time s"
      using run_without_command [OF assms(1,3,2)] by blast
    obtain r where r: "watchdog_round 300 now now_audit (rt s') = (r, Inr ())"
      using watchdog_runs [of now "rt s'"] fin same by auto
    note step = node_step.watchdog [OF assms(2) r refl, where x = x and a = a]
    show ?thesis
      by (rule exI, rule exI, rule conjI, rule step)
        (use watchdog_latch [OF r] fin same assms(2) in simp)
  qed
  with run_without_command [OF assms(1,3,2)] show ?thesis by blast
qed

theorem silence_brakes_witness:
  "\<exists>braked s'. node_run sample_lib sample_args sample_node [Watches f1 f1 braked] s'
     \<and> \<not> in_emergency (brake_of sample_node) \<and> in_emergency (brake_of s') \<and> alive s'"
proof -
  have s: "last_command_time sample_node = f0" "alive sample_node" "\<not> in_emergency (brake_of sample_node)"
    by (simp_all add: sample_node_def sample_runtime_def new_runtime_def sample_verifier_def new_brake_def)
  obtain braked s' where s': "node_step sample_lib sample_args (Watches f1 f1 braked) sample_node s'" "alive s'"
    using silence_brakes [OF node_run.here s(2), of sample_lib sample_args] sample_elapsed s(1) by fastforce
  have run: "node_run sample_lib sample_args sample_node [Watches f1 f1 braked] s'"
    by (rule node_run.onward [OF s'(1) node_run.here])
  have "in_emergency (brake_of s')"
    using silence_brakes [OF run s'(2)] sample_elapsed s(1) by auto
  with run s s'(2) show ?thesis by blast
qed

section \<open>Stopping\<close>

text \<open>
  C14: Nothing brakes the vehicle when the agent stops: the step that ends the agent, by an exception of
  any of its tasks or by a cancellation, leaves the brake controller exactly as it was, and
  \<open>running\<close> is off afterwards, so that the watchdog does not run again.
\<close>

theorem stopping_does_not_brake:
  assumes "node_step x a e s s'" and "alive s" and "\<not> alive s'"
  shows "brake_of s' = brake_of s \<and> \<not> running (rt s')"
proof -
  have "brake_of s' = brake_of s"
    using assms(1)
  proof (cases rule: node_step_brake)
    case (applied data identity raw sender t out packet c)
    from applied(4) have "alive s' = alive s" by (metis node.ext_inject node.surjective node.update_convs(1))
    with assms(2,3) show ?thesis by simp
  qed (use assms(3) in auto)
  moreover have "\<not> running (rt s')"
    using assms(1) by (cases rule: node_step.cases) (use assms(2,3) in auto)
  ultimately show ?thesis by simp
qed

text \<open>
  C15: This happens in practice: there is a run in which the vehicle is driving at full throttle on the
  last accepted command when the post of a telemetry report exceeds its total timeout, which
  \<open>aiohttp\<close> raises as a \<open>TimeoutError\<close> the handler for \<open>ClientError\<close> does not catch; the agent and
  with it the watchdog end, and the throttle stays on.
\<close>

theorem timeout_leaves_throttle:
  "\<exists>s. node_reachable sample_lib sample_args s \<and> alive s \<and> reporting s
     \<and> post_result (Inl TimeoutError) = Inl TimeoutError
     \<and> node_step sample_lib sample_args (Ends TimeoutError) s (shut_down s) \<and> \<not> alive (shut_down s)
     \<and> \<not> in_emergency (brake_of (shut_down s))
     \<and> last (outputs (brake_of (shut_down s))) = AppliedControl (PStr (u ''remote'')) sample_actuation
     \<and> throttle sample_actuation = f1"
proof -
  have v: "verifier sample_runtime = sample_verifier" by (simp add: sample_runtime_def new_runtime_def)
  obtain r where r: "on_datachannel_message sample_lib sample_raw (u ''operator-a'') sample_readings sample_runtime = (r, Inr ())"
    "brake_controller r = apply_control (PStr (u ''remote'')) sample_actuation (brake_controller sample_runtime)"
    "latencies r = latencies sample_runtime @ [0]"
    by (rule sample_drives [OF v])
  have l: "latencies r = [0]" using r(3) by (simp add: sample_runtime_def new_runtime_def)
  obtain z where z: "flt_of_int 0 = Inr z" using flt_of_small [of 0] by auto
  have "p50_of [0] = Inr (PFloat z)" "p99_of [0] = Inr (PFloat z)"
    using p99_index_exact [of 1] z by (simp_all add: p50_of_def p99_of_def py_index_def)
  then obtain t where t: "telemetry_round (arg_vehicle sample_args) r
      = (r\<lparr>latencies := [], lost_count := 0\<rparr>, Inr (Some t))"
    by (simp add: telemetry_round_def Let_def l)
  let ?s1 = "sample_node\<lparr>rt := r\<rparr>"
  let ?s2 = "?s1\<lparr>rt := r\<lparr>latencies := [], lost_count := 0\<rparr>, reporting := (Some t \<noteq> None)\<rparr>"
  obtain e1 where "node_step sample_lib sample_args e1 sample_node ?s1"
    using node_step.packet [OF sample_delivery, of sample_lib sample_readings sample_node r "Inr ()" _ sample_args] r(1)
    by (simp add: sample_node_def)
  moreover have "node_step sample_lib sample_args (Reports (Some t)) ?s1 ?s2"
    by (rule node_step.telemetry_reports) (use t in \<open>simp_all add: sample_node_def\<close>)
  ultimately have reach: "node_reachable sample_lib sample_args ?s2"
    using sample_reachable node_reachable.stepped by blast
  have post: "post_result (Inl TimeoutError) = Inl TimeoutError" by (simp add: post_result_def)
  have alive: "alive ?s2" "reporting ?s2" by (simp_all add: sample_node_def)
  have "node_step sample_lib sample_args (Ends TimeoutError) ?s2 (shut_down ?s2)"
    by (rule node_step.telemetry_post_raises [OF alive post])
  moreover have "\<not> in_emergency (brake_of ?s2)" by (simp add: r(2) ebc.apply_releases)
  moreover have "last (outputs (brake_of ?s2)) = AppliedControl (PStr (u ''remote'')) sample_actuation"
    by (simp add: r(2) ebc.apply_out)
  ultimately show ?thesis
    using reach post alive by (intro exI [of _ ?s2]) (simp add: sample_actuation_def)
qed

theorem stopping_does_not_brake_witness:
  "node_step sample_lib sample_args (Ends CancelledError) sample_node (shut_down sample_node)
   \<and> brake_of (shut_down sample_node) = brake_of sample_node \<and> \<not> in_emergency (brake_of (shut_down sample_node))"
proof -
  have alive: "alive sample_node" "\<not> in_emergency (brake_of sample_node)"
    by (simp_all add: sample_node_def sample_runtime_def new_runtime_def new_brake_def)
  have step: "node_step sample_lib sample_args (Ends CancelledError) sample_node (shut_down sample_node)"
    by (rule node_step.stops [OF alive(1)])
  from stopping_does_not_brake [OF step alive(1)] step alive(2) show ?thesis by simp
qed

end
