(* ===== verification/Token_Theorems.thy ===== *)
theory Token_Theorems
  imports Device_Credentials Py_Float_Error Samples
begin

text \<open>The properties of the credential file and of the vehicle's access token.\<close>

section \<open>The credential file\<close>

lemma mode_bits: "S_ISREG m \<and> S_IMODE m = 0x180 \<longleftrightarrow> take_bit 16 m = 0x8180"
proof
  have split: "m AND 0xF000 = take_bit 16 m - take_bit 12 m" "m AND 0xFFF = take_bit 12 m"
  proof -
    show low: "m AND 0xFFF = take_bit 12 m" by (simp add: take_bit_eq_mask mask_eq_exp_minus_1)
    have "take_bit 16 m = (m AND 0xF000) OR (m AND 0xFFF)"
      by (simp add: take_bit_eq_mask mask_eq_exp_minus_1 flip: bit.conj_disj_distrib)
    also have "\<dots> = (m AND 0xF000) + (m AND 0xFFF)"
    proof -
      have "(m AND 0xF000) AND (m AND 0xFFF) = m AND (0xF000 AND 0xFFF)"
        by (simp add: ac_simps)
      also have "\<dots> = 0" by simp
      finally show ?thesis using plus_and_or [of "m AND 0xF000" "m AND 0xFFF"] by simp
    qed
    finally show "m AND 0xF000 = take_bit 16 m - take_bit 12 m" using low by simp
  qed
  show "take_bit 16 m = 0x8180" if "S_ISREG m \<and> S_IMODE m = 0x180"
    using that split by (simp add: S_ISREG_def S_IMODE_def)
  show "S_ISREG m \<and> S_IMODE m = 0x180" if "take_bit 16 m = 0x8180"
  proof -
    have "take_bit 12 m = take_bit 12 (take_bit 16 m)" by simp
    also have "\<dots> = 0x180" unfolding that by (simp add: take_bit_eq_mod)
    finally show ?thesis using split that by (simp add: S_ISREG_def S_IMODE_def)
  qed
qed

lemma has_text_iff: "has_text d k \<longleftrightarrow> (\<exists>s. map_of d k = Some (PStr s) \<and> s \<noteq> [])"
  by (auto simp: has_text_def split: option.splits pyval.splits)

text \<open>
  C26: Credentials are loaded exactly from a regular file with mode 0600 owned by root whose text is
  YAML of a mapping with the four required fields as non-empty strings, and they are those
  fields; in every other case \<open>load\<close> raises.
\<close>

theorem load_credentials_iff:
  "load_credentials yaml metadata contents = Inr c \<longleftrightarrow>
     (\<exists>st t d. metadata = Inr st \<and> take_bit 16 (st_mode st) = 0x8180 \<and> st_uid st = 0
        \<and> contents = Inr t \<and> yaml t = Inr (PDict d)
        \<and> map_of d (u ''vehicle_id'') = Some (PStr (cred_vehicle c)) \<and> cred_vehicle c \<noteq> []
        \<and> map_of d (u ''client_id'') = Some (PStr (client_id c)) \<and> client_id c \<noteq> []
        \<and> map_of d (u ''client_secret'') = Some (PStr (client_secret c)) \<and> client_secret c \<noteq> []
        \<and> map_of d (u ''token_url'') = Some (PStr (token_url c)) \<and> token_url c \<noteq> []
        \<and> audience c = optional d (u ''audience'') \<and> scope c = optional d (u ''scope''))"
proof -
  have build: "build_credentials v = Inr c \<longleftrightarrow>
      (\<exists>d. v = PDict d \<and> list_all (has_text d) REQUIRED_FIELDS
        \<and> cred_vehicle c = text_of (map_of d (u ''vehicle_id''))
        \<and> client_id c = text_of (map_of d (u ''client_id''))
        \<and> client_secret c = text_of (map_of d (u ''client_secret''))
        \<and> token_url c = text_of (map_of d (u ''token_url''))
        \<and> audience c = optional d (u ''audience'') \<and> scope c = optional d (u ''scope''))" for v
    by (cases v; cases c) auto
  have read: "read_mapping yaml contents = Inr v \<longleftrightarrow> (\<exists>t. contents = Inr t \<and> yaml t = Inr v)" for v
    by (auto simp: read_mapping_def rbind_iffs split: sum.splits)
  show ?thesis
    by (simp add: load_credentials_def rbind_eq_Inr_iff read build REQUIRED_FIELDS_def has_text_iff
        mode_bits [symmetric]) (auto split: if_splits)
qed

section \<open>The access token\<close>

text \<open>
  A lifetime that is enough for a refresh margin: a number strictly above it, an \<open>int\<close> (a Boolean is
  one) or a \<open>float\<close>; the comparison \<open><=\<close> lets \<open>Infinity\<close> and \<open>NaN\<close> pass, which JSON bodies can hold.
\<close>

definition outlives :: "pyval \<Rightarrow> int \<Rightarrow> bool" where
  "outlives lifetime margin \<longleftrightarrow>
     (\<exists>n. lifetime = PInt n \<and> margin < n)
   \<or> (\<exists>b. lifetime = PBool b \<and> margin < (if b then 1 else 0))
   \<or> (\<exists>x. lifetime = PFloat x \<and> (x = NaN \<or> x = Inf False \<or> is_finite x \<and> of_int margin < rval x))"

lemma lives_longer_iff: "lives_longer v k \<longleftrightarrow> outlives v k"
proof (cases v)
  case (PFloat x)
  show ?thesis
  proof (cases "is_finite x")
    case True
    with PFloat cmp_int_rval(2) [OF True, of k] show ?thesis by (auto simp: outlives_def not_le)
  next
    case False
    with PFloat show ?thesis by (cases x) (auto simp: outlives_def)
  qed
qed (auto simp: outlives_def)

text \<open>The fields of an answer of the token endpoint.\<close>

definition token_answer :: "exchange \<Rightarrow> pyval \<Rightarrow> pyval \<Rightarrow> bool" where
  "token_answer ex token lifetime \<longleftrightarrow>
     (\<exists>r d. ex = Inr r \<and> status_code r = 200 \<and> body_json r = Inr (PDict d)
        \<and> token = (case map_of d (u ''access_token'') of None \<Rightarrow> PNone | Some v \<Rightarrow> v)
        \<and> lifetime = (case map_of d (u ''expires_in'') of None \<Rightarrow> PNone | Some v \<Rightarrow> v))"

lemma py_get_Inr: "py_get v k dflt = Inr w \<longleftrightarrow> (\<exists>d. v = PDict d \<and> w = (case map_of d k of None \<Rightarrow> dflt | Some v \<Rightarrow> v))"
  by (cases v) auto

lemma py_get_Inl: "py_get v k dflt = Inl e \<longleftrightarrow> (\<nexists>d. v = PDict d) \<and> e = AttributeError"
  by (cases v) auto

lemma outlives_float:
  assumes "outlives v k" and "py_float v = Inl e"
  shows "\<exists>n. v = PInt n \<and> k < n \<and> flt_of_int n = Inl e"
proof (cases v)
  case (PBool b)
  obtain z where z: "flt_of_int 0 = Inr z" using flt_of_small [of 0] by auto
  obtain w where w: "flt_of_int 1 = Inr w" using flt_of_small [of 1] by auto
  from PBool assms(2) z w show ?thesis by (cases b) simp_all
qed (use assms in \<open>simp_all add: outlives_def\<close>)

lemma token_body_Inr: "token_body ex = Inr (token, lifetime) \<longleftrightarrow> token_answer ex token lifetime"
  unfolding token_body_def token_answer_def
  by (auto simp: rbind_iffs py_get_Inr split: if_splits)

lemma token_body_Inl:
  "token_body ex = Inl e \<longleftrightarrow>
     ex = Inl e
   \<or> (\<exists>r. ex = Inr r \<and> (if status_code r \<noteq> 200 then e = RuntimeError ''vehicle token request failed''
        else body_json r = Inl e
          \<or> (\<exists>body. body_json r = Inr body \<and> (\<nexists>d. body = PDict d) \<and> e = AttributeError)))"
  unfolding token_body_def
  by (auto simp: rbind_iffs py_get_Inl py_get_Inr split: if_splits)

lemma refresh_token_cases:
  "(refresh_token ex now m = (m', Inr t) \<longleftrightarrow>
      (\<exists>lifetime x. token_answer ex (PStr t) lifetime \<and> t \<noteq> [] \<and> outlives lifetime (refresh_before_seconds m)
         \<and> py_float lifetime = Inr x
         \<and> m' = m\<lparr>access_token_opt := Some t, expires_at := flt_add now x\<rparr>))
   \<and> (refresh_token ex now m = (m', Inl e) \<longleftrightarrow>
      m' = m \<and> token_body ex = Inl e
    \<or> m' = m \<and> e = RuntimeError ''token endpoint returned an invalid or too-short-lived token''
       \<and> (\<exists>token lifetime. token_answer ex token lifetime
            \<and> (\<nexists>t. token = PStr t \<and> t \<noteq> [] \<and> outlives lifetime (refresh_before_seconds m)))
    \<or> (\<exists>t n. token_answer ex (PStr t) (PInt n) \<and> t \<noteq> [] \<and> refresh_before_seconds m < n
         \<and> flt_of_int n = Inl e \<and> m' = m\<lparr>access_token_opt := Some t\<rparr>))"
proof (cases "token_body ex")
  case (Inl err)
  then have "\<not> token_answer ex token lifetime" for token lifetime by (simp flip: token_body_Inr)
  moreover have "refresh_token ex now m = (m, Inl err)" using Inl by (simp add: refresh_token_def)
  ultimately show ?thesis using Inl by auto
next
  case (Inr tl)
  obtain token lifetime where tl: "tl = (token, lifetime)" by fastforce
  have answer: "token_answer ex token' lifetime' \<longleftrightarrow> token' = token \<and> lifetime' = lifetime" for token' lifetime'
    using Inr tl by (auto simp flip: token_body_Inr)
  show ?thesis
  proof (cases "\<exists>t. token = PStr t \<and> t \<noteq> [] \<and> outlives lifetime (refresh_before_seconds m)")
    case True
    then obtain t' where t': "token = PStr t'" "t' \<noteq> []" "outlives lifetime (refresh_before_seconds m)" by blast
    have run: "refresh_token ex now m =
        (case py_float lifetime of
           Inl e \<Rightarrow> (m\<lparr>access_token_opt := Some t'\<rparr>, Inl e)
         | Inr x \<Rightarrow> (m\<lparr>access_token_opt := Some t', expires_at := flt_add now x\<rparr>, Inr t'))"
      using t' Inr tl by (simp add: refresh_token_def lives_longer_iff Let_def)
    show ?thesis
      unfolding answer run using t' Inr outlives_float [OF t'(3)]
      by (cases "py_float lifetime") auto
  next
    case False
    then have "refresh_token ex now m =
        (m, Inl (RuntimeError ''token endpoint returned an invalid or too-short-lived token''))"
      using Inr tl by (cases token) (auto simp: refresh_token_def lives_longer_iff)
    with False Inr show ?thesis
      unfolding answer by (auto simp: outlives_def)
  qed
qed

text \<open>
  C27: A refresh of the token succeeds exactly when the endpoint answered 200 with a JSON object that has a
  non-empty text as its token and a number strictly above the refresh margin as its lifetime, one
  that a float can hold; it then stores this token and its expiry and returns it. It fails in
  exactly these cases: the request raised; another status; a body that does not parse or is no
  object; a token or lifetime that will not do, all with the old token and expiry kept; and a
  lifetime too large for a float, which raises with the new token stored beside the old expiry.
\<close>

theorem refresh_token_outcome:
  "(refresh_token ex now m = (m', Inr t) \<longleftrightarrow>
      (\<exists>lifetime x. token_answer ex (PStr t) lifetime \<and> t \<noteq> [] \<and> outlives lifetime (refresh_before_seconds m)
         \<and> py_float lifetime = Inr x
         \<and> m' = m\<lparr>access_token_opt := Some t, expires_at := flt_add now x\<rparr>))
   \<and> (refresh_token ex now m = (m', Inl e) \<longleftrightarrow>
      m' = m \<and> (ex = Inl e
        \<or> (\<exists>r. ex = Inr r \<and> (if status_code r \<noteq> 200 then e = RuntimeError ''vehicle token request failed''
             else body_json r = Inl e
               \<or> (\<exists>body. body_json r = Inr body \<and> (\<nexists>d. body = PDict d) \<and> e = AttributeError))))
    \<or> m' = m \<and> e = RuntimeError ''token endpoint returned an invalid or too-short-lived token''
       \<and> (\<exists>token lifetime. token_answer ex token lifetime
            \<and> (\<nexists>t. token = PStr t \<and> t \<noteq> [] \<and> outlives lifetime (refresh_before_seconds m)))
    \<or> (\<exists>t n. token_answer ex (PStr t) (PInt n) \<and> t \<noteq> [] \<and> refresh_before_seconds m < n
         \<and> flt_of_int n = Inl e \<and> m' = m\<lparr>access_token_opt := Some t\<rparr>))"
  unfolding token_body_Inl [symmetric] by (rule refresh_token_cases)

section \<open>The refresh loop\<close>

lemma f1_value: "rval f1 = 1" "is_finite f1"
  by (simp_all add: rval_ratio fin_num_def fin_den_def scale2_def del: rval.simps)

lemma at_least_one_bounds:
  "int_le_flt 1 (at_least_one x)" "flt_le_int x n \<Longrightarrow> 1 \<le> n \<Longrightarrow> flt_le_int (at_least_one x) n"
proof -
  have one: "int_le_flt 1 f1" "1 \<le> n \<Longrightarrow> flt_le_int f1 n" for n
    unfolding cmp_int_rval(1,2) [OF f1_value(2)] f1_value(1) by simp_all
  have "int_le_flt 1 x" if "int_lt_flt 1 x" using that by (cases x) auto
  with one(1) show "int_le_flt 1 (at_least_one x)" by (simp add: at_least_one_def)
  show "flt_le_int x n \<Longrightarrow> 1 \<le> n \<Longrightarrow> flt_le_int (at_least_one x) n"
    using one(2) by (simp add: at_least_one_def)
qed

lemma not_above: "\<not> int_lt_flt n x \<Longrightarrow> flt_le_int x n \<or> is_nan x"
  by (cases x) auto

lemma at_least_one_nan: "is_nan x \<Longrightarrow> at_least_one x = f1"
  by (cases x) (auto simp: at_least_one_def)

lemma flt_small_30: "int_le_flt 1 (flt_small 30)" "flt_le_int (flt_small 30) 30"
  by (simp_all add: float_eval)

lemma retry_delay_bounds: "int_le_flt 1 (retry_delay now m)" "flt_le_int (retry_delay now m) 30"
proof -
  let ?r = "flt_sub (expires_at m) now"
  show "int_le_flt 1 (retry_delay now m)"
    by (simp add: retry_delay_def Let_def flt_small_30 at_least_one_bounds(1))
  have "flt_le_int (at_least_one ?r) 30" if "\<not> int_lt_flt 30 ?r"
    using not_above [OF that] at_least_one_bounds(2) [of ?r 30] at_least_one_nan [of ?r]
      cmp_int_rval(2) [OF f1_value(2), of 30] f1_value(1) by auto
  then show "flt_le_int (retry_delay now m) 30"
    by (simp add: retry_delay_def Let_def flt_small_30)
qed

text \<open>
  One round of the refresh loop: it ends the loop only when it is cancelled; after a failure it
  waits between 1 and 30 seconds, whatever the clock says; after a success the token handed to
  the callback is the stored one; and a vehicle that has a token never loses it.
\<close>

lemma refresh_round_outcome:
  "(case refresh_round ex now now_failed m of
      (m', NewToken t) \<Rightarrow> access_token m' = Inr t \<and> t \<noteq> []
    | (m', RetryAfter d) \<Rightarrow> int_le_flt 1 d \<and> flt_le_int d 30
    | (m', LoopEnds e) \<Rightarrow> e = CancelledError)
   \<and> (case access_token_opt m of
         None \<Rightarrow> True
       | Some old \<Rightarrow> \<exists>t. access_token_opt (fst (refresh_round ex now now_failed m)) = Some t)
   \<and> (case refresh_delay now m of Inr d \<Rightarrow> int_le_flt 1 d | Inl e \<Rightarrow> e = OverflowError)"
proof -
  obtain m' r where run: "refresh_token ex now m = (m', r)" by fastforce
  have new: "access_token_opt m' = Some t \<and> t \<noteq> []" if "r = Inr t" for t
    using run that
    by (auto simp: refresh_token_def Let_def split: sum.splits pyval.splits if_splits)
  have kept: "case access_token_opt m of None \<Rightarrow> True | Some old \<Rightarrow> \<exists>t. access_token_opt m' = Some t"
    using run by (auto simp: refresh_token_def Let_def split: sum.splits pyval.splits if_splits option.splits)
  have delay: "case refresh_delay now m of Inr d \<Rightarrow> int_le_flt 1 d | Inl e \<Rightarrow> e = OverflowError"
    by (auto simp: refresh_delay_def flt_of_int_def at_least_one_bounds split: pyfloat.splits)
  have state: "fst (refresh_round ex now now_failed m) = m'"
    by (cases r) (simp_all add: refresh_round_def run)
  have "case refresh_round ex now now_failed m of
      (m', NewToken t) \<Rightarrow> access_token m' = Inr t \<and> t \<noteq> []
    | (m', RetryAfter d) \<Rightarrow> int_le_flt 1 d \<and> flt_le_int d 30
    | (m', LoopEnds e) \<Rightarrow> e = CancelledError"
    using run new
    by (cases r) (simp_all add: refresh_round_def access_token_def retry_delay_bounds is_Exception_def)
  with kept delay show ?thesis unfolding state by blast
qed

text \<open>
  The retry does not come before the token expires: when a refresh fails with 30 seconds or less to
  live, the loop sleeps at least until the expiry, and then at least one more second before it
  asks again.
\<close>

lemma retry_after_expiry:
  assumes "\<not> int_lt_flt 30 (flt_sub (expires_at m) now)" and "\<not> is_nan (flt_sub (expires_at m) now)"
    and "refresh_delay later m = Inr d"
  shows "flt_le (flt_sub (expires_at m) now) (retry_delay now m) \<and> int_le_flt 1 d"
proof -
  let ?r = "flt_sub (expires_at m) now"
  have "flt_le ?r (at_least_one ?r)"
  proof (cases "is_finite ?r")
    case True
    then show ?thesis
      using cmp_int_rval(3) [OF True, of 1] flt_le_rval [OF True True] flt_le_rval [OF True f1_value(2)] f1_value(1)
      by (simp add: at_least_one_def)
  next
    case False
    with assms(1,2) obtain s where "?r = Inf True" by (cases ?r) auto
    then show ?thesis by (simp add: at_least_one_def)
  qed
  moreover have "int_le_flt 1 d"
    using assms(3) by (auto simp: refresh_delay_def rbind_iffs at_least_one_bounds)
  ultimately show ?thesis using assms(1) by (simp add: retry_delay_def Let_def)
qed

definition sample_manager :: token_manager where
  "sample_manager =
     \<lparr>tm_credentials = \<lparr>cred_vehicle = u ''car-001'', client_id = u ''c'', client_secret = u ''s'',
                        token_url = u ''http://idp'', audience = PNone, scope = PNone\<rparr>,
      refresh_before_seconds = 300, access_token_opt = Some (u ''t''), expires_at = Fin False 4503599627370496 (-51)\<rparr>"

lemma retry_after_expiry_witness:
  "\<exists>d. refresh_delay f1 sample_manager = Inr d
     \<and> flt_le (flt_sub (expires_at sample_manager) f1) (retry_delay f1 sample_manager) \<and> int_le_flt 1 d"
proof -
  obtain b where "flt_of_int (refresh_before_seconds sample_manager) = Inr b"
    using flt_of_small [of 300] by (auto simp: sample_manager_def)
  then obtain d where d: "refresh_delay f1 sample_manager = Inr d"
    by (simp add: refresh_delay_def)
  have one: "flt_sub (expires_at sample_manager) f1 = f1"
    by (simp add: sample_manager_def float_eval)
  have "\<not> int_lt_flt 30 (flt_sub (expires_at sample_manager) f1)"
    "\<not> is_nan (flt_sub (expires_at sample_manager) f1)"
    unfolding one by (simp_all add: float_eval)
  from retry_after_expiry [OF this d] d show ?thesis by blast
qed

end
