(* ===== verification/Link_Theorems.thy ===== *)
theory Link_Theorems
  imports Node_Samples Token_Theorems
begin

text \<open>
  The properties of the node's link to the outside: the text of a data packet, the credentials it
  starts with, and the connection loop.
\<close>

section \<open>Text of a data packet\<close>

lemma utf8_next_parts:
  "a < 128 \<Longrightarrow> utf8_next a r = Some (a, r)"
  "p < 32 \<Longrightarrow> b < 64 \<Longrightarrow> 128 \<le> p * 64 + b \<Longrightarrow> utf8_next (192 + p) ((128 + b) # r) = Some (p * 64 + b, r)"
  "p < 16 \<Longrightarrow> b < 64 \<Longrightarrow> d < 64 \<Longrightarrow> 2048 \<le> p * 4096 + b * 64 + d \<Longrightarrow> \<not> is_surrogate (p * 4096 + b * 64 + d) \<Longrightarrow>
     utf8_next (224 + p) ((128 + b) # (128 + d) # r) = Some (p * 4096 + b * 64 + d, r)"
  "p < 8 \<Longrightarrow> b < 64 \<Longrightarrow> d < 64 \<Longrightarrow> f < 64 \<Longrightarrow> 65536 \<le> p * 262144 + b * 4096 + d * 64 + f \<Longrightarrow>
     p * 262144 + b * 4096 + d * 64 + f < 1114112 \<Longrightarrow>
     utf8_next (240 + p) ((128 + b) # (128 + d) # (128 + f) # r) = Some (p * 262144 + b * 4096 + d * 64 + f, r)"
  by (simp_all add: is_continuation_def Let_def)

lemma utf8_next_encoded:
  assumes "utf8_char c = Inr b" and "c < 1114112"
  obtains a t where "b = a # t" "utf8_next a (t @ r) = Some (c, r)"
proof -
  have low: "c mod 64 < 64" "c div 64 mod 64 < 64" "c div 4096 mod 64 < 64" by simp_all
  consider "c < 128" "b = [c]"
    | "128 \<le> c" "c < 2048" "b = [192 + c div 64, 128 + c mod 64]"
    | "2048 \<le> c" "c < 65536" "\<not> is_surrogate c" "b = [224 + c div 4096, 128 + c div 64 mod 64, 128 + c mod 64]"
    | "65536 \<le> c" "b = [240 + c div 262144, 128 + c div 4096 mod 64, 128 + c div 64 mod 64, 128 + c mod 64]"
    using assms(1) by (auto simp: utf8_char_def split: if_splits)
  then show ?thesis
  proof cases
    case 1
    with that [of c "[]"] show ?thesis by simp
  next
    case 2
    then have "c div 64 < 32" by (simp add: div_less_iff_less_mult)
    with utf8_next_parts(2) [OF this low(1), of r] 2 split_base64(1) [of c] show ?thesis
      by (intro that [OF 2(3)]) (simp del: utf8_next.simps)
  next
    case 3
    then have "c div 4096 < 16" by (simp add: div_less_iff_less_mult)
    with utf8_next_parts(3) [OF this low(2,1), of r] 3 split_base64(2) [of c] show ?thesis
      by (intro that [OF 3(4)]) (simp del: utf8_next.simps)
  next
    case 4
    then have "c div 262144 < 8" using assms(2) by (simp add: div_less_iff_less_mult)
    with utf8_next_parts(4) [OF this low(3,2,1), of r] 4 assms(2) split_base64(3) [of c] show ?thesis
      by (intro that [OF 4(2)]) (simp del: utf8_next.simps)
  qed
qed

lemma utf8_decode_encode:
  "utf8_encode s = Inr b \<Longrightarrow> list_all (\<lambda>c. c < 1114112) s \<Longrightarrow> utf8_decode b = Inr s"
proof (induction s arbitrary: b)
  case (Cons c s)
  then obtain b1 bs where b: "utf8_char c = Inr b1" "utf8_encode s = Inr bs" "b = b1 @ bs"
    by (auto simp: rbind_iffs)
  have "c < 1114112" using Cons.prems(2) by simp
  with b(1) obtain a t where a: "b1 = a # t" "utf8_next a (t @ bs) = Some (c, bs)"
    by (rule utf8_next_encoded)
  have "utf8_decode bs = Inr s" using Cons.IH [OF b(2)] Cons.prems(2) by simp
  with a show ?case by (simp add: b(3) del: utf8_next.simps)
qed simp

text \<open>
  C35: A message survives the link: the bytes of any text of code points that has a UTF-8 encoding reach
  the packet handler as that text, with the sender's identity.
\<close>

theorem data_packet_roundtrip:
  assumes "utf8_encode message = Inr b" and "list_all (\<lambda>c. c < 1114112) message"
  shows "on_data (DataBytes b) (Inr sender) = Some (message, sender)"
  using utf8_decode_encode [OF assms] by (simp add: on_data_def)

theorem data_packet_roundtrip_witness:
  "utf8_encode [233, 8364, 128512] = Inr [195, 169, 226, 130, 172, 240, 159, 152, 128]
   \<and> on_data (DataBytes [195, 169, 226, 130, 172, 240, 159, 152, 128]) (Inr []) = Some ([233, 8364, 128512], [])"
proof -
  have "utf8_encode [233, 8364, 128512] = Inr [195, 169, 226, 130, 172, 240, 159, 152, 128]"
    by (simp add: utf8_char_def is_surrogate_def)
  moreover have "list_all (\<lambda>c. c < 1114112) [233, 8364, 128512 :: nat]" by simp
  ultimately show ?thesis using data_packet_roundtrip [of "[233, 8364, 128512]"] by blast
qed

section \<open>Credentials\<close>

text \<open>
  C37: An agent that starts has what it needs: a non-empty token for the gateway, which is the one of the
  command line or the one a token manager holds for credentials of exactly this vehicle, to be
  renewed 300 seconds before it expires, and a non-empty LiveKit token.
\<close>

theorem agent_credentials_usable:
  assumes "agent_credentials a loaded token_ex now livekit_ex = Inr (token, manager, lk)"
  shows "token \<noteq> [] \<and> truthy lk
    \<and> (case manager of
         None \<Rightarrow> arg_token a = Some token
       | Some m \<Rightarrow> loaded = Inr (tm_credentials m) \<and> cred_vehicle (tm_credentials m) = arg_vehicle a
           \<and> access_token m = Inr token \<and> refresh_before_seconds m = 300)"
proof -
  have lk: "request_livekit_token ex = Inr t \<Longrightarrow> truthy t" for ex t
    by (auto simp: request_livekit_token_def rbind_iffs split: if_splits)
  have new: "refresh_token ex now m = (m', Inr t) \<Longrightarrow> t \<noteq> [] \<and> access_token_opt m' = Some t
      \<and> tm_credentials m' = tm_credentials m \<and> refresh_before_seconds m' = refresh_before_seconds m" for ex m m' t
    by (auto simp: refresh_token_def Let_def split: sum.splits pyval.splits if_splits)
  have device: "device_credentials a loaded token_ex now livekit_ex = Inr (token, manager, lk) \<Longrightarrow> ?thesis"
    by (auto simp: device_credentials_def new_token_manager_def rbind_iffs access_token_def
        dest!: lk new split: if_splits prod.splits sum.splits)
  show ?thesis
    using assms device by (auto simp: agent_credentials_def rbind_iffs dest!: lk split: option.splits if_splits)
qed

theorem agent_credentials_usable_witness:
  "agent_credentials sample_args (Inl OSError) (Inl ClientError) f0 (Inr sample_token_response)
     = Inr (u ''t'', None, PStr (u ''lk'')) \<and> truthy (PStr (u ''lk''))"
  using agent_credentials_usable [OF sample_credentials] sample_credentials by blast

section \<open>The connection loop\<close>

lemma close_publisher_tasks: "tasks (publisher_of (close_publisher s)) = []"
  by (simp add: close_publisher_def close_tasks_def)

text \<open>
  However the connection loop ends after the room was joined, by an exception of the start, of a
  collection or by a cancellation during its sleep, the publisher is closed: no frame task is left.
\<close>

lemma livekit_loop_closes:
  "case livekit_connect_loop cv p rtc options publish unpublish (Inr ()) (Inr ()) rounds s of
     (s', Inl e) \<Rightarrow> layout options = LAYOUT_OFF \<or> tasks (publisher_of s') = []
   | (s', Inr goes_on) \<Rightarrow> goes_on"
  by (auto simp: livekit_connect_loop_def Let_def close_publisher_tasks split: prod.splits sum.splits)

end
