(* ===== verification/Camera_Ownership.thy ===== *)
theory Camera_Ownership
  imports Video_Publisher "HOL-Library.Multiset"
begin

text \<open>
  The publisher while its tasks interleave: \<open>start\<close> suspended or not, frame tasks that begin, end
  or are cancelled, the collection of ended tasks and the closing, as one step relation. What is
  followed is the ownership of the cameras: every camera that was opened is released exactly
  once or held by somebody.
\<close>

section \<open>The step relation\<close>

text \<open>
  \<open>leaked\<close> is no state of the program: it collects the cameras nobody will release, those of tasks
  cancelled before their first step and those an open left behind when something other than an
  \<open>Exception\<close> broke it off.
\<close>

record ('c, 'p, 'd) camera_run = "('c, 'p, 'd) cameras" +
  todo :: "camera_config list"
  awaiting :: "(camera_config \<times> 'c) option"
  leaked :: "'c list"

definition set_task :: "pystr \<Rightarrow> 'c frame_task \<Rightarrow> ('c, 'p) publisher \<Rightarrow> ('c, 'p) publisher" where
  "set_task name t p = p\<lparr>tasks := dict_set name t (tasks p)\<rparr>"

text \<open>What is left to do after an exception for one camera: \<open>except Exception\<close> goes on.\<close>

definition carry_on :: "py_error \<Rightarrow> camera_config list \<Rightarrow> camera_config list" where
  "carry_on e rest = (if is_Exception e then rest else [])"

fun unstarted :: "'c frame_task \<Rightarrow> 'c list" where
  "unstarted (Fresh c) = [c]"
| "unstarted _ = []"

definition unstarted_cams :: "('c, 'p) publisher \<Rightarrow> 'c list" where
  "unstarted_cams p = concat (map (unstarted \<circ> snd) (tasks p))"

inductive camera_step ::
  "('c, 'd) cv \<Rightarrow> platform \<Rightarrow> ('s, 't, 'o) rtc \<Rightarrow> camera_options
    \<Rightarrow> ('c, 'p, 'd) camera_run \<Rightarrow> ('c, 'p, 'd) camera_run \<Rightarrow> bool"
  for cv p rtc options
where
  no_camera:
    "awaiting s = None \<Longrightarrow> todo s = config # rest \<Longrightarrow>
     start_open cv p rtc options (pub_profile (publisher_of s)) config (driver s) = (d, NoCamera e) \<Longrightarrow>
     camera_step cv p rtc options s (s\<lparr>driver := d, todo := carry_on e rest\<rparr>)"
| failed:
    "awaiting s = None \<Longrightarrow> todo s = config # rest \<Longrightarrow>
     start_open cv p rtc options (pub_profile (publisher_of s)) config (driver s)
       = (d, CameraFailed c released e) \<Longrightarrow>
     c \<notin> set (cams_opened s) \<Longrightarrow>
     camera_step cv p rtc options s
       (s\<lparr>driver := d, cams_opened := c # cams_opened s,
          cams_released := (if released then c # cams_released s else cams_released s),
          leaked := (if released then leaked s else c # leaked s), todo := carry_on e rest\<rparr>)"
| launched:
    "awaiting s = None \<Longrightarrow> todo s = config # rest \<Longrightarrow>
     start_open cv p rtc options (pub_profile (publisher_of s)) config (driver s)
       = (d, Launched c f track opts) \<Longrightarrow>
     c \<notin> set (cams_opened s) \<Longrightarrow>
     camera_step cv p rtc options s
       (s\<lparr>driver := d, cams_opened := c # cams_opened s, awaiting := Some (config, c), todo := rest\<rparr>)"
| publish_fails:
    "awaiting s = Some (config, c) \<Longrightarrow>
     camera_step cv p rtc options s
       (s\<lparr>awaiting := None, cams_released := c # cams_released s, todo := carry_on e (todo s)\<rparr>)"
| published:
    "awaiting s = Some (config, c) \<Longrightarrow>
     camera_step cv p rtc options s
       (s\<lparr>awaiting := None,
          publisher_of := track_published (cam_name config) c publication (publisher_of s)\<rparr>)"
| begins:
    "map_of (tasks (publisher_of s)) name = Some (Fresh c) \<Longrightarrow>
     camera_step cv p rtc options s
       (s\<lparr>publisher_of := set_task name (Streaming c) (publisher_of s)\<rparr>)"
| ends:
    "map_of (tasks (publisher_of s)) name = Some (Streaming c) \<Longrightarrow>
     camera_step cv p rtc options s
       (s\<lparr>publisher_of := set_task name (Ended e) (publisher_of s),
          cams_released := c # cams_released s\<rparr>)"
| cancelled:
    "map_of (tasks (publisher_of s)) name = Some t \<Longrightarrow> cancel_task t = (t', cs) \<Longrightarrow>
     camera_step cv p rtc options s
       (s\<lparr>publisher_of := set_task name t' (publisher_of s),
          cams_released := cs @ cams_released s, leaked := unstarted t @ leaked s\<rparr>)"
| collected:
    "camera_step cv p rtc options s
       (s\<lparr>publisher_of := fst (collect_task name (publisher_of s))\<rparr>)"
| closes:
    "awaiting s = None \<Longrightarrow> todo s = [] \<Longrightarrow> close_tasks (publisher_of s) = (p', cs) \<Longrightarrow>
     camera_step cv p rtc options s
       (s\<lparr>publisher_of := p', cams_released := cs @ cams_released s,
          leaked := unstarted_cams (publisher_of s) @ leaked s\<rparr>)"

inductive camera_reachable ::
  "('c, 'd) cv \<Rightarrow> platform \<Rightarrow> ('s, 't, 'o) rtc \<Rightarrow> camera_options \<Rightarrow> 'd \<Rightarrow> ('c, 'p, 'd) camera_run \<Rightarrow> bool"
  for cv p rtc options d
where
  initial:
    "camera_reachable cv p rtc options d
       \<lparr>driver = d, publisher_of = new_publisher, cams_opened = [], cams_released = [],
        todo = camera_configs (layout options), awaiting = None, leaked = []\<rparr>"
| later:
    "camera_reachable cv p rtc options d s \<Longrightarrow> camera_step cv p rtc options s s' \<Longrightarrow>
     camera_reachable cv p rtc options d s'"

section \<open>Resources in a dict\<close>

lemma dict_set_resources:
  "mset (concat (map (f \<circ> snd) (dict_set k v d)))
     + mset (case map_of d k of None \<Rightarrow> [] | Some w \<Rightarrow> f w)
   = mset (concat (map (f \<circ> snd) d)) + mset (f v)"
  by (induction k v d rule: dict_set.induct) (auto simp: ac_simps)

lemma dict_del_resources:
  "map_of d k = Some v \<Longrightarrow>
     mset (concat (map (f \<circ> snd) (dict_del k d))) + mset (f v) = mset (concat (map (f \<circ> snd) d))"
  by (induction k d rule: dict_del.induct) (auto simp: ac_simps)

lemma dict_set_present: "map_of d k = Some w \<Longrightarrow> dict_keys (dict_set k v d) = dict_keys d"
  by (induction k v d rule: dict_set.induct) (auto simp: dict_keys_def)

lemma dict_set_new: "map_of d k = None \<Longrightarrow> dict_keys (dict_set k v d) = dict_keys d @ [k]"
  by (induction k v d rule: dict_set.induct) (auto simp: dict_keys_def)

section \<open>Ownership\<close>

fun task_cams :: "'c frame_task \<Rightarrow> 'c list" where
  "task_cams (Fresh c) = [c]"
| "task_cams (Streaming c) = [c]"
| "task_cams (Ended e) = []"

text \<open>The cameras somebody holds: \<open>start\<close> while it waits, and the frame tasks.\<close>

fun waiting_cams :: "(camera_config \<times> 'c) option \<Rightarrow> 'c list" where
  "waiting_cams None = []"
| "waiting_cams (Some (config, c)) = [c]"

fun waiting_names :: "(camera_config \<times> 'c) option \<Rightarrow> pystr list" where
  "waiting_names None = []"
| "waiting_names (Some (config, c)) = [cam_name config]"

definition held :: "('c, 'p, 'd) camera_run \<Rightarrow> 'c list" where
  "held s = waiting_cams (awaiting s) @ concat (map (task_cams \<circ> snd) (tasks (publisher_of s)))"

definition camera_inv :: "('c, 'p, 'd) camera_run \<Rightarrow> bool" where
  "camera_inv s \<longleftrightarrow>
     mset (cams_opened s) = mset (cams_released s) + mset (held s) + mset (leaked s)
   \<and> distinct (cams_opened s)
   \<and> distinct (map cam_name (todo s) @ waiting_names (awaiting s) @ dict_keys (tasks (publisher_of s)))
   \<and> set (dict_keys (tasks (publisher_of s))) \<subseteq> set (dict_keys (publications (publisher_of s)))"

lemma cancel_resources: "cancel_task t = (t', cs) \<Longrightarrow>
    task_cams t' = [] \<and> mset (task_cams t) = mset cs + mset (unstarted t)"
  by (cases t) auto

lemma close_resources:
  "mset (concat (map (task_cams \<circ> snd) ts))
   = mset (concat (map (\<lambda>(_, t). snd (cancel_task t)) ts)) + mset (concat (map (unstarted \<circ> snd) ts))"
proof (induction ts)
  case (Cons nt ts)
  obtain n t where nt: "nt = (n, t)" by fastforce
  have "mset (task_cams t) = mset (snd (cancel_task t)) + mset (unstarted t)" by (cases t) auto
  with Cons nt show ?case by (simp add: ac_simps)
qed simp

lemma dict_del_keys: "set (dict_keys d) \<subseteq> insert k (set (dict_keys (dict_del k d)))"
  by (induction k d rule: dict_del.induct) (auto simp: dict_keys_def)

lemma dict_del_gone: "distinct (dict_keys d) \<Longrightarrow> set (dict_keys (dict_del k d)) = set (dict_keys d) - {k}"
  by (induction k d rule: dict_del.induct) (auto simp: dict_keys_def)

lemma dict_has_task: "map_of d k = Some v \<Longrightarrow> k \<in> set (dict_keys d)"
  by (simp add: dict_has_iff)

lemma no_entry: "k \<notin> set (dict_keys d) \<Longrightarrow> map_of d k = None"
  by (metis dict_has_iff not_None_eq)

lemma set_task_inv:
  assumes "camera_inv s" and task: "map_of (tasks (publisher_of s)) name = Some t"
    and "mset (task_cams t) = mset (task_cams t') + mset cs + mset ls"
  shows "camera_inv (s\<lparr>publisher_of := set_task name t' (publisher_of s),
    cams_released := cs @ cams_released s, leaked := ls @ leaked s\<rparr>)"
proof -
  let ?d = "tasks (publisher_of s)"
  have "mset (concat (map (task_cams \<circ> snd) (dict_set name t' ?d))) + mset cs + mset ls
    = mset (concat (map (task_cams \<circ> snd) ?d))"
    using dict_set_resources [of task_cams name t' ?d] task assms(3) by (simp add: ac_simps)
  with assms(1) dict_set_present [OF task] show ?thesis
    by (simp add: camera_inv_def held_def set_task_def ac_simps)
qed

lemma camera_inv_update:
  assumes "camera_inv s"
    and "mset (concat (map (task_cams \<circ> snd) (tasks p))) = mset (concat (map (task_cams \<circ> snd) (tasks (publisher_of s))))"
    and "distinct (dict_keys (tasks p))"
    and "set (dict_keys (tasks p)) \<subseteq> set (dict_keys (tasks (publisher_of s)))"
    and "set (dict_keys (tasks p)) \<subseteq> set (dict_keys (publications p))"
  shows "camera_inv (s\<lparr>publisher_of := p\<rparr>)"
  unfolding camera_inv_def
proof (intro conjI)
  have "mset (held (s\<lparr>publisher_of := p\<rparr>)) = mset (held s)"
    unfolding held_def by (simp add: assms(2))
  with assms(1) show "mset (cams_opened (s\<lparr>publisher_of := p\<rparr>))
      = mset (cams_released (s\<lparr>publisher_of := p\<rparr>)) + mset (held (s\<lparr>publisher_of := p\<rparr>))
        + mset (leaked (s\<lparr>publisher_of := p\<rparr>))"
    by (simp add: camera_inv_def)
qed (use assms in \<open>auto simp: camera_inv_def\<close>)

lemma collect_inv:
  assumes "camera_inv s"
  shows "camera_inv (s\<lparr>publisher_of := fst (collect_task name (publisher_of s))\<rparr>)"
proof (cases "\<exists>e. map_of (tasks (publisher_of s)) name = Some (Ended e)")
  case True
  then obtain e where e: "map_of (tasks (publisher_of s)) name = Some (Ended e)" by blast
  let ?d = "tasks (publisher_of s)" and ?p = "fst (collect_task name (publisher_of s))"
  have d: "distinct (dict_keys ?d)" "set (dict_keys ?d) \<subseteq> set (dict_keys (publications (publisher_of s)))"
    using assms by (simp_all add: camera_inv_def)
  have p: "tasks ?p = dict_del name ?d"
    "publications ?p = publications (publisher_of s) \<or> publications ?p = dict_del name (publications (publisher_of s))"
    using e by (simp_all add: collect_task_def Let_def)
  show ?thesis
  proof (rule camera_inv_update [OF assms], unfold p(1))
    show "mset (concat (map (task_cams \<circ> snd) (dict_del name ?d))) = mset (concat (map (task_cams \<circ> snd) ?d))"
      using dict_del_resources [OF e, of task_cams] by simp
    show "distinct (dict_keys (dict_del name ?d))" by (rule dict_del_distinct [OF d(1)])
    show "set (dict_keys (dict_del name ?d)) \<subseteq> set (dict_keys ?d)" by (rule dict_del_subset)
    show "set (dict_keys (dict_del name ?d)) \<subseteq> set (dict_keys (publications ?p))"
      unfolding dict_del_gone [OF d(1)] using p(2) d(2) dict_del_keys [of "publications (publisher_of s)" name]
      by (elim disjE) (simp only:, blast)+
  qed
next
  case False
  then have "fst (collect_task name (publisher_of s)) = publisher_of s"
    by (auto simp: collect_task_def split: option.splits frame_task.splits)
  with assms show ?thesis by simp
qed

lemma published_inv:
  assumes "camera_inv s" and "awaiting s = Some (config, c)"
  shows "camera_inv (s\<lparr>awaiting := None,
    publisher_of := track_published (cam_name config) c publication (publisher_of s)\<rparr>)"
proof -
  let ?d = "tasks (publisher_of s)"
  have new: "map_of ?d (cam_name config) = None"
    using assms by (intro no_entry) (auto simp: camera_inv_def)
  have "mset (concat (map (task_cams \<circ> snd) (dict_set (cam_name config) (Fresh c) ?d)))
    = add_mset c (mset (concat (map (task_cams \<circ> snd) ?d)))"
    using dict_set_resources [of task_cams "cam_name config" "Fresh c" ?d] new by simp
  with assms dict_set_new [OF new, of "Fresh c"] show ?thesis
    by (auto simp: camera_inv_def held_def track_published_def dict_keys_set)
qed

lemma carry_on_inv:
  assumes "camera_inv s" and "todo s = pre @ rest"
  shows "camera_inv (s\<lparr>todo := rest\<rparr>)" "camera_inv (s\<lparr>todo := carry_on e rest\<rparr>)"
  using assms by (auto simp: camera_inv_def held_def carry_on_def)

lemma driver_inv: "camera_inv (s\<lparr>driver := d\<rparr>) = camera_inv s"
  by (simp add: camera_inv_def held_def)

lemma camera_step_inv:
  assumes "camera_step cv p rtc options s s'" and "camera_inv s"
  shows "camera_inv s'"
  using assms
proof (cases rule: camera_step.cases)
  case (no_camera config rest d e)
  with assms(2) show ?thesis by (auto simp: camera_inv_def held_def carry_on_def)
next
  case (failed config rest d c released e)
  with assms(2) show ?thesis by (auto simp: camera_inv_def held_def carry_on_def)
next
  case (launched config rest d c f track opts)
  with assms(2) show ?thesis by (auto simp: camera_inv_def held_def)
next
  case (publish_fails config c e)
  with assms(2) show ?thesis by (auto simp: camera_inv_def held_def carry_on_def)
next
  case (published config c publication)
  with published_inv [OF assms(2)] show ?thesis by simp
next
  case (begins name c)
  with set_task_inv [OF assms(2) begins(2), of "Streaming c" "[]" "[]"] show ?thesis by simp
next
  case (ends name c e)
  with set_task_inv [OF assms(2) ends(2), of "Ended e" "[c]" "[]"] show ?thesis by simp
next
  case (cancelled name t t' cs)
  with set_task_inv [OF assms(2) cancelled(2), of t' cs "unstarted t"] cancel_resources [OF cancelled(3)]
  show ?thesis by simp
next
  case (collected name)
  with collect_inv [OF assms(2)] show ?thesis by simp
next
  case (closes p' cs)
  with assms(2) close_resources [of "tasks (publisher_of s)"] show ?thesis
    by (auto simp: camera_inv_def held_def close_tasks_def unstarted_cams_def dict_keys_def ac_simps)
qed

lemma camera_configs_distinct: "distinct (map cam_name (camera_configs l))"
  by (cases l) simp_all

lemma camera_reachable_inv: "camera_reachable cv p rtc options d s \<Longrightarrow> camera_inv s"
proof (induction rule: camera_reachable.induct)
  case initial
  show ?case
    by (simp add: camera_inv_def held_def new_publisher_def dict_keys_def camera_configs_distinct)
next
  case (later s s')
  then show ?case by (blast intro: camera_step_inv)
qed

end
