(* ===== verification/Video_Facts.thy ===== *)
theory Video_Facts
  imports Video_Publisher Py_Float_Error
begin

text \<open>
  Facts on the camera formats and on the bitrate: what \<open>round\<close> and the float division lose.
\<close>

section \<open>Rounding a float to an integer\<close>

lemma round_float_near:
  assumes "is_finite x" and "canonical x"
  obtains n where "round_float x = Inr n" "\<bar>of_int n - rval x\<bar> \<le> 1 / 2"
proof -
  obtain s m e where x: "x = Fin s m e" using assms(1) by (rule finite_cases)
  let ?q = "of_int (scale2 m e) / of_int (fin_den e) :: real"
  let ?k = "round_half_even (scale2 m e) (fin_den e)"
  have "\<bar>of_int ?k - ?q\<bar> \<le> 1 / 2"
    unfolding round_half_even_real [OF fin_den_pos] by (rule round_even_bounds)
  moreover have "rval x = (if s then - 1 else 1) * ?q" by (simp add: x scale2_real)
  ultimately have "\<bar>of_int ((if s then - 1 else 1) * ?k) - rval x\<bar> \<le> 1 / 2"
    by (cases s) (simp_all add: abs_minus_commute)
  with that x show ?thesis by simp
qed

lemma round_float_errors: "round_float x = Inl e \<Longrightarrow> e \<in> {OverflowError, ValueError}"
  by (cases x) auto

section \<open>Exact products and the one division\<close>

lemma flt_mul_small:
  assumes "flt_of_int a = Inr x" "flt_of_int b = Inr y" and "0 < a" "0 < b" and "a * b < 2 ^ 53"
  shows "flt_of_int (a * b) = Inr (flt_mul x y)"
proof -
  have "1 * b \<le> a * b" "a * 1 \<le> a * b" using assms(3,4) by (intro mult_right_mono mult_left_mono; simp)+
  with assms(5) have small: "a < 2 ^ 53" "b < 2 ^ 53" by simp_all
  obtain x' where x: "flt_of_int a = Inr x'" "is_finite x'" "canonical x'" "rval x' = of_int a" "\<not> neg_sign x'"
    using flt_of_small [of a] small(1) assms(3) by auto
  obtain y' where y: "flt_of_int b = Inr y'" "is_finite y'" "canonical y'" "rval y' = of_int b" "\<not> neg_sign y'"
    using flt_of_small [of b] small(2) assms(4) by auto
  have "flt_mul x' y' = round_real False (of_int (a * b))"
    using flt_mul_real [OF x(2) y(2) x(3) y(3)] x(4,5) y(4,5) assms(3,4) by simp
  with flt_of_int_real [of "a * b"] assms x y show ?thesis by simp
qed

lemma flt_div_near:
  assumes "flt_of_int a = Inr x" "flt_of_int b = Inr y" and "0 < a" "0 < b" and "a < 2 ^ 53" "b < 2 ^ 53"
  obtains z where "flt_div x y = Inr z" "is_finite z" "canonical z"
    "\<bar>rval z - of_int a / of_int b\<bar> \<le> of_int a / of_int b / 2 ^ 53"
proof -
  obtain x' where x: "flt_of_int a = Inr x'" "is_finite x'" "canonical x'" "rval x' = of_int a" "\<not> neg_sign x'"
    using flt_of_small [of a] assms(3,5) by auto
  obtain y' where y: "flt_of_int b = Inr y'" "is_finite y'" "canonical y'" "rval y' = of_int b" "\<not> neg_sign y'"
    using flt_of_small [of b] assms(4,6) by auto
  let ?q = "of_int a / of_int b :: real"
  have q: "0 < ?q" using assms(3,4) by simp
  have "1 \<le> (of_int a :: real)" "1 \<le> (of_int b :: real)" using assms(3,4) by simp_all
  have "?q \<le> of_int a" using \<open>1 \<le> (of_int a :: real)\<close> \<open>1 \<le> (of_int b :: real)\<close> by (simp add: divide_le_eq)
  also have "\<dots> < 2 ^ 53" by (rule below_real [OF assms(5)])
  also have "\<dots> = 2 powi 53" by (simp only: powi_nat)
  also have "\<dots> < 2 powi 1023" unfolding powi_less_iff by simp
  finally have fin: "is_finite (round_real False ?q)" using q by (intro round_real_finite) auto
  have "2 powi (- 1000) \<le> (2::real) powi (- 53)" unfolding powi_le_iff by simp
  also have "\<dots> = 1 / 2 ^ 53" by (simp only: power_int_minus powi_nat inverse_eq_divide)
  also have "\<dots> \<le> 1 / of_int b"
    using within_real(2) [of b] assms(4,6) by (intro divide_left_mono) auto
  also have "\<dots> \<le> ?q" using \<open>1 \<le> (of_int a :: real)\<close> assms(4) by (intro divide_right_mono) auto
  finally have "2 powi last_exp ?q \<le> ?q / 2 ^ 52" by (rule last_exp_relative)
  moreover have "\<bar>rval (round_real False ?q) - ?q\<bar> \<le> 2 powi last_exp ?q / 2"
    using round_real_error [OF q fin] by (simp only: if_False mult_1_left)
  ultimately have "\<bar>rval (round_real False ?q) - ?q\<bar> \<le> ?q / 2 ^ 53" by (rule half_digit)
  moreover have "flt_div x' y' = Inr (round_real False ?q)"
    using flt_div_real [OF x(2) y(2) x(3) y(3)] x(4,5) y(4,5) assms(3,4) by simp
  ultimately show ?thesis
    using that [of "round_real False ?q"] fin round_real_canonical [of ?q False] q assms(1,2) x(1) y(1) by simp
qed

section \<open>The bitrate\<close>

lemma bitrate_value:
  assumes w: "0 < w" "0 < h" and f: "flt_of_int n = Inr fps" "0 < n"
    and base: "0 < profile_width prof * profile_height prof * profile_fps prof"
      "profile_width prof * profile_height prof * profile_fps prof < 2 ^ 53"
    and bps: "0 < bitrate_bps prof" "bitrate_bps prof * (w * h * n) < 2 ^ 53"
  obtains z k where "bitrate_for_camera prof w h fps = Inr (max 1 k)" "\<bar>of_int k - rval z\<bar> \<le> 1 / 2"
    "\<bar>rval z - of_int (bitrate_bps prof * (w * h * n))
        / of_int (profile_width prof * profile_height prof * profile_fps prof)\<bar>
     \<le> of_int (bitrate_bps prof * (w * h * n))
        / of_int (profile_width prof * profile_height prof * profile_fps prof) / 2 ^ 53"
proof -
  let ?b = "profile_width prof * profile_height prof * profile_fps prof" and ?r = "bitrate_bps prof"
  have wh: "0 < w * h" "0 < w * h * n" using w f by simp_all
  have "1 * (w * h * n) \<le> ?r * (w * h * n)" "?r * 1 \<le> ?r * (w * h * n)"
    using wh bps by (intro mult_right_mono mult_left_mono; simp)+
  with bps have small: "w * h * n < 2 ^ 53" "?r < 2 ^ 53" by linarith+
  have "w * h * 1 \<le> w * h * n" using wh f by (intro mult_left_mono) simp_all
  with small have whs: "w * h < 2 ^ 53" by linarith
  obtain a where a: "flt_of_int (w * h) = Inr a" using flt_of_small [of "w * h"] wh whs by auto
  obtain r where r: "flt_of_int ?r = Inr r" using flt_of_small [of ?r] bps small by auto
  obtain d where d: "flt_of_int ?b = Inr d" using flt_of_small [of ?b] base by auto
  have 1: "flt_of_int (w * h * n) = Inr (flt_mul a fps)" by (rule flt_mul_small [OF a f(1) wh(1) f(2) small(1)])
  have 2: "flt_of_int (?r * (w * h * n)) = Inr (flt_mul r (flt_mul a fps))"
    by (rule flt_mul_small [OF r 1 bps(1) wh(2) bps(2)])
  have "0 < ?r * (w * h * n)" using bps wh by simp
  from flt_div_near [OF 2 d this base(1) bps(2) base(2)] obtain z where
    z: "flt_div (flt_mul r (flt_mul a fps)) d = Inr z" "is_finite z" "canonical z"
      "\<bar>rval z - of_int (?r * (w * h * n)) / of_int ?b\<bar> \<le> of_int (?r * (w * h * n)) / of_int ?b / 2 ^ 53"
    by blast
  from round_float_near [OF z(2,3)] obtain k where k: "round_float z = Inr k" "\<bar>of_int k - rval z\<bar> \<le> 1 / 2" by blast
  have "bitrate_for_camera prof w h fps = Inr (max 1 k)"
    using a r d z(1) k(1) by (simp add: bitrate_for_camera_def)
  with that k(2) z(4) show ?thesis by blast
qed

end
