(* ===== verification/Video_Theorems.thy ===== *)
theory Video_Theorems
  imports Camera_Ownership Video_Facts Samples
begin

text \<open>The properties of the cameras and of the video publisher.\<close>

section \<open>A sample driver\<close>

text \<open>
  A driver that hands out a new handle per call and answers every question about a mode with
  640 by 480 at 30 frames per second, and a LiveKit client that accepts everything.
\<close>

definition flt_640 :: pyfloat where "flt_640 = Fin False 5629499534213120 (-43)"
definition flt_480 :: pyfloat where "flt_480 = Fin False 8444249301319680 (-44)"
definition flt_30 :: pyfloat where "flt_30 = Fin False 8444249301319680 (-48)"

definition sample_cv :: "(nat, nat) cv" where
  "sample_cv =
     \<lparr>cv_open = (\<lambda>i b d. (Suc d, Inr d)), cv_is_opened = (\<lambda>c d. True),
      cv_set = (\<lambda>c q n d. (d, Inr ())),
      cv_get = (\<lambda>c q d. Inr (case q of FRAME_WIDTH \<Rightarrow> flt_640 | FRAME_HEIGHT \<Rightarrow> flt_480 | FPS \<Rightarrow> flt_30))\<rparr>"

definition sample_rtc :: "(unit, unit, int) rtc" where
  "sample_rtc = \<lparr>video_source = (\<lambda>w h. Inr ()), create_video_track = (\<lambda>n s. Inr ()),
                 publish_options = (\<lambda>b f. Inr b)\<rparr>"

definition sample_options :: camera_options where
  "sample_options = \<lparr>layout = LAYOUT_SINGLE, opt_width = 640, opt_height = 480, opt_fps = 0\<rparr>"

section \<open>Opening a camera\<close>

lemma sample_open_camera:
  "open_configured_camera sample_cv p i 640 480 20 d
     = (Suc d, Opened d \<lparr>fmt_width = 640, fmt_height = 480, fmt_fps = flt_30\<rparr>)"
  by (simp add: open_configured_camera_def open_camera_def sample_cv_def request_mode_def
      accepted_format_def actual_fps_def flt_640_def flt_480_def flt_30_def scale2_def fin_num_def fin_den_def)

lemma flt_of_int_positive:
  assumes "flt_of_int n = Inr x" and "0 < n"
  shows "int_lt_flt 0 x"
proof -
  have eq: "round_ratio (n < 0) \<bar>n\<bar> 1 = round_real False (of_int n)"
    using assms(2) round_ratio_real [of n 1 False] by simp
  have x: "x = round_real False (of_int n)" "is_finite x"
    using assms(1) unfolding flt_of_int_Inr eq by blast+
  have "of_int 1 \<le> rval (round_real False (of_int n))"
    using assms(2) x by (intro round_real_ge_int) simp_all
  then have "0 < rval x" using x(1) by simp
  then show ?thesis using cmp_int_rval(3) [OF x(2), of 0] by simp
qed

lemma opened_format:
  assumes "open_configured_camera cv p index w h fps d = (d', Opened c f)"
  obtains reported where
    "0 < fmt_width f" "0 < fmt_height f" "even (fmt_width f)" "even (fmt_height f)"
    "\<not> (0 < w \<and> 0 < h) \<or> (fmt_width f = w \<and> fmt_height f = h)"
    "actual_fps reported fps = Inr (fmt_fps f)"
  using assms
  by (auto simp: open_configured_camera_def accepted_format_def rbind_iffs
      split: prod.splits sum.splits if_splits)

text \<open>
  A camera that is opened delivers frames the publisher can encode: the size is positive and even
  on both sides, equals the requested size when one was requested, and the rate is positive
  unless a negative rate was requested.
\<close>

lemma opened_camera_format:
  assumes "open_configured_camera cv p index w h fps d = (d', Opened c f)"
  shows "0 < fmt_width f \<and> 0 < fmt_height f \<and> even (fmt_width f) \<and> even (fmt_height f)
    \<and> (0 < w \<and> 0 < h \<longrightarrow> fmt_width f = w \<and> fmt_height f = h)
    \<and> (0 \<le> fps \<longrightarrow> int_lt_flt 0 (fmt_fps f))"
  using assms
proof (rule opened_format)
  fix reported
  assume f: "0 < fmt_width f" "0 < fmt_height f" "even (fmt_width f)" "even (fmt_height f)"
    "\<not> (0 < w \<and> 0 < h) \<or> (fmt_width f = w \<and> fmt_height f = h)"
    "actual_fps reported fps = Inr (fmt_fps f)"
  have "int_lt_flt 0 (fmt_fps f)" if "0 \<le> fps"
    using f(6) that flt_of_int_positive [of "if fps = 0 then 30 else fps" "fmt_fps f"]
    by (auto simp: actual_fps_def split: if_splits)
  with f show ?thesis by auto
qed

lemma opened_camera_format_witness:
  "open_configured_camera sample_cv Linux 0 640 480 20 0
     = (1, Opened 0 \<lparr>fmt_width = 640, fmt_height = 480, fmt_fps = flt_30\<rparr>)
   \<and> int_lt_flt 0 flt_30"
proof -
  have eq: "open_configured_camera sample_cv Linux 0 640 480 20 0
     = (1, Opened 0 \<lparr>fmt_width = 640, fmt_height = 480, fmt_fps = flt_30\<rparr>)"
    by (simp add: sample_open_camera)
  from opened_camera_format [OF eq] eq show ?thesis by simp
qed

text \<open>
  Opening a camera never loses one: a camera object that reports itself open is handed to the
  caller or, when any later step raises an \<open>Exception\<close>, released before the exception is passed on.
\<close>

lemma open_camera_outcome:
  "case snd (open_configured_camera cv p index w h fps d) of
     NotOpened e \<Rightarrow> (\<exists>d'. open_camera cv p index d = (d', Inl e))
   | Opened c f \<Rightarrow> (\<exists>d'. open_camera cv p index d = (d', Inr c) \<and> cv_is_opened cv c d')
   | Released c e \<Rightarrow> is_Exception e \<and> (\<exists>d'. open_camera cv p index d = (d', Inr c) \<and> cv_is_opened cv c d')
   | Abandoned c e \<Rightarrow> \<not> is_Exception e"
proof -
  have opened: "cv_is_opened cv c d'" if "open_camera cv p index d = (d', Inr c)" for c d'
    using that by (auto simp: open_camera_def split: prod.splits sum.splits if_splits)
  show ?thesis
    using opened by (auto simp: open_configured_camera_def split: prod.splits sum.splits opened.splits)
qed

section \<open>Bitrate\<close>

lemma abs_via: "\<bar>a - b\<bar> \<le> x \<Longrightarrow> \<bar>b - c\<bar> \<le> y \<Longrightarrow> \<bar>a - (c::real)\<bar> \<le> x + y"
  by linarith

lemma max_near: "\<bar>of_int k - q\<bar> \<le> (x::real) \<Longrightarrow> \<bar>of_int (max 1 k) - max 1 q\<bar> \<le> x"
  by (auto simp: max_def)

text \<open>
  C34: The bitrate of a track is the profile's, scaled by the camera's pixel rate over the profile's: as
  long as the numbers have at most 53 bits it is positive and within half a bit per second of the
  exact quotient (plus one part in \<open>2^53\<close>), however the three float operations round.
\<close>

theorem bitrate_scales:
  assumes "0 < w" "0 < h" and "flt_of_int n = Inr fps" "0 < n"
    and "0 < profile_width prof * profile_height prof * profile_fps prof"
    and "profile_width prof * profile_height prof * profile_fps prof < 2 ^ 53"
    and "0 < bitrate_bps prof" "bitrate_bps prof * (w * h * n) < 2 ^ 53"
  shows "\<exists>b. bitrate_for_camera prof w h fps = Inr b \<and> 1 \<le> b
    \<and> (let q = of_int (bitrate_bps prof * (w * h * n))
               / of_int (profile_width prof * profile_height prof * profile_fps prof) :: real
       in \<bar>of_int b - max 1 q\<bar> \<le> 1 / 2 + q / 2 ^ 53)"
proof (rule bitrate_value [OF assms])
  fix z k
  let ?q = "of_int (bitrate_bps prof * (w * h * n))
               / of_int (profile_width prof * profile_height prof * profile_fps prof) :: real"
  assume b: "bitrate_for_camera prof w h fps = Inr (max 1 k)" "\<bar>of_int k - rval z\<bar> \<le> 1 / 2"
    "\<bar>rval z - ?q\<bar> \<le> ?q / 2 ^ 53"
  have "\<bar>of_int k - ?q\<bar> \<le> 1 / 2 + ?q / 2 ^ 53"
    using b(2,3) by (rule abs_via)
  then have "\<bar>of_int (max 1 k) - max 1 ?q\<bar> \<le> 1 / 2 + ?q / 2 ^ 53" by (rule max_near)
  with b(1) show ?thesis by (intro exI [of _ "max 1 k"]) (simp add: Let_def)
qed

definition flt_20 :: pyfloat where "flt_20 = Fin False 5629499534213120 (-48)"

theorem bitrate_scales_witness:
  "\<exists>b. bitrate_for_camera default_active 1280 720 flt_20 = Inr b \<and> b = 1500000"
proof -
  have "flt_of_int 20 = Inr flt_20"
    by (simp add: flt_of_int_def flt_20_def float_eval)
  moreover have "(0::int) < 1280" "(0::int) < 720" "(0::int) < 20" by simp_all
  ultimately have "\<exists>b. bitrate_for_camera default_active 1280 720 flt_20 = Inr b \<and> 1 \<le> b
    \<and> (let q = of_int (bitrate_bps default_active * (1280 * 720 * 20))
          / of_int (profile_width default_active * profile_height default_active * profile_fps default_active) :: real
       in \<bar>of_int b - max 1 q\<bar> \<le> 1 / 2 + q / 2 ^ 53)"
    by (intro bitrate_scales) (simp_all add: default_active_def)
  then obtain b where b: "bitrate_for_camera default_active 1280 720 flt_20 = Inr b"
    "\<bar>of_int b - (1500000::real)\<bar> \<le> 1 / 2 + 1500000 / 2 ^ 53"
    by (auto simp: default_active_def Let_def)
  moreover have "\<bar>of_int b - (1500000::real)\<bar> < 1" using b(2) by simp
  then have "b = 1500000" by linarith
  ultimately show ?thesis by blast
qed

section \<open>Ownership of the cameras\<close>

lemma sample_launch:
  obtains b where "start_open sample_cv Linux sample_rtc sample_options default_active
     \<lparr>cam_name = u ''front'', cam_index = 0\<rparr> d
   = (Suc d, Launched d \<lparr>fmt_width = 640, fmt_height = 480, fmt_fps = flt_30\<rparr> () b)"
proof -
  have "flt_of_int 30 = Inr flt_30" by (simp add: flt_of_int_def flt_30_def float_eval)
  then obtain z k where "bitrate_for_camera default_active 640 480 flt_30 = Inr (max 1 k)"
    using bitrate_value [of 640 480 30 flt_30 default_active] by (auto simp: default_active_def)
  then have "track_request sample_rtc default_active (u ''front'')
      \<lparr>fmt_width = 640, fmt_height = 480, fmt_fps = flt_30\<rparr> = Inr ((), max 1 k)"
    by (simp add: track_request_def sample_rtc_def)
  moreover have "requested_fps sample_options default_active = 20"
    by (simp add: requested_fps_def sample_options_def default_active_def)
  ultimately show ?thesis
    using sample_open_camera [of Linux 0 d]
    by (intro that [of "max 1 k"]) (simp add: start_open_def, simp add: sample_options_def)
qed

definition sample_run :: "(nat, unit, nat) camera_run" where
  "sample_run =
     \<lparr>driver = 0, publisher_of = new_publisher, cams_opened = [], cams_released = [],
      todo = [\<lparr>cam_name = u ''front'', cam_index = 0\<rparr>], awaiting = None, leaked = []\<rparr>"

definition sample_started :: "(nat, unit, nat) camera_run" where
  "sample_started =
     \<lparr>driver = 1,
      publisher_of = \<lparr>pub_profile = default_active, tasks = [(u ''front'', Fresh 0)],
                      publications = [(u ''front'', ())]\<rparr>,
      cams_opened = [0], cams_released = [], todo = [], awaiting = None, leaked = []\<rparr>"

lemma new_publisher_profile: "pub_profile new_publisher = default_active"
  by (simp add: new_publisher_def new_video_manager_def)

lemma sample_started_reachable: "camera_reachable sample_cv Linux sample_rtc sample_options 0 sample_started"
proof -
  let ?config = "\<lparr>cam_name = u ''front'', cam_index = 0\<rparr>"
  obtain b where open0: "start_open sample_cv Linux sample_rtc sample_options default_active ?config 0
    = (1, Launched 0 \<lparr>fmt_width = 640, fmt_height = 480, fmt_fps = flt_30\<rparr> () b)"
    using sample_launch [of 0] by auto
  have "camera_reachable sample_cv Linux sample_rtc sample_options 0 sample_run"
    using camera_reachable.initial [of sample_cv Linux sample_rtc sample_options 0]
    by (simp add: sample_run_def sample_options_def)
  moreover have "camera_step sample_cv Linux sample_rtc sample_options sample_run
      (sample_run\<lparr>driver := 1, cams_opened := [0], awaiting := Some (?config, 0), todo := []\<rparr>)"
    using camera_step.launched [of sample_run ?config "[]" sample_cv Linux sample_rtc sample_options] open0
    by (simp add: sample_run_def new_publisher_profile)
  moreover have "camera_step sample_cv Linux sample_rtc sample_options
      (sample_run\<lparr>driver := 1, cams_opened := [0], awaiting := Some (?config, 0), todo := []\<rparr>) sample_started"
    using camera_step.published [of "sample_run\<lparr>driver := 1, cams_opened := [0], awaiting := Some (?config, 0), todo := []\<rparr>"
        ?config 0 sample_cv Linux sample_rtc sample_options "()"]
    by (simp add: sample_run_def sample_started_def track_published_def new_publisher_def new_video_manager_def)
  ultimately show ?thesis by (blast intro: camera_reachable.later)
qed

text \<open>
  C24: However \<open>start\<close>, the frame tasks, their cancellation, the collection and the closing interleave,
  every camera opened is in exactly one place: released once, held by \<open>start\<close> or by a frame task
  that will release it, or lost, with a task that was cancelled before it began or with an open
  that something other than an \<open>Exception\<close> broke off. In particular no camera is released twice,
  and none that a task still holds has been released.
\<close>

theorem camera_ownership:
  assumes "camera_reachable cv p rtc options d s"
  shows "mset (cams_opened s) = mset (cams_released s) + mset (held s) + mset (leaked s)
    \<and> distinct (cams_released s @ held s @ leaked s)"
proof -
  have inv: "mset (cams_opened s) = mset (cams_released s @ held s @ leaked s)" "distinct (cams_opened s)"
    using camera_reachable_inv [OF assms] by (simp_all add: camera_inv_def)
  then show ?thesis using mset_eq_imp_distinct_iff [OF inv(1)] by simp
qed

theorem camera_ownership_witness:
  "camera_reachable sample_cv Linux sample_rtc sample_options 0 sample_started
   \<and> mset (cams_opened sample_started) = mset (held sample_started) \<and> held sample_started = [0]"
  using camera_ownership [OF sample_started_reachable] sample_started_reachable
  by (simp add: sample_started_def held_def)

text \<open>
  The exception is real: there is a run in which the publisher is started and closed, no task is
  left, and a camera has been opened and never released, because its frame task was cancelled
  before its first step and so never reached its \<open>finally\<close>.
\<close>

lemma cancelled_task_loses_camera:
  "\<exists>s :: (nat, unit, nat) camera_run. camera_reachable sample_cv Linux sample_rtc sample_options 0 s
     \<and> awaiting s = None \<and> todo s = [] \<and> tasks (publisher_of s) = []
     \<and> cams_opened s = [0] \<and> cams_released s = []"
proof -
  have "camera_step sample_cv Linux sample_rtc sample_options sample_started
    (sample_started\<lparr>publisher_of := publisher_of sample_started\<lparr>tasks := []\<rparr>,
       cams_released := [] @ cams_released sample_started,
       leaked := unstarted_cams (publisher_of sample_started) @ leaked sample_started\<rparr>)"
    by (rule camera_step.closes) (simp_all add: sample_started_def close_tasks_def)
  with sample_started_reachable have closed: "camera_reachable sample_cv Linux sample_rtc sample_options 0
    (sample_started\<lparr>publisher_of := publisher_of sample_started\<lparr>tasks := []\<rparr>,
       cams_released := [] @ cams_released sample_started,
       leaked := unstarted_cams (publisher_of sample_started) @ leaked sample_started\<rparr>)"
    by (rule camera_reachable.later)
  show ?thesis by (rule exI, rule conjI, rule closed) (simp add: sample_started_def)
qed

section \<open>Starting\<close>

text \<open>What \<open>start\<close> keeps: every camera opened is released or in a task, and a task has a publication.\<close>

definition start_inv :: "camera_config list \<Rightarrow> ('c, 'p, 'd) cameras \<Rightarrow> bool" where
  "start_inv configs s \<longleftrightarrow>
     mset (cams_opened s) = mset (cams_released s) + mset (unstarted_cams (publisher_of s))
   \<and> distinct (map cam_name configs @ dict_keys (tasks (publisher_of s)))
   \<and> dict_keys (publications (publisher_of s)) = dict_keys (tasks (publisher_of s))"

lemma start_inv_failed:
  "start_inv (config # configs) s \<Longrightarrow> start_inv configs (s\<lparr>driver := d\<rparr>)"
  "start_inv (config # configs) s \<Longrightarrow> start_inv configs (note_failed c True (s\<lparr>driver := d\<rparr>))"
  by (simp_all add: start_inv_def note_failed_def)

lemma start_inv_published:
  assumes "start_inv (config # configs) s"
  shows "start_inv configs (s\<lparr>driver := d, cams_opened := c # cams_opened s,
    publisher_of := track_published (cam_name config) c publication (publisher_of s)\<rparr>)"
proof -
  let ?t = "tasks (publisher_of s)" and ?k = "cam_name config"
  have new: "map_of ?t ?k = None" "map_of (publications (publisher_of s)) ?k = None"
    using assms by (auto simp: start_inv_def intro!: no_entry)
  have "mset (unstarted_cams (track_published ?k c publication (publisher_of s)))
    = add_mset c (mset (unstarted_cams (publisher_of s)))"
    using dict_set_resources [of unstarted ?k "Fresh c" ?t] new
    by (simp add: unstarted_cams_def track_published_def)
  with assms new show ?thesis
    by (simp add: start_inv_def track_published_def dict_set_new)
qed

lemma start_open_kept:
  assumes "start_open cv p rtc options prof config d = (d', CameraFailed c False e)"
  shows "\<not> is_Exception e"
proof -
  have "\<not> is_Exception e" if "open_configured_camera cv p i w h fps d = (d', Abandoned c e)" for i w h fps
    using that by (auto simp: open_configured_camera_def split: prod.splits sum.splits if_splits)
  then show ?thesis
    using assms by (auto simp: start_open_def split: prod.splits opened.splits sum.splits)
qed

lemma start_loop_inv:
  "start_loop cv p rtc options publish configs s = (s', r) \<Longrightarrow> start_inv configs s \<Longrightarrow>
     (case r of Inr _ \<Rightarrow> start_inv [] s' | Inl e \<Rightarrow> \<not> is_Exception e)"
proof (induction configs arbitrary: s)
  case (Cons config configs)
  obtain d l where open1: "start_open cv p rtc options (pub_profile (publisher_of s)) config (driver s) = (d, l)"
    by fastforce
  note step = start_inv_failed [OF Cons.prems(2)]
  show ?case
  proof (cases l)
    case (NoCamera e)
    with Cons.prems(1) open1 Cons.IH [OF _ step(1)] show ?thesis
      by (cases "is_Exception e") auto
  next
    case (CameraFailed c was_released e)
    with Cons.prems(1) open1 Cons.IH [OF _ step(2)] start_open_kept show ?thesis
      by (cases "is_Exception e"; cases was_released) fastforce+
  next
    case (Launched c f track opts)
    show ?thesis
    proof (cases "publish track opts")
      case (Inl e)
      with Launched Cons.prems(1) open1 Cons.IH [OF _ step(2)] show ?thesis
        by (cases "is_Exception e") auto
    next
      case (Inr publication)
      with Launched Cons.prems(1) open1 Cons.IH [OF _ start_inv_published [OF Cons.prems(2)]] show ?thesis
        by auto
    qed
  qed
qed auto

text \<open>
  What \<open>start\<close> is to do: one attempt for every camera of the layout, in order, on the driver as the
  attempts before left it, whether those succeeded or failed. An attempt ends with a published
  track or with an exception and the camera, if one was opened.
\<close>

datatype ('c, 'p) attempt = TrackUp 'c 'p | CameraDown "'c option" py_error

definition attempt ::
  "('c, 'd) cv \<Rightarrow> platform \<Rightarrow> ('s, 't, 'o) rtc \<Rightarrow> camera_options \<Rightarrow> ('t \<Rightarrow> 'o \<Rightarrow> 'p res) \<Rightarrow> video_profile
    \<Rightarrow> camera_config \<Rightarrow> 'd \<Rightarrow> 'd \<times> ('c, 'p) attempt" where
  "attempt cv p rtc options publish prof config d =
     (case start_open cv p rtc options prof config d of
        (d', NoCamera e) \<Rightarrow> (d', CameraDown None e)
      | (d', CameraFailed c was_released e) \<Rightarrow> (d', CameraDown (Some c) e)
      | (d', Launched c f track opts) \<Rightarrow>
          (d', case publish track opts of Inl e \<Rightarrow> CameraDown (Some c) e | Inr publication \<Rightarrow> TrackUp c publication))"

fun attempts ::
  "(camera_config \<Rightarrow> 'd \<Rightarrow> 'd \<times> ('c, 'p) attempt) \<Rightarrow> camera_config list \<Rightarrow> 'd \<Rightarrow> 'd \<times> (pystr \<times> ('c, 'p) attempt) list"
where
  "attempts try_one [] d = (d, [])"
| "attempts try_one (config # configs) d =
     (case try_one config d of
        (d', a) \<Rightarrow> (case attempts try_one configs d' of (d'', as) \<Rightarrow> (d'', (cam_name config, a) # as)))"

fun went_on :: "('c, 'p) attempt \<Rightarrow> bool" where
  "went_on (TrackUp c publication) \<longleftrightarrow> True"
| "went_on (CameraDown c e) \<longleftrightarrow> is_Exception e"

fun up_of :: "pystr \<times> ('c, 'p) attempt \<Rightarrow> (pystr \<times> 'c \<times> 'p) list" where
  "up_of (name, TrackUp c publication) = [(name, c, publication)]"
| "up_of (name, CameraDown c e) = []"

fun down_of :: "pystr \<times> ('c, 'p) attempt \<Rightarrow> 'c list" where
  "down_of (name, CameraDown (Some c) e) = [c]"
| "down_of (name, a) = []"

fun opened_of :: "pystr \<times> ('c, 'p) attempt \<Rightarrow> 'c list" where
  "opened_of (name, TrackUp c publication) = [c]"
| "opened_of (name, CameraDown c e) = (case c of None \<Rightarrow> [] | Some c \<Rightarrow> [c])"

text \<open>What \<open>start\<close> has done when it returns, in terms of the attempts.\<close>

definition attempted ::
  "('c, 'p, 'd) cameras \<Rightarrow> 'd \<times> (pystr \<times> ('c, 'p) attempt) list \<Rightarrow> ('c, 'p, 'd) cameras \<Rightarrow> bool" where
  "attempted s trace s' \<longleftrightarrow>
     (case trace of (d', as) \<Rightarrow>
        driver s' = d' \<and> list_all (went_on \<circ> snd) as
      \<and> tasks (publisher_of s') = tasks (publisher_of s) @ map (\<lambda>(name, c, publication). (name, Fresh c)) (concat (map up_of as))
      \<and> publications (publisher_of s')
          = publications (publisher_of s) @ map (\<lambda>(name, c, publication). (name, publication)) (concat (map up_of as))
      \<and> cams_opened s' = rev (concat (map opened_of as)) @ cams_opened s
      \<and> cams_released s' = rev (concat (map down_of as)) @ cams_released s)"

lemma dict_set_snoc: "map_of d k = None \<Longrightarrow> dict_set k v d = d @ [(k, v)]"
  by (induction k v d rule: dict_set.induct) (auto split: if_splits)

lemma attempted_down:
  assumes "attempted t (d, as) s'" and "is_Exception e" and "publisher_of t = publisher_of s"
    and "cams_opened t = (case c of None \<Rightarrow> [] | Some c \<Rightarrow> [c]) @ cams_opened s"
    and "cams_released t = (case c of None \<Rightarrow> [] | Some c \<Rightarrow> [c]) @ cams_released s"
  shows "attempted s (d, (name, CameraDown c e) # as) s'"
  using assms by (cases c) (auto simp: attempted_def)

lemma attempted_up:
  assumes "attempted (s\<lparr>driver := d', cams_opened := c # cams_opened s,
      publisher_of := track_published name c publication (publisher_of s)\<rparr>) (d, as) s'"
    and "map_of (tasks (publisher_of s)) name = None" and "map_of (publications (publisher_of s)) name = None"
  shows "attempted s (d, (name, TrackUp c publication) # as) s'"
  using assms by (auto simp: attempted_def track_published_def dict_set_snoc)

lemma start_loop_attempts:
  "start_loop cv p rtc options publish configs s = (s', r) \<Longrightarrow> start_inv configs s \<Longrightarrow>
   attempts (attempt cv p rtc options publish (pub_profile (publisher_of s))) configs (driver s) = (d', as) \<Longrightarrow>
     (case r of Inr _ \<Rightarrow> attempted s (d', as) s' | Inl e \<Rightarrow> \<exists>name c. (name, CameraDown c e) \<in> set as \<and> \<not> is_Exception e)"
proof (induction configs arbitrary: s d' as)
  case (Cons config configs)
  let ?one = "attempt cv p rtc options publish (pub_profile (publisher_of s))" and ?name = "cam_name config"
  obtain d l where open1: "start_open cv p rtc options (pub_profile (publisher_of s)) config (driver s) = (d, l)"
    by fastforce
  obtain d2 bs where rest: "attempts ?one configs d = (d2, bs)" by fastforce
  have trace: "as = (?name, x) # bs \<and> d' = d2" if "?one config (driver s) = (d, x)" for x
    using Cons.prems(3) that rest by auto
  note step = start_inv_failed [OF Cons.prems(2)]
  have failed: ?case
    if run: "(if is_Exception e then start_loop cv p rtc options publish configs t else (t, Inl e)) = (s', r)"
      and one: "?one config (driver s) = (d, CameraDown c e)" and inv: "is_Exception e \<Longrightarrow> start_inv configs t"
      and t: "driver t = d" "publisher_of t = publisher_of s" "cams_opened t = (case c of None \<Rightarrow> [] | Some c \<Rightarrow> [c]) @ cams_opened s"
        "is_Exception e \<Longrightarrow> cams_released t = (case c of None \<Rightarrow> [] | Some c \<Rightarrow> [c]) @ cams_released s" for e t c
  proof (cases "is_Exception e")
    case True
    have "case r of Inr _ \<Rightarrow> attempted t (d2, bs) s' | Inl e \<Rightarrow> \<exists>name c. (name, CameraDown c e) \<in> set bs \<and> \<not> is_Exception e"
      by (rule Cons.IH [OF _ inv [OF True]]) (use True run t(1,2) rest in simp_all)
    with trace [OF one] attempted_down [OF _ True t(2,3) t(4) [OF True]] show ?thesis
      by (cases r) auto
  next
    case False
    then have "r = Inl e" using run by simp
    moreover have "(?name, CameraDown c e) \<in> set as" using trace [OF one] by simp
    ultimately show ?thesis using False by auto
  qed
  show ?case
  proof (cases l)
    case (NoCamera e)
    show ?thesis
      by (rule failed [of e "s\<lparr>driver := d\<rparr>" None])
        (use Cons.prems(1) open1 NoCamera step(1) in \<open>simp_all add: attempt_def\<close>)
  next
    case (CameraFailed c was_released e)
    have released: "was_released" if "is_Exception e"
      using start_open_kept [of cv p rtc options "pub_profile (publisher_of s)" config "driver s" d c e]
        open1 CameraFailed that by (cases was_released) auto
    show ?thesis
      by (rule failed [of e "note_failed c was_released (s\<lparr>driver := d\<rparr>)" "Some c"])
        (use Cons.prems(1) open1 CameraFailed step(2) released in \<open>auto simp: attempt_def note_failed_def\<close>)
  next
    case (Launched c f track opts)
    show ?thesis
    proof (cases "publish track opts")
      case (Inl e)
      show ?thesis
        by (rule failed [of e "note_failed c True (s\<lparr>driver := d\<rparr>)" "Some c"])
          (use Cons.prems(1) open1 Launched Inl step(2) in \<open>auto simp: attempt_def note_failed_def split: if_splits\<close>)
    next
      case (Inr publication)
      let ?t = "s\<lparr>driver := d, cams_opened := c # cams_opened s,
        publisher_of := track_published ?name c publication (publisher_of s)\<rparr>"
      have one: "?one config (driver s) = (d, TrackUp c publication)"
        using open1 Launched Inr by (simp add: attempt_def)
      have "case r of Inr _ \<Rightarrow> attempted ?t (d2, bs) s'
          | Inl e \<Rightarrow> \<exists>name c. (name, CameraDown c e) \<in> set bs \<and> \<not> is_Exception e"
        by (rule Cons.IH [OF _ start_inv_published [OF Cons.prems(2)]])
          (use Cons.prems(1) open1 Launched Inr rest in \<open>simp_all add: track_published_def\<close>)
      moreover have "map_of (tasks (publisher_of s)) ?name = None" "map_of (publications (publisher_of s)) ?name = None"
        using Cons.prems(2) by (auto simp: start_inv_def intro!: no_entry)
      ultimately show ?thesis using trace [OF one] attempted_up [where s = s and d' = d and name = ?name and c = c and publication = publication]
        by (cases r) auto
    qed
  qed
qed (auto simp: attempted_def)

text \<open>
  C33: One camera's failure never stops the others. \<open>start\<close> raises nothing but a cancellation, that of an
  attempt. When it returns, every camera of the layout was attempted, in order, each on the driver
  as the one before left it, and no attempt was cancelled; the frame tasks and publications are
  those of the attempts that published a track, under the names of the layout; the cameras opened
  are those of the attempts, and the ones of failed attempts are released. So every camera
  opened is released or belongs to exactly one task, and the tasks have different names.
\<close>

theorem start_isolates_failures:
  fixes cv :: "('c, 'd) cv" and publish :: "'t \<Rightarrow> 'o \<Rightarrow> 'p res" and as :: "(pystr \<times> ('c, 'p) attempt) list"
  assumes "start cv p rtc options publish
      \<lparr>driver = d, publisher_of = new_publisher, cams_opened = [], cams_released = []\<rparr> = (s', r)"
    and "attempts (attempt cv p rtc options publish (pub_profile (new_publisher :: ('c, 'p) publisher)))
      (camera_configs (layout options)) d = (d', as)"
  shows "map fst as = map cam_name (camera_configs (layout options))
    \<and> (case r of
      Inl e \<Rightarrow> e = CancelledError \<and> (\<exists>name c. (name, CameraDown c e) \<in> set as)
    | Inr _ \<Rightarrow> driver s' = d' \<and> list_all (went_on \<circ> snd) as
        \<and> tasks (publisher_of s') = map (\<lambda>(name, c, publication). (name, Fresh c)) (concat (map up_of as))
        \<and> publications (publisher_of s') = map (\<lambda>(name, c, publication). (name, publication)) (concat (map up_of as))
        \<and> rev (cams_opened s') = concat (map opened_of as) \<and> rev (cams_released s') = concat (map down_of as)
        \<and> mset (cams_opened s') = mset (cams_released s') + mset (unstarted_cams (publisher_of s'))
        \<and> distinct (dict_keys (tasks (publisher_of s')))
        \<and> dict_keys (publications (publisher_of s')) = dict_keys (tasks (publisher_of s')))"
proof -
  let ?s = "\<lparr>driver = d, publisher_of = new_publisher :: ('c, 'p) publisher, cams_opened = [], cams_released = []\<rparr>"
  have inv: "start_inv (camera_configs (layout options)) ?s"
    by (simp add: start_inv_def unstarted_cams_def new_publisher_def dict_keys_def camera_configs_distinct)
  have "map fst as = map cam_name configs" if "attempts try_one configs d = (d', as)"
    for try_one configs and d d' :: 'd and as :: "(pystr \<times> ('c, 'p) attempt) list"
    using that by (induction configs arbitrary: d as) (auto split: prod.splits)
  moreover have "case r of Inr _ \<Rightarrow> attempted ?s (d', as) s'
      | Inl e \<Rightarrow> \<exists>name c. (name, CameraDown c e) \<in> set as \<and> \<not> is_Exception e"
    by (rule start_loop_attempts [OF assms(1) [unfolded start_def] inv]) (use assms(2) in simp)
  moreover note start_loop_inv [OF assms(1) [unfolded start_def] inv]
  ultimately show ?thesis
    using assms(2) by (auto simp: attempted_def start_inv_def is_Exception_def new_publisher_def split: sum.splits)
qed

text \<open>Three cameras, the track of the middle one is refused: the third is published all the same.\<close>

definition named_rtc :: "(unit, pystr, int) rtc" where
  "named_rtc = \<lparr>video_source = (\<lambda>w h. Inr ()), create_video_track = (\<lambda>n s. Inr n), publish_options = (\<lambda>b f. Inr b)\<rparr>"

definition three_options :: camera_options where
  "three_options = \<lparr>layout = LAYOUT_THREE, opt_width = 640, opt_height = 480, opt_fps = 0\<rparr>"

definition refuse_center :: "pystr \<Rightarrow> int \<Rightarrow> unit res" where
  "refuse_center track opts = (if track = u ''camera-center'' then Inl ClientError else Inr ())"

lemma named_attempt:
  "attempt sample_cv Linux named_rtc three_options refuse_center default_active config d =
     (Suc d, if u ''camera-'' @ cam_name config = u ''camera-center'' then CameraDown (Some d) ClientError else TrackUp d ())"
proof -
  have "flt_of_int 30 = Inr flt_30" by (simp add: flt_of_int_def flt_30_def float_eval)
  then obtain z k where "bitrate_for_camera default_active 640 480 flt_30 = Inr (max 1 k)"
    using bitrate_value [of 640 480 30 flt_30 default_active] by (auto simp: default_active_def)
  then have "track_request named_rtc default_active (cam_name config)
      \<lparr>fmt_width = 640, fmt_height = 480, fmt_fps = flt_30\<rparr> = Inr (u ''camera-'' @ cam_name config, max 1 k)"
    by (simp add: track_request_def named_rtc_def)
  moreover have "requested_fps three_options default_active = 20"
    by (simp add: requested_fps_def three_options_def default_active_def)
  moreover have "opt_width three_options = 640" "opt_height three_options = 480" by (simp_all add: three_options_def)
  ultimately have "start_open sample_cv Linux named_rtc three_options default_active config d
      = (Suc d, Launched d \<lparr>fmt_width = 640, fmt_height = 480, fmt_fps = flt_30\<rparr> (u ''camera-'' @ cam_name config) (max 1 k))"
    using sample_open_camera [of Linux "cam_index config" d] by (simp add: start_open_def)
  then show ?thesis by (simp add: attempt_def refuse_center_def)
qed

theorem start_isolates_failures_witness:
  "\<exists>s'. start sample_cv Linux named_rtc three_options refuse_center
      \<lparr>driver = 0, publisher_of = (new_publisher :: (nat, unit) publisher), cams_opened = [], cams_released = []\<rparr>
      = (s', Inr ())
    \<and> dict_keys (tasks (publisher_of s')) = [u ''left'', u ''right'']
    \<and> cams_opened s' = [2, 1, 0] \<and> cams_released s' = [1]"
proof -
  let ?s = "\<lparr>driver = 0, publisher_of = (new_publisher :: (nat, unit) publisher), cams_opened = [], cams_released = []\<rparr>"
  let ?as = "[(u ''left'', TrackUp 0 ()), (u ''center'', CameraDown (Some 1) ClientError), (u ''right'', TrackUp 2 ())]"
  obtain s' r where run: "start sample_cv Linux named_rtc three_options refuse_center ?s = (s', r)"
    by fastforce
  have prof: "pub_profile (new_publisher :: (nat, unit) publisher) = default_active" by (rule new_publisher_profile)
  have "layout three_options = LAYOUT_THREE" by (simp add: three_options_def)
  then have as: "attempts (attempt sample_cv Linux named_rtc three_options refuse_center
      (pub_profile (new_publisher :: (nat, unit) publisher))) (camera_configs (layout three_options)) 0 = (3, ?as)"
    unfolding prof by (simp add: named_attempt) (simp add: u_def)
  note result = start_isolates_failures [OF run as]
  then have "r = Inr ()" by (cases r) auto
  moreover from result this have "rev (cams_opened s') = [0, 1, 2]" "rev (cams_released s') = [1]"
    "dict_keys (tasks (publisher_of s')) = [u ''left'', u ''right'']"
    by (simp_all add: dict_keys_def)
  ultimately show ?thesis using run by (simp add: rev_swap)
qed

end
