(* ===== verification/Legacy_Theorems.thy ===== *)
theory Legacy_Theorems
  imports Secure_Runtime Sequence_Gate Samples Py_Float_Error Py_Repr_Facts
begin

text \<open>The properties of the stage-1 receiver and its reconnect loop.\<close>

section \<open>Verifying a packet\<close>

lemma has_required_True: "has_required v = Inr True \<longleftrightarrow> (\<exists>d. v = PDict d \<and> set LEGACY_REQUIRED \<subseteq> dom (map_of d))"
  by (cases v) (auto simp: list_all_iff dict_has_iff)

lemma ex_conj_Inr: "(\<exists>b. r = Inr b \<and> b \<and> P) \<longleftrightarrow> r = Inr True \<and> P"
  by (auto intro: exI [of _ True])

lemma legacy_header_True:
  "legacy_header reg vid payload = Inr True \<longleftrightarrow>
     (\<exists>d kid. payload = PDict d \<and> set LEGACY_REQUIRED \<subseteq> dom (map_of d)
        \<and> map_of d (u ''alg'') = Some (PStr (u ''Ed25519'')) \<and> map_of d (u ''vehicle_id'') = Some (PStr vid)
        \<and> map_of d (u ''key_id'') = Some kid \<and> py_eq kid (key_id reg))"
proof -
  have guard: "(if \<not> b then Inr False else r) = Inr True \<longleftrightarrow> b \<and> r = Inr True" for b and r :: "bool res"
    by simp
  show ?thesis
    unfolding legacy_header_def rbind_eq_Inr_iff guard ex_conj_Inr has_required_True
    by (cases payload) (auto simp: option_or_iffs eq_str_iff simp del: has_required.simps)
qed

lemma legacy_fresh_Some:
  "legacy_fresh v wall payload = Inr (Some sq) \<longleftrightarrow>
     (\<exists>now_ms ts. millis wall = Inr now_ms \<and> int_field payload ''ts'' = Inr ts \<and> \<bar>now_ms - ts\<bar> \<le> max_skew_ms v
        \<and> int_field payload ''seq'' = Inr sq \<and> last_seq v < sq)"
proof -
  have assoc: "rbind (rbind r f) g = rbind r (\<lambda>x. rbind (f x) g)" for r :: "pyval res" and f :: "pyval \<Rightarrow> int res"
    and g :: "int \<Rightarrow> int option res"
    by (cases r) simp_all
  have "legacy_fresh v wall payload = rbind (millis wall) (\<lambda>now_ms. rbind (int_field payload ''ts'') (\<lambda>ts.
      if max_skew_ms v < \<bar>now_ms - ts\<bar> then rbind (str_of_int \<bar>now_ms - ts\<bar>) (\<lambda>_. Inr None)
      else rbind (int_field payload ''seq'') (\<lambda>sq.
        if sq \<le> last_seq v then rbind (str_of_int sq) (\<lambda>_. rbind (str_of_int (last_seq v)) (\<lambda>_. Inr None))
        else Inr (Some sq))))"
    unfolding legacy_fresh_def int_field_def assoc ..
  then show ?thesis
    by (cases "millis wall"; cases "int_field payload ''ts''"; cases "int_field payload ''seq''")
      (auto simp: rbind_iffs)
qed

lemma legacy_signature_True:
  "legacy_signature x key payload = Inr True \<longleftrightarrow>
     (\<exists>msg m sg signature. legacy_sign_message (printable x) payload = Inr msg \<and> utf8_encode msg = Inr m
        \<and> py_getitem payload (u ''sig'') = Inr sg \<and> b64decode False sg = Inr signature
        \<and> verify_sig x key m signature = Inr ())"
proof -
  have caught: "(case r of Inl e \<Rightarrow> if is_ValueError e \<or> e = BadSignatureError then Inr False else Inl e
      | Inr _ \<Rightarrow> Inr True) = Inr True \<longleftrightarrow> (\<exists>y. r = Inr y)" for r :: "unit res"
    by (cases r) auto
  show ?thesis unfolding legacy_signature_def caught rbind_eq_Inr_iff by auto
qed

lemma legacy_check_Some:
  "legacy_check x v reg key wall payload = Inr (Some sq) \<longleftrightarrow>
     legacy_header reg (cv_vehicle v) payload = Inr True
   \<and> legacy_fresh v wall payload = Inr (Some sq) \<and> legacy_signature x key payload = Inr True"
  by (auto simp: legacy_check_def rbind_iffs split: option.splits if_splits)

lemma legacy_verify_Some:
  "legacy_verify_packet x raw wall now v = (v', Inr (Some payload)) \<longleftrightarrow>
     (\<exists>reg key sq. current_key v = Some reg \<and> cv_key v = Some key
        \<and> json_loads (rec_limit x) raw = Inr payload
        \<and> legacy_check x v reg key wall payload = Inr (Some sq)
        \<and> v' = v\<lparr>last_seq := sq, cv_last_valid := now\<rparr>)"
  by (auto simp: legacy_verify_packet_def split: option.splits sum.splits)

lemma legacy_verify_None:
  "legacy_verify_packet x raw wall now v = (v', r) \<Longrightarrow> \<nexists>payload. r = Inr (Some payload) \<Longrightarrow> v' = v"
  by (auto simp: legacy_verify_packet_def split: option.splits sum.splits)

text \<open>
  C38: The stage-1 verifier lets a packet through exactly when a registration and a key are loaded and the
  message is a JSON object with all fields, for this vehicle and key, with a clock difference
  within the skew, a new sequence and a signature that verifies; it then records the sequence and
  the time only. The expiry of the registration is not among the conditions.
\<close>

theorem legacy_accepts_iff:
  "legacy_verify_packet x raw wall now v = (v', Inr (Some payload)) \<longleftrightarrow>
     (\<exists>reg key d kid now_ms ts sq msg m sg signature.
        current_key v = Some reg \<and> cv_key v = Some key
      \<and> json_loads (rec_limit x) raw = Inr payload \<and> payload = PDict d
      \<and> set (map u [''vehicle_id'', ''key_id'', ''cmd'', ''val'', ''seq'', ''ts'', ''sig'', ''alg'']) \<subseteq> dom (map_of d)
      \<and> map_of d (u ''alg'') = Some (PStr (u ''Ed25519''))
      \<and> map_of d (u ''vehicle_id'') = Some (PStr (cv_vehicle v))
      \<and> map_of d (u ''key_id'') = Some kid \<and> py_eq kid (key_id reg)
      \<and> millis wall = Inr now_ms \<and> int_field payload ''ts'' = Inr ts \<and> \<bar>now_ms - ts\<bar> \<le> max_skew_ms v
      \<and> int_field payload ''seq'' = Inr sq \<and> last_seq v < sq
      \<and> legacy_sign_message (printable x) payload = Inr msg \<and> utf8_encode msg = Inr m
      \<and> map_of d (u ''sig'') = Some sg \<and> b64decode False sg = Inr signature
      \<and> verify_sig x key m signature = Inr ()
      \<and> v' = v\<lparr>last_seq := sq, cv_last_valid := now\<rparr>)"
proof -
  have required: "set LEGACY_REQUIRED = set (map u [''vehicle_id'', ''key_id'', ''cmd'', ''val'', ''seq'', ''ts'', ''sig'', ''alg''])"
    by (simp add: LEGACY_REQUIRED_def)
  have sig: "(\<exists>d. payload = PDict d \<and> py_getitem payload (u ''sig'') = Inr sg) \<longleftrightarrow>
      (\<exists>d. payload = PDict d \<and> map_of d (u ''sig'') = Some sg)" for sg
    by (auto simp: option_or_iffs)
  show ?thesis
    unfolding legacy_verify_Some legacy_check_Some legacy_header_True legacy_fresh_Some legacy_signature_True required
    using sig by (cases payload) (auto simp: option_or_iffs)
qed

section \<open>Replay\<close>

record legacy_input =
  li_raw :: pystr
  li_wall :: pyfloat
  li_now :: pyfloat

definition legacy_offer :: "'k lib \<Rightarrow> legacy_input \<Rightarrow> 'k command_verifier \<Rightarrow> 'k command_verifier \<times> pyval option" where
  "legacy_offer x i v =
     (case legacy_verify_packet x (li_raw i) (li_wall i) (li_now i) v of
        (v', Inr (Some payload)) \<Rightarrow> (v', Some payload) | (v', _) \<Rightarrow> (v', None))"

definition legacy_armed :: "'k command_verifier \<Rightarrow> bool" where
  "legacy_armed v \<longleftrightarrow> current_key v \<noteq> None \<and> cv_key v \<noteq> None"

definition legacy_number :: "pyval \<Rightarrow> int" where
  "legacy_number payload = (case int_field payload ''seq'' of Inr n \<Rightarrow> n | Inl _ \<Rightarrow> 0)"

lemma legacy_offer_Some: "legacy_offer x i v = (v', Some payload) \<longleftrightarrow>
    legacy_verify_packet x (li_raw i) (li_wall i) (li_now i) v = (v', Inr (Some payload))"
  by (auto simp: legacy_offer_def split: prod.splits sum.splits option.splits)

lemma legacy_offer_None: "legacy_offer x i v = (v', None) \<Longrightarrow> v' = v"
  using legacy_verify_None [of x "li_raw i" "li_wall i" "li_now i" v]
  by (auto simp: legacy_offer_def split: prod.splits sum.splits option.splits)

interpretation lcv: sequence_gate "legacy_offer x" legacy_armed last_seq legacy_number
proof
  fix i v v' payload
  assume "legacy_offer x i v = (v', Some payload)"
  then show "legacy_armed v \<and> legacy_armed v' \<and> last_seq v < legacy_number payload \<and> last_seq v' = legacy_number payload"
    by (auto simp: legacy_offer_Some legacy_verify_Some legacy_check_Some legacy_fresh_Some legacy_armed_def
        legacy_number_def)
next
  fix i v v'
  assume "legacy_offer x i v = (v', None)" "legacy_armed v'"
  then show "legacy_armed v \<and> last_seq v' = last_seq v" using legacy_offer_None by blast
qed

text \<open>
  C39: Between two loads of a registration the stage-1 verifier accepts no sequence number twice: over
  any run of messages the accepted numbers are strictly increasing from the last one.
\<close>

theorem legacy_no_replay:
  assumes "offers (legacy_offer x) inputs v = (v', payloads)"
  shows "sorted_wrt (<) (map legacy_number payloads) \<and> (\<forall>p \<in> set payloads. last_seq v < legacy_number p)
    \<and> distinct payloads"
  using lcv.run_ascending [OF assms] lcv.run_distinct [OF assms] by (auto simp: distinct_map)

section \<open>A sample registration\<close>

definition sample_registration :: registration where
  "sample_registration =
     \<lparr>reg_vehicle = PStr (u ''car-001''), reg_operator = PStr (u ''a''), key_id = PStr (u ''k''),
      reg_public_key = PStr (u ''AAAA''), reg_expires_at_ms = 0, registered_at_ms = 0\<rparr>"

definition legacy_verifier :: "bytes command_verifier" where
  "legacy_verifier =
     \<lparr>cv_gateway = u ''http://gw'', cv_vehicle = u ''car-001'', cv_token = u ''t'', max_skew_ms = 2000,
      current_key = Some sample_registration, cv_key = Some [0, 0, 0], last_seq = 0, cv_last_valid = f0\<rparr>"

definition legacy_raw :: pystr where
  "legacy_raw = u ''{\"vehicle_id\":\"car-001\",\"key_id\":\"k\",\"cmd\":\"c\",\"val\":1,\"seq\":1,\"ts\":1000,\"sig\":\"AAAA\",\"alg\":\"Ed25519\"}''"

definition legacy_payload :: "pyval dict" where
  "legacy_payload = [(u ''vehicle_id'', PStr (u ''car-001'')), (u ''key_id'', PStr (u ''k'')), (u ''cmd'', PStr (u ''c'')),
     (u ''val'', PInt 1), (u ''seq'', PInt 1), (u ''ts'', PInt 1000), (u ''sig'', PStr (u ''AAAA'')),
     (u ''alg'', PStr (u ''Ed25519''))]"

lemma legacy_loads: "json_loads 1000 legacy_raw = Inr (PDict legacy_payload)"
  by (simp add: legacy_raw_def legacy_payload_def u_def json_eval)

lemma legacy_text: "legacy_sign_message (printable sample_lib) (PDict legacy_payload) = Inr (u ''car-001|k|c|1|1|1000'')"
  by (simp add: legacy_sign_message_def legacy_sign_fields_def legacy_payload_def str_of_int_def int_str_def
      dec_digits.simps max_str_digits_def) (simp add: u_def)

lemma legacy_sample_check:
  "last_seq v = 0 \<Longrightarrow> cv_vehicle v = u ''car-001'' \<Longrightarrow> max_skew_ms v = 2000 \<Longrightarrow>
     legacy_check sample_lib v sample_registration [0, 0, 0] f1 (PDict legacy_payload) = Inr (Some 1)"
proof -
  assume v: "last_seq v = 0" "cv_vehicle v = u ''car-001''" "max_skew_ms v = 2000"
  have "legacy_header sample_registration (cv_vehicle v) (PDict legacy_payload) = Inr True"
    by (simp add: legacy_header_True v LEGACY_REQUIRED_def legacy_payload_def sample_registration_def)
  moreover have "legacy_fresh v f1 (PDict legacy_payload) = Inr (Some 1)"
    by (simp add: legacy_fresh_Some v sample_millis int_field_def legacy_payload_def)
  moreover have "utf8_encode (u ''car-001|k|c|1|1|1000'') = Inr (u ''car-001|k|c|1|1|1000'')"
    by (simp add: u_def utf8_char_def)
  moreover have "b64decode False (PStr (u ''AAAA'')) = Inr [0, 0, 0]"
    by (simp add: u_def ascii_encode_def a2b_base64_def b64_value_def)
  moreover have "py_getitem (PDict legacy_payload) (u ''sig'') = Inr (PStr (u ''AAAA''))"
    by (simp add: legacy_payload_def)
  moreover have "verify_sig sample_lib [0, 0, 0] m [0, 0, 0] = Inr ()" for m
    by (simp add: sample_lib_def sample_verify_def)
  ultimately show ?thesis by (auto simp: legacy_check_Some legacy_signature_True legacy_text)
qed

lemma legacy_sample_accepted:
  "legacy_verify_packet sample_lib legacy_raw f1 f1 legacy_verifier
     = (legacy_verifier\<lparr>last_seq := 1, cv_last_valid := f1\<rparr>, Inr (Some (PDict legacy_payload)))"
proof -
  have "legacy_check sample_lib legacy_verifier sample_registration [0, 0, 0] f1 (PDict legacy_payload) = Inr (Some 1)"
    by (rule legacy_sample_check) (simp_all add: legacy_verifier_def)
  moreover have "json_loads (rec_limit sample_lib) legacy_raw = Inr (PDict legacy_payload)"
    by (simp add: sample_lib_def legacy_loads)
  ultimately show ?thesis
    unfolding legacy_verify_Some by (intro exI conjI) (assumption | simp add: legacy_verifier_def)+
qed

theorem legacy_no_replay_witness:
  "\<exists>v'. offers (legacy_offer sample_lib) [\<lparr>li_raw = legacy_raw, li_wall = f1, li_now = f1\<rparr>] legacy_verifier
      = (v', [PDict legacy_payload])
    \<and> last_seq legacy_verifier < legacy_number (PDict legacy_payload)"
proof -
  have "legacy_offer sample_lib \<lparr>li_raw = legacy_raw, li_wall = f1, li_now = f1\<rparr> legacy_verifier
    = (legacy_verifier\<lparr>last_seq := 1, cv_last_valid := f1\<rparr>, Some (PDict legacy_payload))"
    using legacy_sample_accepted by (simp add: legacy_offer_Some)
  then have run: "offers (legacy_offer sample_lib) [\<lparr>li_raw = legacy_raw, li_wall = f1, li_now = f1\<rparr>] legacy_verifier
      = (legacy_verifier\<lparr>last_seq := 1, cv_last_valid := f1\<rparr>, [PDict legacy_payload])" by simp
  from legacy_no_replay [OF run] run show ?thesis by auto
qed

text \<open>
  But every load of a registration, of the same key too, forgets the numbers: after a refresh of the
  key that succeeds, a packet accepted before is accepted again within the clock skew.
\<close>

lemma legacy_refresh_forgets:
  assumes "legacy_verify_packet x raw wall now v = (v1, Inr (Some payload))" and "0 \<le> last_seq v"
    and "current_key v = Some reg" and "cv_key v = Some key"
    and "rbind ex (\<lambda>r. if status_code r = 200 then rbind (body_json r) parse_registration else Inl KeyError) = Inr reg"
    and "rbind (b64decode False (reg_public_key reg)) (new_key x) = Inr key"
    and "refresh_key x ex v1 = (v2, Inr ())"
  shows "\<exists>v3. legacy_verify_packet x raw wall now' v2 = (v3, Inr (Some payload))"
proof -
  obtain sq where p: "json_loads (rec_limit x) raw = Inr payload" "legacy_check x v reg key wall payload = Inr (Some sq)"
    "v1 = v\<lparr>last_seq := sq, cv_last_valid := now\<rparr>"
    using assms(1,3,4) by (auto simp: legacy_verify_Some)
  have "v2 = v1\<lparr>current_key := Some reg, cv_key := Some key, last_seq := 0\<rparr>"
    using assms(5,6,7) by (auto simp: refresh_key_def load_registration_def Let_def rbind_iffs split: if_splits)
  then have v2: "current_key v2 = Some reg" "cv_key v2 = Some key" "last_seq v2 = 0" "cv_vehicle v2 = cv_vehicle v"
    "max_skew_ms v2 = max_skew_ms v"
    by (simp_all add: p(3))
  have "legacy_check x v2 reg key wall payload = Inr (Some sq)"
    using p(2) assms(2) by (auto simp: legacy_check_Some legacy_fresh_Some v2)
  with p(1) v2 show ?thesis by (auto simp: legacy_verify_Some)
qed

definition sample_key_response :: response where
  "sample_key_response =
     \<lparr>status_code = 200,
      body_json = Inr (PDict [(u ''vehicle_id'', PStr (u ''car-001'')), (u ''operator_id'', PStr (u ''a'')),
        (u ''key_id'', PStr (u ''k'')), (u ''public_key_b64'', PStr (u ''AAAA'')), (u ''expires_at_ms'', PInt 0)]),
      body_text = Inr []\<rparr>"

lemma legacy_refresh_forgets_witness:
  "\<exists>v1 v2 v3. legacy_verify_packet sample_lib legacy_raw f1 f1 legacy_verifier = (v1, Inr (Some (PDict legacy_payload)))
     \<and> refresh_key sample_lib (Inr sample_key_response) v1 = (v2, Inr ())
     \<and> legacy_verify_packet sample_lib legacy_raw f1 f1 v2 = (v3, Inr (Some (PDict legacy_payload)))"
proof -
  let ?v1 = "legacy_verifier\<lparr>last_seq := 1, cv_last_valid := f1\<rparr>"
  have key: "rbind (b64decode False (reg_public_key sample_registration)) (new_key sample_lib) = Inr [0, 0, 0]"
    by (simp add: sample_registration_def sample_lib_def) (simp add: u_def ascii_encode_def a2b_base64_def b64_value_def)
  have reg: "parse_registration (PDict [(u ''vehicle_id'', PStr (u ''car-001'')), (u ''operator_id'', PStr (u ''a'')),
        (u ''key_id'', PStr (u ''k'')), (u ''public_key_b64'', PStr (u ''AAAA'')), (u ''expires_at_ms'', PInt 0)])
      = Inr sample_registration"
    by (simp add: parse_registration_def sample_registration_def)
  have "refresh_key sample_lib (Inr sample_key_response) ?v1
      = (?v1\<lparr>current_key := Some sample_registration, cv_key := Some [0, 0, 0], last_seq := 0\<rparr>, Inr ())"
    using key by (simp add: refresh_key_def sample_key_response_def reg load_registration_def)
  moreover have "rbind (Inr sample_key_response)
      (\<lambda>r. if status_code r = 200 then rbind (body_json r) parse_registration else Inl KeyError) = Inr sample_registration"
    by (simp add: sample_key_response_def reg)
  moreover have "0 \<le> last_seq legacy_verifier" "current_key legacy_verifier = Some sample_registration"
    "cv_key legacy_verifier = Some [0, 0, 0]"
    by (simp_all add: legacy_verifier_def)
  ultimately show ?thesis
    using legacy_refresh_forgets [OF legacy_sample_accepted] key legacy_sample_accepted by blast
qed

section \<open>Weak spots\<close>

text \<open>The expiry of the registration plays no part: changing it changes nothing in the verdict.\<close>

lemma legacy_ignores_expiry:
  "snd (legacy_verify_packet x raw wall now (v\<lparr>current_key := Some (reg\<lparr>reg_expires_at_ms := t\<rparr>)\<rparr>))
   = snd (legacy_verify_packet x raw wall now (v\<lparr>current_key := Some reg\<rparr>))"
proof -
  let ?r = "reg\<lparr>reg_expires_at_ms := t\<rparr>" and ?v = "\<lambda>reg. v\<lparr>current_key := Some reg\<rparr>"
  have k: "key_id ?r = key_id reg" by simp
  have m: "max_skew_ms (?v q) = max_skew_ms v" "last_seq (?v q) = last_seq v" "cv_vehicle (?v q) = cv_vehicle v"
    "cv_key (?v q) = cv_key v" "current_key (?v q) = Some q" for q
    by simp_all
  have "legacy_check x (?v ?r) ?r key wall p = legacy_check x (?v reg) reg key wall p" for key p
    unfolding legacy_check_def legacy_header_def legacy_fresh_def k m ..
  then show ?thesis
    unfolding legacy_verify_packet_def m by (simp split: option.split sum.split)
qed

text \<open>
  The separator is not escaped, so two messages that differ in the command and its value can have one
  signed text, and then one signature serves for both.
\<close>

lemma legacy_text_ambiguous:
  "\<exists>d d'. legacy_sign_message pr (PDict d) = legacy_sign_message pr (PDict d')
     \<and> map_of d (u ''cmd'') \<noteq> map_of d' (u ''cmd'') \<and> map_of d (u ''val'') \<noteq> map_of d' (u ''val'')"
proof (intro exI conjI)
  let ?d = "\<lambda>cmd val. [(u ''vehicle_id'', PStr (u ''v'')), (u ''key_id'', PStr (u ''k'')), (u ''cmd'', PStr (u cmd)),
     (u ''val'', PStr (u val)), (u ''seq'', PStr (u ''1'')), (u ''ts'', PStr (u ''2''))]"
  show "legacy_sign_message pr (PDict (?d ''stop'' ''go|1'')) = legacy_sign_message pr (PDict (?d ''stop|go'' ''1''))"
    by (simp add: legacy_sign_message_def legacy_sign_fields_def) (simp add: u_def)
qed simp_all

section \<open>Reconnecting\<close>

text \<open>The delays before the cap: 0.2 seconds, doubled without loss.\<close>

definition backoff_at :: "nat \<Rightarrow> pyfloat" where
  "backoff_at i = (if i < 5 then Fin False 7205759403792794 (int i - 55) else BACKOFF_CAP)"

lemma backoff_start: "BACKOFF_START = backoff_at 0"
  by (simp add: BACKOFF_START_def backoff_at_def float_eval)

lemma backoff_cap: "BACKOFF_CAP = Fin False 5629499534213120 (-50)"
  by (simp add: BACKOFF_CAP_def float_eval)

lemma flt_double:
  assumes "canonical (Fin False m e)" and "2 ^ 52 \<le> m" and "e < 971"
  shows "flt_mul (Fin False m e) (flt_small 2) = Fin False m (e + 1)"
proof -
  have two: "flt_small 2 = Fin False 4503599627370496 (-51)" by (simp add: float_eval)
  have v: "\<bar>rval (Fin False m e) * rval (flt_small 2)\<bar> = of_int m * 2 powi (e + 1)"
  proof -
    have "rval (flt_small 2) = 2"
      unfolding two rval_ratio by (simp add: fin_num_def fin_den_def scale2_def)
    then show ?thesis using assms(2) powi_Suc [of e] by (simp add: add.commute)
  qed
  have "flt_mul (Fin False m e) (flt_small 2) = round_real False (of_int m * 2 powi (e + 1))"
    using flt_mul_real [OF _ _ assms(1) flt_small_canonical, of 2] unfolding v by (simp add: two)
  also have "\<dots> = Fin False m (e + 1)" using assms by (intro round_real_exact) simp_all
  finally show ?thesis .
qed

lemma next_backoff_at: "next_backoff (backoff_at i) = backoff_at (Suc i)"
proof -
  have cap: "next_backoff BACKOFF_CAP = BACKOFF_CAP"
    by (simp add: next_backoff_def backoff_cap flt_double flt_lt_def fin_num_def fin_den_def scale2_def)
  consider "i = 0" | "i = 1" | "i = 2" | "i = 3" | "i = 4" | "5 \<le> i" by linarith
  then show ?thesis
    by cases (simp_all add: cap backoff_at_def next_backoff_def backoff_cap flt_double flt_lt_def
        fin_num_def fin_den_def scale2_def)
qed

lemma reconnect_delays:
  "reconnect_from (backoff_at i) rounds b = (b', delays, out) \<Longrightarrow>
     delays = map backoff_at [i..<i + length delays] \<and> (delays \<noteq> [] \<longrightarrow> in_emergency b') \<and> (delays = [] \<longrightarrow> b' = b)
   \<and> (out = Waiting \<longrightarrow> length delays = length rounds)"
proof (induction rounds arbitrary: i b b' delays out)
  case (Cons round rounds)
  obtain active outcome where round: "round = (active, outcome)" by fastforce
  show ?case
  proof (cases "active \<and> outcome = Inr False")
    case True
    obtain c ds o' where rest: "reconnect_from (backoff_at (Suc i)) rounds (emergency_brake (u ''connection lost'') b) = (c, ds, o')"
      by (rule prod_cases3)
    have IH: "ds = map backoff_at [Suc i..<Suc i + length ds]" "ds \<noteq> [] \<longrightarrow> in_emergency c"
      "ds = [] \<longrightarrow> c = emergency_brake (u ''connection lost'') b" "o' = Waiting \<longrightarrow> length ds = length rounds"
      using Cons.IH [OF rest] by auto
    have eq: "b' = c" "delays = backoff_at i # ds" "out = o'"
      using Cons.prems True round rest by (simp_all add: next_backoff_at)
    have "in_emergency c" using IH(2,3) ebc.brake_latches by (cases "ds = []") auto
    moreover have "[i..<i + length (backoff_at i # ds)] = i # [Suc i..<Suc i + length ds]"
      by (simp add: upt_conv_Cons del: upt_Suc)
    then have "backoff_at i # ds = map backoff_at [i..<i + length (backoff_at i # ds)]"
      using IH(1) by (simp only: list.map)
    ultimately show ?thesis using IH(4) unfolding eq by simp
  next
    case False
    with Cons.prems round show ?thesis by (auto split: if_splits sum.splits bool.splits)
  qed
qed simp

lemma backoff_bounds:
  "flt_le (backoff_at i) BACKOFF_CAP" "int_lt_flt 0 (backoff_at i)" "flt_le (backoff_at i) (backoff_at (Suc i))"
proof -
  have "flt_le (backoff_at i) BACKOFF_CAP \<and> int_lt_flt 0 (backoff_at i) \<and> flt_le (backoff_at i) (backoff_at (Suc i))"
  proof -
    consider "i = 0" | "i = 1" | "i = 2" | "i = 3" | "i = 4" | "5 \<le> i" by linarith
    then show ?thesis
      by cases (simp_all add: backoff_at_def backoff_cap fin_num_def fin_den_def scale2_def)
  qed
  then show "flt_le (backoff_at i) BACKOFF_CAP" "int_lt_flt 0 (backoff_at i)"
    "flt_le (backoff_at i) (backoff_at (Suc i))" by auto
qed

lemma successively_upt: "(\<And>i. P (f i) (f (Suc i))) \<Longrightarrow> successively P (map f [k..<k + n])"
proof (induction n arbitrary: k)
  case (Suc n)
  then have "successively P (map f [Suc k..<Suc k + n])" by blast
  with Suc.prems [of k] show ?case by (cases n) (simp_all add: upt_conv_Cons del: upt_Suc)
qed simp

text \<open>
  The reconnect loop backs off: whatever the outcomes of the attempts, the delays it sleeps start at
  0.2 seconds, never decrease, double exactly until they reach the cap and never exceed 5 seconds;
  and whenever it has slept, the emergency brake has been latched before.
\<close>

lemma reconnect_backs_off:
  "case reconnect_loop rounds b of (b', delays, out) \<Rightarrow>
     delays = map backoff_at [0..<length delays]
   \<and> successively flt_le delays \<and> list_all (\<lambda>d. int_lt_flt 0 d \<and> flt_le d BACKOFF_CAP) delays
   \<and> (if delays = [] then b' = b else in_emergency b')"
proof -
  obtain b' delays out where run: "reconnect_loop rounds b = (b', delays, out)" by (rule prod_cases3)
  have d: "delays = map backoff_at [0..<0 + length delays]" "delays \<noteq> [] \<longrightarrow> in_emergency b'" "delays = [] \<longrightarrow> b' = b"
    using reconnect_delays [of 0 rounds b] run by (auto simp: reconnect_loop_def backoff_start)
  have "successively flt_le (map backoff_at [0..<0 + length delays])"
    by (rule successively_upt) (rule backoff_bounds(3))
  then have "successively flt_le delays" using d(1) by simp
  moreover have "list_all (\<lambda>d. int_lt_flt 0 d \<and> flt_le d BACKOFF_CAP) (map backoff_at [0..<length delays])"
    by (simp add: list_all_iff backoff_bounds)
  ultimately show ?thesis using d unfolding run by (simp only: prod.case) auto
qed

end
