(* ===== verification/Agent_Loops.thy ===== *)
theory Agent_Loops
  imports Vehicle_Node Secure_Runtime
begin

text \<open>
  The loops of the agent's tasks as wholes, built from the rounds of the component theories. A loop
  runs over a list of rounds; each says what the environment does in it: clock readings, HTTP
  outcomes, how a sleep ends, and what the other tasks do to the shared state in the meantime. At
  the end of the list the loop is still running.
\<close>

datatype loop_end = LoopRuns | LoopReturns | LoopRaises py_error

section \<open>Loops guarded by \<open>running\<close>\<close>

text \<open>\<open>while self.running\<close>: the flag is read at the start of each round; a round may make posts.\<close>

fun while_running ::
  "('s \<Rightarrow> bool) \<Rightarrow> ('i \<Rightarrow> 's \<Rightarrow> 's \<times> 'o list \<times> unit res) \<Rightarrow> 'i list \<Rightarrow> 's \<Rightarrow> 's \<times> 'o list \<times> loop_end"
where
  "while_running active body [] s = (s, [], LoopRuns)"
| "while_running active body (i # is) s =
     (if \<not> active s then (s, [], LoopReturns)
      else (case body i s of
              (s', os, Inl e) \<Rightarrow> (s', os, LoopRaises e)
            | (s', os, Inr _) \<Rightarrow>
                (case while_running active body is s' of
                   (s'', os', out) \<Rightarrow> (s'', os @ os', out))))"

subsection \<open>The safety watchdogs\<close>

record 's watch =
  wd_now :: pyfloat
  wd_audit :: pyfloat
  wd_meanwhile :: "'s \<Rightarrow> 's"
  wd_slept :: "unit res"

definition watchdog_body ::
  "int \<Rightarrow> 'k runtime watch \<Rightarrow> 'k runtime \<Rightarrow> 'k runtime \<times> unit list \<times> unit res" where
  "watchdog_body timeout_ms i r =
     (case watchdog_round timeout_ms (wd_now i) (wd_audit i) r of
        (r', Inl e) \<Rightarrow> (r', [], Inl e)
      | (r', Inr _) \<Rightarrow> (wd_meanwhile i r', [], wd_slept i))"

definition safety_watchdog ::
  "int \<Rightarrow> 'k runtime watch list \<Rightarrow> 'k runtime \<Rightarrow> 'k runtime \<times> unit list \<times> loop_end" where
  "safety_watchdog timeout_ms = while_running running (watchdog_body timeout_ms)"

definition agent_watchdog_body ::
  "int \<Rightarrow> 'k agent watch \<Rightarrow> 'k agent \<Rightarrow> 'k agent \<times> unit list \<times> unit res" where
  "agent_watchdog_body timeout_ms i a =
     (case agent_watchdog timeout_ms (wd_now i) a of
        (a', Inl e) \<Rightarrow> (a', [], Inl e)
      | (a', Inr _) \<Rightarrow> (wd_meanwhile i a', [], wd_slept i))"

definition agent_safety_watchdog ::
  "int \<Rightarrow> 'k agent watch list \<Rightarrow> 'k agent \<Rightarrow> 'k agent \<times> unit list \<times> loop_end" where
  "agent_safety_watchdog timeout_ms = while_running agent_running (agent_watchdog_body timeout_ms)"

subsection \<open>The telemetry loops\<close>

record telemetry_post =
  tp_url :: pystr
  tp_report :: telemetry
  tp_auth :: pystr

record 's report_round =
  rp_meanwhile :: "'s \<Rightarrow> 's"
  rp_slept :: "unit res"
  rp_exchange :: exchange
  rp_posting :: "'s \<Rightarrow> 's"

definition telemetry_post :: "pystr \<Rightarrow> 'k runtime \<Rightarrow> telemetry \<Rightarrow> telemetry_post" where
  "telemetry_post gateway r report =
     \<lparr>tp_url = rstrip 47 gateway @ u ''/api/telemetry'', tp_report = report,
      tp_auth = u ''Bearer '' @ auth_token (verifier r)\<rparr>"

definition telemetry_body ::
  "pystr \<Rightarrow> pystr \<Rightarrow> 'k runtime report_round \<Rightarrow> 'k runtime \<Rightarrow> 'k runtime \<times> telemetry_post list \<times> unit res"
where
  "telemetry_body gateway vid i r =
     (case rp_slept i of
        Inl e \<Rightarrow> (rp_meanwhile i r, [], Inl e)
      | Inr _ \<Rightarrow>
          (case telemetry_round vid (rp_meanwhile i r) of
             (r', Inl e) \<Rightarrow> (r', [], Inl e)
           | (r', Inr None) \<Rightarrow> (r', [], Inr ())
           | (r', Inr (Some report)) \<Rightarrow>
               (rp_posting i r', [telemetry_post gateway r' report], post_result (rp_exchange i))))"

definition telemetry_loop ::
  "pystr \<Rightarrow> pystr \<Rightarrow> 'k runtime report_round list \<Rightarrow> 'k runtime
    \<Rightarrow> 'k runtime \<times> telemetry_post list \<times> loop_end" where
  "telemetry_loop gateway vid = while_running running (telemetry_body gateway vid)"

text \<open>The stage-1 agent computes the URL and the header once, before its loop.\<close>

definition agent_telemetry_body ::
  "pystr \<Rightarrow> pystr \<Rightarrow> pystr \<Rightarrow> 'k agent report_round \<Rightarrow> 'k agent
    \<Rightarrow> 'k agent \<times> telemetry_post list \<times> unit res" where
  "agent_telemetry_body url auth vid i a =
     (case rp_slept i of
        Inl e \<Rightarrow> (rp_meanwhile i a, [], Inl e)
      | Inr _ \<Rightarrow>
          (case agent_telemetry vid (rp_meanwhile i a) of
             (a', Inl e) \<Rightarrow> (a', [], Inl e)
           | (a', Inr None) \<Rightarrow> (a', [], Inr ())
           | (a', Inr (Some report)) \<Rightarrow>
               (rp_posting i a', [\<lparr>tp_url = url, tp_report = report, tp_auth = auth\<rparr>],
                agent_post_result (rp_exchange i))))"

definition agent_telemetry_loop ::
  "pystr \<Rightarrow> pystr \<Rightarrow> pystr \<Rightarrow> 'k agent report_round list \<Rightarrow> 'k agent
    \<Rightarrow> 'k agent \<times> telemetry_post list \<times> loop_end" where
  "agent_telemetry_loop gateway token vid =
     while_running agent_running
       (agent_telemetry_body (rstrip 47 gateway @ u ''/api/telemetry'')
          (join (u '' '') [u ''Bear'' @ u ''er'', token]) vid)"

subsection \<open>The audit loop\<close>

text \<open>\<open>au_exchange i k\<close> is the outcome of the \<open>k\<close>-th post of a round, \<open>au_posting i k\<close> what happens during it.\<close>

record 's audit_round =
  au_meanwhile :: "'s \<Rightarrow> 's"
  au_slept :: "unit res"
  au_exchange :: "nat \<Rightarrow> exchange"
  au_posting :: "nat \<Rightarrow> 's \<Rightarrow> 's"

fun after_posts :: "(nat \<Rightarrow> 's \<Rightarrow> 's) \<Rightarrow> 's \<Rightarrow> nat \<Rightarrow> 's" where
  "after_posts posting s 0 = s"
| "after_posts posting s (Suc k) = posting k (after_posts posting s k)"

definition audit_body ::
  "pystr \<Rightarrow> 'k runtime audit_round \<Rightarrow> 'k runtime \<Rightarrow> 'k runtime \<times> audit_post list \<times> unit res" where
  "audit_body gateway i r =
     (case au_slept i of
        Inl e \<Rightarrow> (au_meanwhile i r, [], Inl e)
      | Inr _ \<Rightarrow>
          (case audit_take (au_meanwhile i r) of
             (r', evs) \<Rightarrow>
               (case audit_sends gateway evs (\<lambda>k. (after_posts (au_posting i) r' k, au_exchange i k)) of
                  (posts, out) \<Rightarrow> (after_posts (au_posting i) r' (length posts), posts, out))))"

definition audit_loop ::
  "pystr \<Rightarrow> 'k runtime audit_round list \<Rightarrow> 'k runtime \<Rightarrow> 'k runtime \<times> audit_post list \<times> loop_end" where
  "audit_loop gateway = while_running running (audit_body gateway)"

section \<open>Loops without a guard\<close>

text \<open>\<open>_periodic_session_refresh\<close>: other tasks run while the response is awaited and during the sleep.\<close>

record 'k refresh_turn =
  rt_awaiting :: "'k verifier \<Rightarrow> 'k verifier"
  rt_exchange :: exchange
  rt_meanwhile :: "'k verifier \<Rightarrow> 'k verifier"
  rt_slept :: "unit res"

definition refresh_caught :: "unit res \<Rightarrow> unit res" where
  "refresh_caught out = (if session_refresh_ends out then out else Inr ())"

fun periodic_session_refresh ::
  "'k lib \<Rightarrow> 'k refresh_turn list \<Rightarrow> 'k verifier \<Rightarrow> 'k verifier \<times> loop_end" where
  "periodic_session_refresh x [] v = (v, LoopRuns)"
| "periodic_session_refresh x (i # is) v =
     (case refresh_begin v of
        (v1, loc, req) \<Rightarrow>
          (case refresh_finish x loc (rt_exchange i) (rt_awaiting i v1) of
             (v2, out) \<Rightarrow>
               (case refresh_caught out of
                  Inl e \<Rightarrow> (v2, LoopRaises e)
                | Inr _ \<Rightarrow>
                    (case rt_slept i of
                       Inl e \<Rightarrow> (rt_meanwhile i v2, LoopRaises e)
                     | Inr _ \<Rightarrow> periodic_session_refresh x is (rt_meanwhile i v2)))))"

text \<open>
  \<open>refresh_loop\<close> of the token manager, which only this loop changes. The callback of the agent stores
  the token it is handed and never raises. The loop returns the tokens it handed out and the delays
  it slept.
\<close>

record token_turn =
  tt_start :: pyfloat
  tt_slept :: "unit res"
  tt_exchange :: exchange
  tt_now :: pyfloat
  tt_failed :: pyfloat
  tt_retried :: "unit res"

fun refresh_loop ::
  "token_turn list \<Rightarrow> token_manager \<Rightarrow> token_manager \<times> pystr list \<times> pyfloat list \<times> loop_end" where
  "refresh_loop [] m = (m, [], [], LoopRuns)"
| "refresh_loop (i # is) m =
     (case refresh_delay (tt_start i) m of
        Inl e \<Rightarrow> (m, [], [], LoopRaises e)
      | Inr d \<Rightarrow>
          (case tt_slept i of
             Inl e \<Rightarrow> (m, [], [d], LoopRaises e)
           | Inr _ \<Rightarrow>
               (case refresh_round (tt_exchange i) (tt_now i) (tt_failed i) m of
                  (m', NewToken t) \<Rightarrow>
                    (case refresh_loop is m' of (m'', ts, ds, out) \<Rightarrow> (m'', t # ts, d # ds, out))
                | (m', RetryAfter d') \<Rightarrow>
                    (case tt_retried i of
                       Inl e \<Rightarrow> (m', [], [d, d'], LoopRaises e)
                     | Inr _ \<Rightarrow>
                         (case refresh_loop is m' of (m'', ts, ds, out) \<Rightarrow> (m'', ts, d # d' # ds, out)))
                | (m', LoopEnds e) \<Rightarrow> (m', [], [d], LoopRaises e))))"

end
