(* ===== verification/Node_Accounts.thy ===== *)
theory Node_Accounts
  imports Node_Samples
begin

text \<open>
  The accounts of the node over whole runs, whatever the interleaving of its tasks: the packets the
  handler found missing against the reports of the telemetry task, and the audit events the handler
  and the watchdog record against the posts of the audit task.
\<close>

section \<open>Reading a run\<close>

text \<open>The reports and the audit posts a run makes.\<close>

fun reports_of :: "node_event list \<Rightarrow> telemetry list" where
  "reports_of (Reports (Some t) # es) = t # reports_of es"
| "reports_of (e # es) = reports_of es"
| "reports_of [] = []"

fun sent_of :: "node_event list \<Rightarrow> audit_post list" where
  "sent_of (Sends posts # es) = posts @ sent_of es"
| "sent_of (e # es) = sent_of es"
| "sent_of [] = []"

text \<open>The calls of \<open>_queue_audit_event\<close> that an event makes, with the clock reading of the call.\<close>

fun audit_calls :: "node_event \<Rightarrow> (pystr \<times> pystr \<times> pyfloat) list" where
  "audit_calls (Delivers raw sender t (Accepts packet)) =
     (case (millis (handler_wall t), rbind (py_getitem packet (u ''command'')) resolve_command) of
        (Inr now_ms, Inr c) \<Rightarrow>
          if int_le_flt 1 (brake c)
          then [(u ''emergency_stop'', u ''remote full brake command'', audit_mono t)] else []
      | _ \<Rightarrow> [])"
| "audit_calls (Delivers raw sender t (Fails e)) = []"
| "audit_calls (Delivers raw sender t outcome) =
     [(u ''command_rejected'', u ''session command validation failed'', audit_mono t)]"
| "audit_calls (Watches now now_audit True) =
     [(u ''watchdog_timeout'', u ''no valid remote control command'', now_audit)]"
| "audit_calls e = []"

section \<open>Losses\<close>

lemma gaps_missing:
  assumes "sorted_wrt (<) (n # ns)"
  shows "gaps None (n # ns) = int (card ({n..last (n # ns)} - set (n # ns)))"
proof -
  let ?r = "new_runtime (new_verifier [] [] [] 0 0 f0 :: unit verifier) new_brake"
  have "seen_sequence ?r = None" by (simp add: new_runtime_def)
  with srl.run_counts_missing [OF this assms] srl.run_gaps [of "n # ns" ?r] show ?thesis by simp
qed

lemma handler_counts:
  assumes "on_datachannel_message x raw sender t r = (r', res)"
    and "outcome = verification_of x raw sender (verify_wall t) (verify_mono t) (verifier r)"
  shows "case outcome of
      Accepts packet \<Rightarrow> lost_count r' = lost_count r + gaps (seen_sequence r) [packet_number packet]
        \<and> seen_sequence r' = Some (packet_number packet)
    | _ \<Rightarrow> lost_count r' = lost_count r \<and> seen_sequence r' = seen_sequence r"
proof -
  let ?i = "\<lparr>pk_raw = raw, pk_sender = sender, pk_wall = verify_wall t, pk_now = verify_mono t\<rparr>"
  obtain v out where off: "offer_packet x ?i (verifier r) = (v, out)" by fastforce
  have r': "deliver x ?i (handler_wall t) (audit_mono t) r = r'"
    using assms(1) by (cases t) (simp add: deliver_def)
  note d = deliver_counts [OF off, of "handler_wall t" "audit_mono t", unfolded r']
  show ?thesis
  proof (cases "\<exists>packet. outcome = Accepts packet")
    case True
    then obtain packet where o: "outcome = Accepts packet" by blast
    then have "out = Some packet"
      using assms(2) off by (auto simp: offer_packet_def verification_of_Accepts dest!: sym [of "Accepts _"])
    with d(2,3) o srl.step_seen srl.run_gaps [of "[packet_number packet]" r] show ?thesis by simp
  next
    case False
    then have "out = None"
      using assms(2) off offer_packet_Some [of x ?i "verifier r" v] verification_of_Accepts [of x raw sender]
      by (cases out) auto
    with d(2,3) False show ?thesis by (cases outcome) auto
  qed
qed

lemma gaps_Cons: "gaps seen (n # ns) = gaps seen [n] + gaps (Some n) ns"
  by (cases seen) simp_all

lemma reports_of_Cons: "reports_of (e # es) = (case e of Reports (Some t) \<Rightarrow> [t] | _ \<Rightarrow> []) @ reports_of es"
  by (cases "e # es" rule: reports_of.cases) auto

lemma sent_of_Cons: "sent_of (e # es) = (case e of Sends posts \<Rightarrow> posts | _ \<Rightarrow> []) @ sent_of es"
  by (cases "e # es" rule: sent_of.cases) auto

lemma watchdog_seen:
  "watchdog_round timeout now now_audit r = (r', res) \<Longrightarrow> seen_sequence r' = seen_sequence r"
  by (auto simp: watchdog_round_def Let_def frame_simps split: if_splits sum.splits)

text \<open>What one step adds to the losses counted, reported and pending.\<close>

lemma step_losses:
  assumes "node_step x a e s s'" and "alive s'"
  shows "sum_list (map tel_lost (reports_of [e])) + lost_count (rt s')
      = lost_count (rt s) + gaps (seen_sequence (rt s)) (map packet_number (accepted_of [e]))
    \<and> seen_sequence (rt s') = (case accepted_of [e] of [] \<Rightarrow> seen_sequence (rt s) | packet # _ \<Rightarrow> Some (packet_number packet))"
  using assms(1)
proof (cases rule: node_step.cases)
  case (packet data identity raw sender t r out outcome)
  from handler_counts [OF packet(4,5)] packet(1,2) show ?thesis
    by (cases outcome) (simp_all add: reports_of_Cons accepted_of_Cons)
next
  case (watchdog now now_audit r braked)
  with watchdog_effect(3) [OF watchdog(4)] watchdog_seen [OF watchdog(4)] show ?thesis by simp
next
  case (audit_takes r evs)
  then show ?thesis by (auto simp: audit_take_def)
next
  case (telemetry_reports r report)
  with telemetry_round_loss [OF telemetry_reports(5)] show ?thesis
    by (cases report) auto
qed (use assms(2) in \<open>simp_all add: shut_down_def\<close>)

lemma run_losses:
  "node_run x a s es s' \<Longrightarrow> alive s' \<Longrightarrow>
     sum_list (map tel_lost (reports_of es)) + lost_count (rt s')
   = lost_count (rt s) + gaps (seen_sequence (rt s)) (map packet_number (accepted_of es))"
proof (induction rule: node_run.induct)
  case (onward e s s1 es s')
  have alive: "alive s1" using node_run_alive [OF onward.hyps(2) onward.prems] .
  note IH = onward.IH [OF onward.prems]
  note step = step_losses [OF onward.hyps(1) alive]
  have reports: "reports_of (e # es) = reports_of [e] @ reports_of es" by (simp add: reports_of_Cons)
  show ?case
  proof (cases "accepted_of [e]")
    case Nil
    then have "accepted_of (e # es) = accepted_of es" by (simp add: accepted_of_Cons)
    with IH step Nil reports show ?thesis by simp
  next
    case (Cons p ps)
    then have "ps = []" "accepted_of (e # es) = p # accepted_of es"
      by (auto simp: accepted_of_Cons split: node_event.splits verification.splits)
    with IH step Cons reports gaps_Cons [of "seen_sequence (rt s)" "packet_number p" "map packet_number (accepted_of es)"] show ?thesis by simp
  qed
qed simp

text \<open>
  C21: No packet loss is reported twice or forgotten. Over any run of the agent, however its tasks
  interleave, the losses in the reports it made and those still pending add up to those pending at
  first and the numbers missing between the sequence numbers of the packets it accepted, one after
  the other; for increasing numbers these are the numbers that never arrived (\<open>gaps_missing\<close>). A
  report is made once: the code does not repeat one whose post fails with a \<open>ClientError\<close>.
\<close>

theorem telemetry_accounts_losses:
  assumes "node_run x a s es s'" and "alive s'"
  shows "sum_list (map tel_lost (reports_of es)) + lost_count (rt s')
    = lost_count (rt s) + gaps (seen_sequence (rt s)) (map packet_number (accepted_of es))"
  using run_losses [OF assms] .

section \<open>Audit events\<close>

lemma queue_event_agree:
  assumes "last_audit_at r = last_audit_at r'"
  obtains evs where "audit_events (queue_audit_event ev why now r) = audit_events r @ evs"
    "audit_events (queue_audit_event ev why now r') = audit_events r' @ evs"
    "last_audit_at (queue_audit_event ev why now r) = last_audit_at (queue_audit_event ev why now r')"
proof (cases "flt_lt_int (flt_sub now (case map_of (last_audit_at r) ev of None \<Rightarrow> f0 | Some t \<Rightarrow> t)) 5")
  case True
  with assms show ?thesis by (intro that [of "[]"]) (simp_all add: queue_audit_event_def Let_def)
next
  case False
  with assms show ?thesis
    by (intro that [of "[\<lparr>event = ev, reason = why\<rparr>]"]) (simp_all add: queue_audit_event_def Let_def)
qed

lemma queue_all_fold: "fst (queue_all calls r) = fold (\<lambda>(ev, why, now). queue_audit_event ev why now) calls r"
  by (induction calls r rule: queue_all.induct) (simp_all add: split_beta Let_def)

lemma queue_all_append:
  "fst (queue_all (calls @ calls') r) = fst (queue_all calls' (fst (queue_all calls r)))"
  by (simp add: queue_all_fold)

lemma queue_all_agree:
  "last_audit_at r = last_audit_at r' \<Longrightarrow>
     \<exists>evs. audit_events (fst (queue_all calls r)) = audit_events r @ evs
       \<and> audit_events (fst (queue_all calls r')) = audit_events r' @ evs
       \<and> last_audit_at (fst (queue_all calls r)) = last_audit_at (fst (queue_all calls r'))"
proof (induction calls arbitrary: r r')
  case (Cons call calls)
  obtain ev why now where call: "call = (ev, why, now)" by (rule prod_cases3)
  from queue_event_agree [OF Cons.prems] obtain evs where q:
    "audit_events (queue_audit_event ev why now r) = audit_events r @ evs"
    "audit_events (queue_audit_event ev why now r') = audit_events r' @ evs"
    "last_audit_at (queue_audit_event ev why now r) = last_audit_at (queue_audit_event ev why now r')" .
  from Cons.IH [OF q(3)] q(1,2) show ?case by (auto simp: call queue_all_fold simp del: queue_all.simps)
qed (simp add: queue_all_fold)

text \<open>The handler and the watchdog make the calls their label tells.\<close>

lemma handler_audits:
  assumes "on_datachannel_message x raw sender t r = (r', res)"
    and "outcome = verification_of x raw sender (verify_wall t) (verify_mono t) (verifier r)"
  shows "audit_events r' = audit_events (fst (queue_all (audit_calls (Delivers raw sender t outcome)) r))
    \<and> last_audit_at r' = last_audit_at (fst (queue_all (audit_calls (Delivers raw sender t outcome)) r))"
  using assms(1)
proof (cases rule: on_message_cases)
  case (refused v')
  then have "outcome = Refuses \<or> outcome = Unloads" using assms(2) by (simp add: verification_of_def)
  then have "audit_calls (Delivers raw sender t outcome)
      = [(u ''command_rejected'', u ''session command validation failed'', audit_mono t)]" by auto
  with refused(3) show ?thesis
    by (simp add: queue_all_fold) (simp add: queue_audit_event_def Let_def)
next
  case (raised e)
  then have "outcome = Fails e" using assms(2) by (simp add: verification_of_def)
  moreover have "audit_events r' = audit_events r" "last_audit_at r' = last_audit_at r"
    by (subst raised(3), simp)+
  ultimately show ?thesis by (simp add: queue_all_fold)
next
  case (accepted v' packet sq)
  have o: "outcome = Accepts packet" using accepted(1) assms(2) by (simp add: verification_of_def)
  from accepted(2) obtain ts command c where p: "int_field packet ''sequence'' = Inr sq"
    "int_field packet ''timestamp_ms'' = Inr ts" "py_getitem packet (u ''command'') = Inr command"
    "resolve_command command = Inr c" by (rule admissible_values)
  have r': "r' = fst (apply_packet t packet (r\<lparr>verifier := v'\<rparr>))" using accepted(4) by (metis fst_conv)
  show ?thesis
  proof (cases "millis (handler_wall t)")
    case (Inl e)
    from r' p o Inl show ?thesis
      by (simp add: apply_packet_clock_fails queue_all_fold count_lost_frame)
  next
    case (Inr n)
    with r' p o show ?thesis
      by (simp add: apply_packet_def Let_def queue_all_fold count_lost_frame)
        (simp add: queue_audit_event_def Let_def count_lost_frame)
  qed
qed

lemma watchdog_audits:
  assumes "watchdog_round timeout now now_audit r = (r', Inr ())"
    and "braked \<longleftrightarrow> in_emergency (brake_controller r') \<noteq> in_emergency (brake_controller r)"
  shows "audit_events r' = audit_events (fst (queue_all (audit_calls (Watches now now_audit braked)) r))
    \<and> last_audit_at r' = last_audit_at (fst (queue_all (audit_calls (Watches now now_audit braked)) r))"
proof (cases "audit_calls (Watches now now_audit braked) = []")
  case True
  then have "\<not> braked" by (cases braked) simp_all
  with assms show ?thesis
    by (auto simp: watchdog_round_def Let_def queue_all_fold frame_simps ebc.brake_latches
        split: if_splits sum.splits)
next
  case False
  then have "braked" by (cases braked) simp_all
  with assms show ?thesis
    by (auto simp: watchdog_round_def Let_def queue_all_fold frame_simps queue_audit_event_def
        ebc.brake_latches split: if_splits sum.splits)
qed

lemma sends_one:
  "audit_sends gateway [ev] seen = (posts, Inr ()) \<Longrightarrow> map post_event posts = [ev]"
  by (auto simp: Let_def audit_payload_def split: sum.splits)

text \<open>What one step adds to the events recorded, taken and sent.\<close>

lemma step_audits:
  assumes "node_step x a e s s'"
  shows "map post_event (sent_of [e]) @ unsent s' @ audit_events (rt s')
      = unsent s @ audit_events (fst (queue_all (audit_calls e) (rt s)))
    \<and> last_audit_at (rt s') = last_audit_at (fst (queue_all (audit_calls e) (rt s)))"
  using assms
proof (cases rule: node_step.cases)
  case (packet data identity raw sender t r out outcome)
  with handler_audits [OF packet(4,5)] show ?thesis by (simp add: sent_of_Cons del: audit_calls.simps)
next
  case (watchdog now now_audit r braked)
  with watchdog_audits [OF watchdog(4,5)] show ?thesis by (simp add: sent_of_Cons del: audit_calls.simps)
next
  case (watchdog_raises now now_audit r e)
  then have "r = rt s"
    by (auto simp: watchdog_round_def Let_def split: if_splits sum.splits)
  with watchdog_raises show ?thesis by (simp add: shut_down_def queue_all_fold)
next
  case (audit_takes r evs)
  then show ?thesis by (auto simp: audit_take_def queue_all_fold)
next
  case (audit_sends_one ev evs ex posts)
  with sends_one [OF audit_sends_one(5)] show ?thesis by (simp add: queue_all_fold del: audit_sends.simps)
next
  case (telemetry_reports r report)
  with telemetry_effect [OF telemetry_reports(5)] show ?thesis
    by (auto simp: queue_all_fold sent_of_Cons)
next
  case (telemetry_raises r e)
  with telemetry_effect [OF telemetry_raises(5)] show ?thesis by (auto simp: queue_all_fold shut_down_def)
qed (simp_all add: queue_all_fold shut_down_def)

lemma run_audits:
  "node_run x a s es s' \<Longrightarrow>
     map post_event (sent_of es) @ unsent s' @ audit_events (rt s')
   = unsent s @ audit_events (fst (queue_all (concat (map audit_calls es)) (rt s)))"
proof (induction rule: node_run.induct)
  case (onward e s s1 es s')
  let ?q = "fst (queue_all (audit_calls e) (rt s))" and ?calls = "concat (map audit_calls es)"
  note step = step_audits [OF onward.hyps(1)]
  then obtain evs where evs: "audit_events (fst (queue_all ?calls (rt s1))) = audit_events (rt s1) @ evs"
    "audit_events (fst (queue_all ?calls ?q)) = audit_events ?q @ evs"
    using queue_all_agree [of "rt s1" ?q ?calls] by blast
  have "map post_event (sent_of (e # es)) @ unsent s' @ audit_events (rt s')
      = map post_event (sent_of [e]) @ unsent s1 @ audit_events (rt s1) @ evs"
    using onward.IH evs(1) by (simp add: sent_of_Cons)
  also have "\<dots> = unsent s @ audit_events ?q @ evs" using step by (metis append.assoc)
  finally show ?case using evs(2) by (simp add: queue_all_append)
qed (simp add: queue_all_fold)

text \<open>
  C22: Every audit event is posted once, in order. Over any run of the agent, however its tasks interleave,
  the events of its posts, then those taken but not sent and those still in the queue are the
  unsent and queued events it started with, followed by what \<open>_queue_audit_event\<close> records of the
  calls made in the run: one for every packet that is refused, every full brake that is applied and
  every time the watchdog newly brakes, less those it drops within five seconds of another. A post
  that fails with a \<open>ClientError\<close> is not repeated; one that raises ends the agent, and its event
  counts as not sent.
\<close>

theorem audit_posts_every_event:
  assumes "node_run x a s es s'"
  shows "map post_event (sent_of es) @ unsent s' @ audit_events (rt s')
    = unsent s @ audit_events (fst (queue_all (concat (map audit_calls es)) (rt s)))"
  using run_audits [OF assms] .

section \<open>Samples\<close>

text \<open>A refused message, eight seconds after the origin of the clock, and its audit event.\<close>

definition f8 :: pyfloat where
  "f8 = Fin False 4503599627370496 (-49)"

definition refused_readings :: readings where
  "refused_readings = \<lparr>verify_wall = f1, verify_mono = f1, handler_wall = f1, audit_mono = f8\<rparr>"

definition rejected :: audit_event where
  "rejected = \<lparr>event = u ''command_rejected'', reason = u ''session command validation failed''\<rparr>"

lemma sample_refused: "verify_packet sample_lib [] sender wall now sample_verifier = (sample_verifier, Inr None)"
proof -
  have "json_loads 1000 [] = Inl JSONDecodeError" "rec_limit sample_lib = 1000"
    by (simp_all add: json_eval sample_lib_def)
  then have "verify_body sample_lib sample_verifier sample_session [0, 0, 0] [] sender wall = Inl JSONDecodeError"
    by (simp add: verify_body_def)
  moreover have "session sample_verifier = Some sample_session" "verify_key sample_verifier = Some [0, 0, 0]"
    by (simp_all add: sample_verifier_def)
  ultimately show ?thesis by (simp add: verify_packet_def verify_caught_def is_ValueError_def)
qed

lemma late_enough: "\<not> flt_lt_int (flt_sub f8 f0) 5"
proof -
  have eight: "is_finite f8" "canonical f8" "rval f8 = 8"
    by (simp_all add: f8_def rval_ratio fin_num_def fin_den_def scale2_def del: rval.simps)
  note d = flt_sub_zero [OF eight(1,2)]
  show ?thesis using cmp_int_rval(4) [OF d(1), of 5] d(2) eight(3) by simp
qed

lemma sample_rejected:
  "on_datachannel_message sample_lib [] sender refused_readings sample_runtime
     = (sample_runtime\<lparr>audit_events := [rejected], last_audit_at := [(u ''command_rejected'', f8)]\<rparr>, Inr ())"
proof -
  show ?thesis
    using late_enough by (simp add: on_datachannel_message_def sample_refused sample_runtime_def new_runtime_def
        refused_readings_def queue_audit_event_def Let_def rejected_def)
qed

theorem audit_posts_every_event_witness:
  "\<exists>posts s'. node_run sample_lib sample_args sample_node
       [Delivers [] (u ''x'') refused_readings Refuses, Takes [rejected], Sends posts] s'
     \<and> map post_event posts = [rejected] \<and> audit_events (rt s') = []"
proof -
  let ?r = "sample_runtime\<lparr>audit_events := [rejected], last_audit_at := [(u ''command_rejected'', f8)]\<rparr>"
  let ?s1 = "sample_node\<lparr>rt := ?r\<rparr>" and ?r2 = "?r\<lparr>audit_events := []\<rparr>"
  let ?s2 = "?s1\<lparr>rt := ?r2, unsent := [rejected]\<rparr>"
  have v: "verifier (rt sample_node) = sample_verifier"
    by (simp add: sample_node_def sample_runtime_def new_runtime_def)
  have data: "on_data (DataObject (Inr [])) (Inr (u ''x'')) = Some ([], u ''x'')" by (simp add: on_data_def)
  have r: "on_datachannel_message sample_lib [] (u ''x'') refused_readings (rt sample_node) = (?r, Inr ())"
    using sample_rejected by (simp add: sample_node_def)
  have "Refuses = verification_of sample_lib [] (u ''x'') (verify_wall refused_readings)
      (verify_mono refused_readings) (verifier (rt sample_node))"
    by (auto simp: v verification_of_def sample_refused)
  note one = node_step.packet [OF data r this, of sample_args]
  have two: "node_step sample_lib sample_args (Takes [rejected]) ?s1 ?s2"
    by (rule node_step.audit_takes) (simp_all add: sample_node_def audit_take_def)
  obtain posts where "audit_sends (arg_gateway sample_args) [rejected] (\<lambda>i. (rt ?s2, Inl ClientError)) = (posts, Inr ())"
    by (simp add: post_result_def Let_def)
  then have three: "node_step sample_lib sample_args (Sends posts) ?s2 (?s2\<lparr>unsent := []\<rparr>)"
    by (intro node_step.audit_sends_one) (simp_all add: sample_node_def)
  have run: "node_run sample_lib sample_args sample_node
      [Delivers [] (u ''x'') refused_readings Refuses, Takes [rejected], Sends posts] (?s2\<lparr>unsent := []\<rparr>)"
    by (rule node_run.onward [OF one node_run.onward [OF two node_run.onward [OF three node_run.here]]])
  have "unsent sample_node = []" "audit_events (rt sample_node) = []" "last_audit_at (rt sample_node) = []"
    by (simp_all add: sample_node_def sample_runtime_def new_runtime_def)
  then have "map post_event posts = [rejected]"
    using audit_posts_every_event [OF run] late_enough
    by (simp add: queue_audit_event_def Let_def refused_readings_def rejected_def)
  with run show ?thesis by (intro exI [of _ posts] exI [of _ "?s2\<lparr>unsent := []\<rparr>"]) simp
qed

text \<open>The packet with number 4 after the sample packet: two are missing.\<close>

definition fourth_raw :: pystr where
  "fourth_raw = u ''{\"version\":1,\"type\":\"control\",\"session_id\":\"s1\",\"sequence\":4,\"timestamp_ms\":1000,\"command\":{\"mode\":\"high_level\",\"action\":\"forward\"},\"signature\":\"AAAA\"}''"

definition fourth_packet :: pyval where
  "fourth_packet =
     PDict [(u ''version'', PInt 1), (u ''type'', PStr (u ''control'')), (u ''session_id'', PStr (u ''s1'')),
            (u ''sequence'', PInt 4), (u ''timestamp_ms'', PInt 1000), (u ''command'', sample_command),
            (u ''signature'', PStr (u ''AAAA''))]"

lemma fourth_loads: "json_loads 1000 fourth_raw = Inr fourth_packet"
  by (simp add: fourth_raw_def fourth_packet_def sample_command_def u_def json_eval)

lemma fourth_message:
  "build_sign_message (printable sample_lib) fourth_packet = Inr (u ''1|control|s1|4|1000|high_level|forward'')"
  by (simp add: build_sign_message_def sign_fields_def str_field_def command_fields_def mode_is_def
      sample_defs fourth_packet_def str_of_int_def int_str_def dec_digits.simps max_str_digits_def u_append [symmetric])
    (simp add: u_def)

lemma fourth_signature: "check_signature sample_lib [0, 0, 0] fourth_packet = Inr ()"
proof -
  have "utf8_encode (u ''1|control|s1|4|1000|high_level|forward'') = Inr (u ''1|control|s1|4|1000|high_level|forward'')"
    by (simp add: u_def utf8_char_def)
  moreover have "b64decode True (PStr (u ''AAAA'')) = Inr [0, 0, 0]"
    by (simp add: u_def ascii_encode_def a2b_base64_def b64_value_def)
  moreover have "py_getitem fourth_packet (u ''signature'') = Inr (PStr (u ''AAAA''))"
    by (simp add: fourth_packet_def)
  ultimately show ?thesis
    by (simp add: check_signature_def fourth_message) (simp add: sample_lib_def sample_verify_def)
qed

lemma fourth_accepted:
  assumes "v = sample_verifier\<lparr>last_sequence := 1, last_valid_cmd_time := f1\<rparr>"
  shows "verify_packet sample_lib fourth_raw (u ''operator-a'') f1 f1 v = (v\<lparr>last_sequence := 4\<rparr>, Inr (Some fourth_packet))"
proof -
  have "verify_body sample_lib v sample_session [0, 0, 0] fourth_raw (u ''operator-a'') f1 = Inr (Passed fourth_packet)"
    using fourth_loads fourth_signature sample_valid sample_millis
    by (simp add: verify_body_def sample_lib_def verify_header_def REQUIRED_def dict_keys_def
        verify_sender_def sample_session_def fourth_packet_def sample_verifier_def int_field_def assms
        protocol_constants u_append [symmetric])
  then show ?thesis
    by (simp add: verify_packet_def) (simp add: sample_verifier_def int_field_def fourth_packet_def assms)
qed

text \<open>The sample readings accept a packet of the sample command.\<close>

lemma sample_handles:
  assumes "verify_packet sample_lib raw sender f1 f1 (verifier r) = (v, Inr (Some packet))"
    and "int_field packet ''sequence'' = Inr sq" "int_field packet ''timestamp_ms'' = Inr 1000"
    and "py_getitem packet (u ''command'') = Inr sample_command"
  obtains r' where "on_datachannel_message sample_lib raw sender sample_readings r = (r', Inr ())"
    "verifier r' = v" "latencies r' = latencies r @ [0]"
    "verification_of sample_lib raw sender (verify_wall sample_readings) (verify_mono sample_readings) (verifier r)
       = Accepts packet"
proof -
  have c: "resolve_command sample_command = Inr sample_actuation"
    by (simp add: resolve_command_def sample_command_def mode_is_def resolve_action_def protocol_constants
        sample_actuation_def)
  have m: "millis (handler_wall sample_readings) = Inr 1000" by (simp add: sample_readings_def sample_millis)
  note ok = apply_packet_ok [OF assms(2-4) c m, of "r\<lparr>verifier := v\<rparr>"]
  have "on_datachannel_message sample_lib raw sender sample_readings r
      = (fst (apply_packet sample_readings packet (r\<lparr>verifier := v\<rparr>)), Inr ())"
  proof -
    have "on_datachannel_message sample_lib raw sender sample_readings r
        = apply_packet sample_readings packet (r\<lparr>verifier := v\<rparr>)"
      using assms(1) by (simp add: on_datachannel_message_def sample_readings_def)
    with ok(1) show ?thesis by (simp add: prod_eq_iff)
  qed
  moreover have "verification_of sample_lib raw sender (verify_wall sample_readings) (verify_mono sample_readings)
      (verifier r) = Accepts packet"
    using assms(1) by (simp add: verification_of_Accepts sample_readings_def)
  ultimately show ?thesis using that ok(3,6) by simp
qed

lemma sample_run:
  obtains s' where "node_run sample_lib sample_args sample_node
      [Delivers sample_raw (u ''operator-a'') sample_readings (Accepts sample_packet),
       Delivers fourth_raw (u ''operator-a'') sample_readings (Accepts fourth_packet)] s'"
    "alive s'" "\<not> reporting s'" "latencies (rt s') = [0, 0]"
proof -
  let ?v1 = "sample_verifier\<lparr>last_sequence := 1, last_valid_cmd_time := f1\<rparr>"
  have v: "verifier (rt sample_node) = sample_verifier" "latencies (rt sample_node) = []"
    by (simp_all add: sample_node_def sample_runtime_def new_runtime_def)
  obtain r1 where r1: "on_datachannel_message sample_lib sample_raw (u ''operator-a'') sample_readings (rt sample_node) = (r1, Inr ())"
    "verifier r1 = ?v1" "latencies r1 = [0]"
    "verification_of sample_lib sample_raw (u ''operator-a'') (verify_wall sample_readings)
       (verify_mono sample_readings) (verifier (rt sample_node)) = Accepts sample_packet"
    by (rule sample_handles [of sample_raw "u ''operator-a''" "rt sample_node" ?v1 sample_packet 1])
      (use sample_accepted v in \<open>simp_all add: int_field_def sample_packet_def\<close>)
  let ?s1 = "sample_node\<lparr>rt := r1\<rparr>"
  obtain r2 where r2: "on_datachannel_message sample_lib fourth_raw (u ''operator-a'') sample_readings (rt ?s1) = (r2, Inr ())"
    "latencies r2 = [0, 0]"
    "verification_of sample_lib fourth_raw (u ''operator-a'') (verify_wall sample_readings)
       (verify_mono sample_readings) (verifier (rt ?s1)) = Accepts fourth_packet"
    by (rule sample_handles [of fourth_raw "u ''operator-a''" r1 "?v1\<lparr>last_sequence := 4\<rparr>" fourth_packet 4])
      (use fourth_accepted [OF refl] r1 in \<open>simp_all add: int_field_def fourth_packet_def\<close>)
  have data: "on_data (DataObject (Inr fourth_raw)) (Inr (u ''operator-a'')) = Some (fourth_raw, u ''operator-a'')"
    by (simp add: on_data_def)
  note one = node_step.packet [OF sample_delivery r1(1) r1(4) [symmetric], of sample_args]
  note two = node_step.packet [OF data r2(1) r2(3) [symmetric], of sample_args]
  show ?thesis
    by (rule that [OF node_run.onward [OF one node_run.onward [OF two node_run.here]]])
      (simp_all add: r2 sample_node_def)
qed

theorem telemetry_accounts_losses_witness:
  "\<exists>t s'. node_run sample_lib sample_args sample_node
       [Delivers sample_raw (u ''operator-a'') sample_readings (Accepts sample_packet),
        Delivers fourth_raw (u ''operator-a'') sample_readings (Accepts fourth_packet), Reports (Some t)] s'
     \<and> tel_lost t = 2 \<and> lost_count (rt s') = 0"
proof (rule sample_run)
  fix s
  assume s: "node_run sample_lib sample_args sample_node
      [Delivers sample_raw (u ''operator-a'') sample_readings (Accepts sample_packet),
       Delivers fourth_raw (u ''operator-a'') sample_readings (Accepts fourth_packet)] s"
    "alive s" "\<not> reporting s" "latencies (rt s) = [0, 0]"
  obtain z where z: "flt_of_int 0 = Inr z" using flt_of_small [of 0] by auto
  have "p50_of [0, 0] = Inr (PFloat z)" "p99_of [0, 0] = Inr (PFloat z)"
    using p99_index_exact [of 2] z by (simp_all add: p50_of_def p99_of_def py_index_def flip: numeral_2_eq_2)
  then obtain t where t: "telemetry_round (arg_vehicle sample_args) (rt s)
      = ((rt s)\<lparr>latencies := [], lost_count := 0\<rparr>, Inr (Some t))"
    by (simp add: telemetry_round_def Let_def s(4))
  let ?s' = "s\<lparr>rt := (rt s)\<lparr>latencies := [], lost_count := 0\<rparr>, reporting := (Some t \<noteq> None)\<rparr>"
  have "node_step sample_lib sample_args (Reports (Some t)) s ?s'"
    by (rule node_step.telemetry_reports [OF s(2,3) t])
  from node_run_append [OF s(1) node_run.onward [OF this node_run.here]] have run:
    "node_run sample_lib sample_args sample_node
       [Delivers sample_raw (u ''operator-a'') sample_readings (Accepts sample_packet),
        Delivers fourth_raw (u ''operator-a'') sample_readings (Accepts fourth_packet), Reports (Some t)] ?s'"
    by simp
  have "packet_number sample_packet = 1" "packet_number fourth_packet = 4"
    by (simp_all add: packet_number_def int_field_def sample_packet_def fourth_packet_def)
  moreover have "lost_count (rt sample_node) = 0" "seen_sequence (rt sample_node) = None"
    by (simp_all add: sample_node_def sample_runtime_def new_runtime_def)
  ultimately have "tel_lost t = 2" using telemetry_accounts_losses [OF run] s(2) by simp
  with run show ?thesis by (intro exI [of _ t] exI [of _ ?s']) simp
qed

end
