(* ===== verification/Loop_Theorems.thy ===== *)
theory Loop_Theorems
  imports "HOL-Library.Multiset" Agent_Loops Node_Theorems Node_Accounts Token_Theorems
begin

text \<open>
  What the loops of \<open>Agent_Loops\<close> do over any number of rounds: the watchdog brakes once and stays
  braked, the reporting loops keep an account of what they post and what is pending, and the refresh
  loops end only when they are cancelled.
\<close>

section \<open>Loops guarded by \<open>running\<close>\<close>

text \<open>
  What the other tasks add to a loop's account over the rounds it really runs: \<open>gain i s\<close> is what
  they add in the round \<open>i\<close> that starts in the state \<open>s\<close>.
\<close>

fun run_gain ::
  "('s \<Rightarrow> bool) \<Rightarrow> ('i \<Rightarrow> 's \<Rightarrow> 's \<times> 'o list \<times> unit res) \<Rightarrow> ('i \<Rightarrow> 's \<Rightarrow> 'a::comm_monoid_add) \<Rightarrow> 'i list \<Rightarrow> 's \<Rightarrow> 'a"
where
  "run_gain active body gain [] s = 0"
| "run_gain active body gain (i # is) s =
     (if \<not> active s then 0
      else gain i s + (case body i s of (s', os, Inl e) \<Rightarrow> 0 | (s', os, Inr _) \<Rightarrow> run_gain active body gain is s'))"

text \<open>
  A reporting loop empties what is pending into posts: what is posted and what is still pending
  make up what was pending at first and what was gained.
\<close>

locale loop_account =
  fixes active :: "'s \<Rightarrow> bool"
    and body :: "'i \<Rightarrow> 's \<Rightarrow> 's \<times> 'o list \<times> unit res"
    and fair :: "'i \<Rightarrow> bool"
    and pending :: "'s \<Rightarrow> 'a::comm_monoid_add"
    and gain :: "'i \<Rightarrow> 's \<Rightarrow> 'a"
    and amount :: "'o \<Rightarrow> 'a"
  assumes round_balance:
    "fair i \<Longrightarrow> body i s = (s', os, Inr ()) \<Longrightarrow>
       sum_list (map amount os) + pending s' = pending s + gain i s"
begin

lemma run_balance:
  "(\<And>i. i \<in> set is \<Longrightarrow> fair i) \<Longrightarrow> while_running active body is s = (s', os, out) \<Longrightarrow>
   (\<And>e. out \<noteq> LoopRaises e) \<Longrightarrow>
     sum_list (map amount os) + pending s' = pending s + run_gain active body gain is s"
proof (induction "is" arbitrary: s os)
  case (Cons i "is")
  show ?case
  proof (cases "active s")
    case True
    obtain t ps r where step: "body i s = (t, ps, r)" using prod_cases3 by blast
    with Cons.prems(2,3) True have r: "r = Inr ()" by (cases r) auto
    obtain s2 qs out' where run: "while_running active body is t = (s2, qs, out')"
      using prod_cases3 by blast
    with Cons.prems(2) True step r have eqs: "s2 = s'" "os = ps @ qs" "out' = out" by auto
    have rest: "sum_list (map amount qs) + pending s' = pending t + run_gain active body gain is t"
      using Cons.IH [of t qs] Cons.prems(1,3) run eqs by simp
    have first: "sum_list (map amount ps) + pending t = pending s + gain i s"
      using round_balance [of i s] Cons.prems(1) step r by simp
    have "sum_list (map amount os) + pending s' = (sum_list (map amount ps) + pending t) + run_gain active body gain is t"
      by (simp add: eqs add.assoc rest)
    also have "\<dots> = pending s + (gain i s + run_gain active body gain is t)" by (simp add: first add.assoc)
    finally show ?thesis using True step r by simp
  next
    case False
    with Cons.prems(2) show ?thesis by auto
  qed
qed simp

end

section \<open>Telemetry\<close>

text \<open>The losses the handler counts during the sleep of a round and, if it reports, during its post.\<close>

definition report_gain :: "pystr \<Rightarrow> 'k runtime report_round \<Rightarrow> 'k runtime \<Rightarrow> int" where
  "report_gain vid i s =
     (let m = rp_meanwhile i s
      in lost_count m - lost_count s
         + (case telemetry_round vid m of
              (r, Inr (Some t)) \<Rightarrow> lost_count (rp_posting i r) - lost_count r
            | _ \<Rightarrow> 0))"

interpretation tel: loop_account running "telemetry_body gateway vid" "\<lambda>_. True" lost_count "report_gain vid"
  "\<lambda>p. tel_lost (tp_report p)" for gateway vid :: pystr
proof
  fix i :: "'k runtime report_round" and s s' os
  assume body: "telemetry_body gateway vid i s = (s', os, Inr ())"
  then obtain r res where round: "telemetry_round vid (rp_meanwhile i s) = (r, Inr res)"
    by (auto simp: telemetry_body_def split: sum.splits prod.splits)
  show "(\<Sum>p\<leftarrow>os. tel_lost (tp_report p)) + lost_count s' = lost_count s + report_gain vid i s"
    by (cases res) (use body round telemetry_round_loss [OF round] in
      \<open>auto simp: telemetry_body_def telemetry_post_def report_gain_def Let_def split: sum.splits\<close>)
qed

text \<open>What a run of messages of the handler gains is what \<open>lost_count_counts_gaps\<close> counts.\<close>

lemma deliver_gain:
  assumes "offers (offer_packet x) (map fst ms) (verifier r) = (v, packets)"
  shows "lost_count (deliver_all x ms r) - lost_count r = gaps (seen_sequence r) (map packet_number packets)"
  using deliver_all_counts [OF assms] srl.run_gaps [of "map packet_number packets" r] by simp

text \<open>The telemetry loop of the stage-1 agent keeps the same account.\<close>

definition agent_gain :: "pystr \<Rightarrow> 'k agent report_round \<Rightarrow> 'k agent \<Rightarrow> int" where
  "agent_gain vid i s =
     (let m = rp_meanwhile i s
      in agent_lost m - agent_lost s
         + (case agent_telemetry vid m of
              (a, Inr (Some t)) \<Rightarrow> agent_lost (rp_posting i a) - agent_lost a
            | _ \<Rightarrow> 0))"

lemma agent_telemetry_loss:
  assumes "agent_telemetry vid a = (a', Inr res)"
  shows "case res of None \<Rightarrow> a' = a
    | Some t \<Rightarrow> tel_lost t = agent_lost a \<and> a' = a\<lparr>agent_latencies := [], agent_lost := 0\<rparr>"
  using assms by (auto simp: agent_telemetry_def split: if_splits sum.splits prod.splits)

interpretation atel: loop_account agent_running "agent_telemetry_body url auth vid" "\<lambda>_. True"
  agent_lost "agent_gain vid" "\<lambda>p. tel_lost (tp_report p)" for url auth vid :: pystr
proof
  fix i :: "'k agent report_round" and s s' os
  assume body: "agent_telemetry_body url auth vid i s = (s', os, Inr ())"
  then obtain r res where round: "agent_telemetry vid (rp_meanwhile i s) = (r, Inr res)"
    by (auto simp: agent_telemetry_body_def split: sum.splits prod.splits)
  show "(\<Sum>p\<leftarrow>os. tel_lost (tp_report p)) + agent_lost s' = agent_lost s + agent_gain vid i s"
    by (cases res) (use body round agent_telemetry_loss [OF round] in
      \<open>auto simp: agent_telemetry_body_def agent_gain_def Let_def split: sum.splits\<close>)
qed

section \<open>Audit\<close>

text \<open>The other tasks only append to the queue, as \<open>_queue_audit_event\<close> does.\<close>

definition appends :: "('k runtime \<Rightarrow> 'k runtime) \<Rightarrow> bool" where
  "appends f \<longleftrightarrow> (\<forall>s. \<exists>evs. audit_events (f s) = audit_events s @ evs)"

definition queued_by :: "('k runtime \<Rightarrow> 'k runtime) \<Rightarrow> 'k runtime \<Rightarrow> audit_event multiset" where
  "queued_by f s = mset (drop (length (audit_events s)) (audit_events (f s)))"

definition audit_gain :: "pystr \<Rightarrow> 'k runtime audit_round \<Rightarrow> 'k runtime \<Rightarrow> audit_event multiset" where
  "audit_gain gateway i s =
     (let m = au_meanwhile i s; t = m\<lparr>audit_events := []\<rparr>
      in queued_by (au_meanwhile i) s
         + (case audit_body gateway i s of (s', os, _) \<Rightarrow> mset (audit_events (after_posts (au_posting i) t (length os)))))"

lemma queued_by_appends:
  "appends f \<Longrightarrow> mset (audit_events (f s)) = mset (audit_events s) + queued_by f s"
  unfolding appends_def queued_by_def by (metis append_eq_conv_conj mset_append)

lemma audit_sends_all:
  "audit_sends gateway evs seen = (posts, Inr ()) \<Longrightarrow> map post_event posts = evs"
proof (induction gateway evs seen arbitrary: posts rule: audit_sends.induct)
  case (2 gateway ev evs seen)
  then show ?case by (auto simp: Let_def audit_payload_def split: sum.splits prod.splits)
qed simp

interpretation aud: loop_account running "audit_body gateway" "\<lambda>i. appends (au_meanwhile i)"
  "\<lambda>r. mset (audit_events r)" "audit_gain gateway" "\<lambda>p. {#post_event p#}" for gateway :: pystr
proof
  fix i :: "'k runtime audit_round" and s s' os
  assume fair: "appends (au_meanwhile i)" and body: "audit_body gateway i s = (s', os, Inr ())"
  let ?r = "au_meanwhile i s" and ?t = "(au_meanwhile i s)\<lparr>audit_events := []\<rparr>"
  have os: "map post_event os = audit_events ?r" and s': "s' = after_posts (au_posting i) ?t (length os)"
    using body by (auto simp: audit_body_def audit_take_def split: sum.splits prod.splits dest: audit_sends_all)
  have "(\<Sum>p\<leftarrow>os. {#post_event p#}) = mset (audit_events ?r)"
    unfolding os [symmetric] by (induction os) simp_all
  then show "(\<Sum>p\<leftarrow>os. {#post_event p#}) + mset (audit_events s') = mset (audit_events s) + audit_gain gateway i s"
    using queued_by_appends [OF fair, of s] body s' by (simp add: audit_gain_def Let_def)
qed

lemma handler_appends: "appends (\<lambda>r :: 'k runtime. fst (on_datachannel_message x raw sender t r))"
  unfolding appends_def
proof
  fix r :: "'k runtime"
  obtain r' res where run: "on_datachannel_message x raw sender t r = (r', res)" by fastforce
  have "\<exists>evs. audit_events (queue_audit_event ev why now q) = audit_events q @ evs" for ev why now and q :: "'k runtime"
    by (rule queue_audit_cases [of ev why now q]) auto
  with handler_audits [OF run refl] show "\<exists>evs. audit_events (fst (on_datachannel_message x raw sender t r)) = audit_events r @ evs"
    using queue_all_agree [of r r] run by fastforce
qed

section \<open>The watchdog\<close>

lemma watchdog_round_finite:
  assumes "is_finite (elapsed_ms now (last_valid_cmd_time (verifier r)))"
  obtains r' why where "watchdog_round n now na r = (r', Inr ())" "verifier r' = verifier r" "running r' = running r"
    "brake_controller r' = (if of_int n < rval (elapsed_ms now (last_valid_cmd_time (verifier r)))
       then emergency_brake why (brake_controller r) else brake_controller r)"
proof (cases "int_lt_flt n (elapsed_ms now (last_valid_cmd_time (verifier r)))")
  case True
  obtain why where why: "watchdog_reason (elapsed_ms now (last_valid_cmd_time (verifier r))) = Inr why"
    using watchdog_reason_cases [of now "last_valid_cmd_time (verifier r)"] assms
    by (cases "elapsed_ms now (last_valid_cmd_time (verifier r))") auto
  have "running (fst (watchdog_round n now na r)) = running r"
    using True why by (simp add: watchdog_round_def Let_def frame_simps)
  with watchdog_brakes [OF True why, of na] True cmp_int_rval(3) [OF assms] that [of _ why] show ?thesis
    by (metis prod.collapse)
next
  case False
  with watchdog_quiet [OF False, of na] cmp_int_rval(3) [OF assms] that show ?thesis by auto
qed

text \<open>
  What one round of either watchdog contributes while no command is accepted: it compares its clock
  reading with the time of the last accepted packet, and brakes when that is too long ago.
\<close>

locale watchdog_loop =
  fixes active :: "'s \<Rightarrow> bool"
    and body :: "'s watch \<Rightarrow> 's \<Rightarrow> 's \<times> unit list \<times> unit res"
    and brakes :: "'s \<Rightarrow> 'v brake_state"
    and since :: "'s \<Rightarrow> pyfloat"
    and calm :: "'s watch \<Rightarrow> bool"
    and timeout :: int
  assumes calm_round:
    "active s \<Longrightarrow> calm i \<Longrightarrow> is_finite (elapsed_ms (wd_now i) (since s)) \<Longrightarrow>
       \<exists>s' why. body i s = (s', [], Inr ()) \<and> active s' \<and> since s' = since s
         \<and> brakes s' = (if of_int timeout < rval (elapsed_ms (wd_now i) (since s))
                       then emergency_brake why (brakes s) else brakes s)"
begin

lemma run_brakes_once:
  assumes "active s" and "\<And>i. i \<in> set rounds \<Longrightarrow> calm i"
    and "\<And>i. i \<in> set rounds \<Longrightarrow> is_finite (elapsed_ms (wd_now i) (since s))"
  shows "\<exists>s' why. while_running active body rounds s = (s', [], LoopRuns)
    \<and> (in_emergency (brakes s') \<longleftrightarrow> in_emergency (brakes s)
        \<or> (\<exists>i \<in> set rounds. of_int timeout < rval (elapsed_ms (wd_now i) (since s))))
    \<and> outputs (brakes s') = outputs (brakes s)
        @ (if in_emergency (brakes s') = in_emergency (brakes s) then [] else [EmergencyBrake why])"
  using assms
proof (induction rounds arbitrary: s)
  case (Cons i rounds)
  let ?late = "\<lambda>i. of_int timeout < rval (elapsed_ms (wd_now i) (since s))"
  obtain t why where t: "body i s = (t, [], Inr ())" "active t" "since t = since s"
    "brakes t = (if ?late i then emergency_brake why (brakes s) else brakes s)"
    using calm_round [OF Cons.prems(1), of i] Cons.prems(2,3) by (metis list.set_intros(1))
  have "\<exists>s' why'. while_running active body rounds t = (s', [], LoopRuns)
    \<and> (in_emergency (brakes s') \<longleftrightarrow> in_emergency (brakes t) \<or> (\<exists>i \<in> set rounds. ?late i))
    \<and> outputs (brakes s') = outputs (brakes t)
        @ (if in_emergency (brakes s') = in_emergency (brakes t) then [] else [EmergencyBrake why'])"
    by (rule Cons.IH [of t, unfolded t(3), OF t(2)]) (use Cons.prems(2,3) in auto)
  then obtain s' why' where run: "while_running active body rounds t = (s', [], LoopRuns)"
    "in_emergency (brakes s') \<longleftrightarrow> in_emergency (brakes t) \<or> (\<exists>i \<in> set rounds. ?late i)"
    "outputs (brakes s') = outputs (brakes t)
        @ (if in_emergency (brakes s') = in_emergency (brakes t) then [] else [EmergencyBrake why'])"
    by blast
  have loop: "while_running active body (i # rounds) s = (s', [], LoopRuns)"
    using Cons.prems(1) t(1) run(1) by simp
  show ?case
  proof (cases "?late i \<and> \<not> in_emergency (brakes s)")
    case True
    with t(4) have "in_emergency (brakes t)" "outputs (brakes t) = outputs (brakes s) @ [EmergencyBrake why]"
      by (simp_all add: ebc.brake_latches ebc.brake_out)
    with True run(2,3) loop show ?thesis by auto
  next
    case False
    with t(4) have "brakes t = brakes s" by (auto simp: ebc.brake_idle)
    with False run(2,3) loop show ?thesis by auto
  qed
qed simp

end

text \<open>No command is accepted in the meantime, and nobody stops the agent.\<close>

definition unattended :: "'k runtime watch \<Rightarrow> bool" where
  "unattended i \<longleftrightarrow> wd_slept i = Inr ()
   \<and> (\<forall>s. last_valid_cmd_time (verifier (wd_meanwhile i s)) = last_valid_cmd_time (verifier s)
        \<and> brake_controller (wd_meanwhile i s) = brake_controller s
        \<and> running (wd_meanwhile i s) = running s)"

interpretation swd: watchdog_loop running "watchdog_body timeout" brake_controller
  "\<lambda>r :: 'k runtime. last_valid_cmd_time (verifier r)" unattended timeout for timeout
proof
  fix r :: "'k runtime" and i :: "'k runtime watch"
  assume r: "running r" and i: "unattended i"
    and fin: "is_finite (elapsed_ms (wd_now i) (last_valid_cmd_time (verifier r)))"
  obtain t why where t: "watchdog_round timeout (wd_now i) (wd_audit i) r = (t, Inr ())" "verifier t = verifier r"
    "running t = running r"
    "brake_controller t = (if of_int timeout < rval (elapsed_ms (wd_now i) (last_valid_cmd_time (verifier r)))
       then emergency_brake why (brake_controller r) else brake_controller r)"
    by (rule watchdog_round_finite [OF fin])
  have "watchdog_body timeout i r = (wd_meanwhile i t, [], Inr ())"
    using t(1) i by (simp add: watchdog_body_def unattended_def)
  with r i t(2-4) show "\<exists>s' why. watchdog_body timeout i r = (s', [], Inr ()) \<and> running s'
      \<and> last_valid_cmd_time (verifier s') = last_valid_cmd_time (verifier r)
      \<and> brake_controller s' = (if of_int timeout < rval (elapsed_ms (wd_now i) (last_valid_cmd_time (verifier r)))
           then emergency_brake why (brake_controller r) else brake_controller r)"
    by (intro exI [of _ "wd_meanwhile i t"] exI [of _ why]) (simp add: unattended_def)
qed

text \<open>The watchdog of the stage-1 agent makes the same promise.\<close>

definition agent_unattended :: "'k agent watch \<Rightarrow> bool" where
  "agent_unattended i \<longleftrightarrow> wd_slept i = Inr ()
   \<and> (\<forall>s. cv_last_valid (agent_verifier (wd_meanwhile i s)) = cv_last_valid (agent_verifier s)
        \<and> agent_brake (wd_meanwhile i s) = agent_brake s \<and> agent_running (wd_meanwhile i s) = agent_running s)"

interpretation awd: watchdog_loop agent_running "agent_watchdog_body timeout" agent_brake
  "\<lambda>a :: 'k agent. cv_last_valid (agent_verifier a)" agent_unattended timeout for timeout
proof
  fix a :: "'k agent" and i :: "'k agent watch"
  let ?e = "elapsed_ms (wd_now i) (cv_last_valid (agent_verifier a))"
  assume a: "agent_running a" and i: "agent_unattended i" and fin: "is_finite ?e"
  obtain why where why: "watchdog_reason ?e = Inr why"
    using watchdog_reason_cases [of "wd_now i" "cv_last_valid (agent_verifier a)"] fin by (cases ?e) auto
  let ?t = "if of_int timeout < rval ?e then a\<lparr>agent_brake := emergency_brake why (agent_brake a)\<rparr> else a"
  have "agent_watchdog_body timeout i a = (wd_meanwhile i ?t, [], Inr ())"
    using i why cmp_int_rval(3) [OF fin]
    by (simp add: agent_watchdog_body_def agent_watchdog_def Let_def agent_unattended_def)
  with a i show "\<exists>s' why. agent_watchdog_body timeout i a = (s', [], Inr ()) \<and> agent_running s'
      \<and> cv_last_valid (agent_verifier s') = cv_last_valid (agent_verifier a)
      \<and> agent_brake s' = (if of_int timeout < rval ?e then emergency_brake why (agent_brake a) else agent_brake a)"
    by (intro exI [of _ "wd_meanwhile i ?t"] exI [of _ why]) (simp add: agent_unattended_def)
qed

lemma agent_watchdog_brakes:
  assumes "agent_running a" and "\<And>i. i \<in> set rounds \<Longrightarrow> agent_unattended i"
    and "\<And>i. i \<in> set rounds \<Longrightarrow> is_finite (elapsed_ms (wd_now i) (cv_last_valid (agent_verifier a)))"
    and "i \<in> set rounds" and "of_int timeout < rval (elapsed_ms (wd_now i) (cv_last_valid (agent_verifier a)))"
  shows "\<exists>a'. agent_safety_watchdog timeout rounds a = (a', [], LoopRuns) \<and> in_emergency (agent_brake a')"
  using awd.run_brakes_once [where timeout = timeout, OF assms(1-3)] assms(4,5)
  by (auto simp: agent_safety_watchdog_def)

text \<open>
  C13: The watchdog over a stretch of time without an accepted command, other tasks running in between:
  at the end the emergency is on exactly if it was on at first or one of the clock readings was
  more than the timeout after the last accepted packet, and it was triggered at most once, however
  many readings were late.
\<close>

theorem watchdog_brakes_once:
  assumes "running r" and "\<And>i. i \<in> set rounds \<Longrightarrow> unattended i"
    and "\<And>i. i \<in> set rounds \<Longrightarrow> is_finite (elapsed_ms (wd_now i) (last_valid_cmd_time (verifier r)))"
  shows "\<exists>r' why. safety_watchdog timeout rounds r = (r', [], LoopRuns)
    \<and> (in_emergency (brake_controller r') \<longleftrightarrow> in_emergency (brake_controller r)
        \<or> (\<exists>i \<in> set rounds. of_int timeout < rval (elapsed_ms (wd_now i) (last_valid_cmd_time (verifier r)))))
    \<and> outputs (brake_controller r') = outputs (brake_controller r)
        @ (if in_emergency (brake_controller r') = in_emergency (brake_controller r) then [] else [EmergencyBrake why])"
  unfolding safety_watchdog_def by (rule swd.run_brakes_once [OF assms])

definition sample_watch :: "bytes runtime watch" where
  "sample_watch = \<lparr>wd_now = f1, wd_audit = f1, wd_meanwhile = \<lambda>s. s\<lparr>latencies := []\<rparr>, wd_slept = Inr ()\<rparr>"

theorem watchdog_brakes_once_witness:
  "\<exists>r' why. safety_watchdog 300 [sample_watch, sample_watch] sample_runtime = (r', [], LoopRuns)
     \<and> in_emergency (brake_controller r') \<and> outputs (brake_controller r') = [EmergencyBrake why]"
proof -
  have r: "running sample_runtime" "last_valid_cmd_time (verifier sample_runtime) = f0"
    "brake_controller sample_runtime = new_brake"
    by (simp_all add: sample_runtime_def new_runtime_def sample_verifier_def)
  have w: "unattended sample_watch" "wd_now sample_watch = f1"
    by (simp_all add: unattended_def sample_watch_def)
  have "\<exists>i \<in> set [sample_watch, sample_watch]. of_int 300 < rval (elapsed_ms (wd_now i) f0)"
    using sample_elapsed w(2) by simp
  with watchdog_brakes_once [of sample_runtime "[sample_watch, sample_watch]" 300] r w sample_elapsed
  show ?thesis by (auto simp: new_brake_def)
qed

section \<open>Refreshing the session\<close>

text \<open>Other tasks may unload the session; only a refresh loads one.\<close>

definition never_loads :: "('k verifier \<Rightarrow> 'k verifier) \<Rightarrow> bool" where
  "never_loads f \<longleftrightarrow> (\<forall>v. (session (f v) = session v \<or> session (f v) = None) \<and> vehicle_id (f v) = vehicle_id v)"

lemma never_loads_verify: "never_loads (\<lambda>v. fst (verify_packet x raw sender wall now v))"
  by (auto simp: never_loads_def verify_packet_def clear_session_def split: option.splits sum.splits verdict.splits)

lemma refresh_turn_source:
  assumes "refresh_begin v = (v1, loc, req)" and "refresh_finish x loc ex (f v1) = (v2, out)"
    and "never_loads f"
  shows "vehicle_id v2 = vehicle_id v"
    and "session v2 = Some s \<Longrightarrow> \<exists>key. grants x ex v s key"
proof -
  have v1: "session v1 = None" "vehicle_id v1 = vehicle_id v"
    using refresh_begin_clears [OF assms(1)] by auto
  with assms(3) have f: "session (f v1) = None" "vehicle_id (f v1) = vehicle_id v"
    by (metis never_loads_def)+
  have g: "grants x ex (f v1) = grants x ex v" by (rule grants_cong [OF f(2)])
  show "vehicle_id v2 = vehicle_id v"
    using assms(2) by (cases rule: refresh_finish_cases) (use f in auto)
  show "session v2 = Some s \<Longrightarrow> \<exists>key. grants x ex v s key"
    using assms(2) by (cases rule: refresh_finish_cases) (use f g in auto)
qed

lemma refresh_vehicle:
  assumes "\<And>i. i \<in> set turns \<Longrightarrow> never_loads (rt_awaiting i) \<and> never_loads (rt_meanwhile i)"
    and "periodic_session_refresh x turns v = (v', out)"
  shows "vehicle_id v' = vehicle_id v"
  using assms
proof (induction turns arbitrary: v)
  case (Cons i turns)
  obtain v1 loc req where b: "refresh_begin v = (v1, loc, req)" using prod_cases3 by blast
  obtain v2 r where fin: "refresh_finish x loc (rt_exchange i) (rt_awaiting i v1) = (v2, r)" by fastforce
  have i: "never_loads (rt_awaiting i)" "never_loads (rt_meanwhile i)" using Cons.prems(1) by auto
  have v2: "vehicle_id v2 = vehicle_id v" by (rule refresh_turn_source(1) [where f = "rt_awaiting i", OF b fin i(1)])
  with i(2) have "vehicle_id (rt_meanwhile i v2) = vehicle_id v" by (simp add: never_loads_def)
  with v2 Cons b fin show ?case by (auto split: sum.splits)
qed simp

lemma refresh_append:
  assumes "periodic_session_refresh x (turns @ turns') v = (v', LoopRuns)"
  obtains w where "periodic_session_refresh x turns v = (w, LoopRuns)"
    "periodic_session_refresh x turns' w = (v', LoopRuns)"
  using assms
  by (induction turns arbitrary: v) (auto split: prod.splits sum.splits)

text \<open>
  C12: The loaded session is never older than the last response. After any number of turns of the
  refresh task, with packets verified in between, a session that is loaded is the one the
  response of the last turn granted; if that response granted none, as a revoked session's 404 or
  a failed request does, none is loaded, whatever the turns before it had brought.
\<close>

theorem session_from_last_response:
  assumes "\<And>i. i \<in> set (turns @ [turn]) \<Longrightarrow> never_loads (rt_awaiting i) \<and> never_loads (rt_meanwhile i)"
    and "periodic_session_refresh x (turns @ [turn]) v = (v', LoopRuns)"
    and "session v' = Some s"
  shows "\<exists>key. grants x (rt_exchange turn) v s key"
proof -
  obtain w where w: "periodic_session_refresh x turns v = (w, LoopRuns)"
    "periodic_session_refresh x [turn] w = (v', LoopRuns)"
    by (rule refresh_append [OF assms(2)])
  have vid: "vehicle_id w = vehicle_id v"
    by (rule refresh_vehicle [OF _ w(1)]) (use assms(1) in auto)
  obtain v1 loc req where b: "refresh_begin w = (v1, loc, req)" using prod_cases3 by blast
  obtain v2 r where fin: "refresh_finish x loc (rt_exchange turn) (rt_awaiting turn v1) = (v2, r)" by fastforce
  have "v' = rt_meanwhile turn v2" using w(2) b fin by (auto split: sum.splits)
  with assms(1,3) have "session v2 = Some s" by (auto simp: never_loads_def) (metis option.distinct(1))
  with refresh_turn_source(2) [where f = "rt_awaiting turn", OF b fin, of s] assms(1) show ?thesis
    by (simp add: grants_cong [OF vid])
qed

definition sample_turn :: "exchange \<Rightarrow> bytes refresh_turn" where
  "sample_turn ex =
     \<lparr>rt_awaiting = \<lambda>v. fst (verify_packet sample_lib sample_raw (u ''operator-a'') f1 f1 v), rt_exchange = ex,
      rt_meanwhile = \<lambda>v. v, rt_slept = Inr ()\<rparr>"

theorem session_from_last_response_witness:
  "\<exists>v' s key. periodic_session_refresh sample_lib
        ([sample_turn (Inl ClientError)] @ [sample_turn (Inr sample_response)]) sample_verifier = (v', LoopRuns)
    \<and> session v' = Some s \<and> grants sample_lib (Inr sample_response) sample_verifier s key"
proof -
  let ?turns = "[sample_turn (Inl ClientError)] @ [sample_turn (Inr sample_response)]"
  have quiet: "fst (verify_packet sample_lib sample_raw (u ''operator-a'') f1 f1 (clear_session v)) = clear_session v"
    for v :: "bytes verifier"
    by (simp add: verify_packet_def clear_session_def)
  have g: "grants sample_lib (Inr sample_response) (clear_session (clear_session sample_verifier)) sample_session [0, 0, 0]"
    by (rule sample_grants) (simp add: clear_session_def sample_verifier_def)
  have fails: "refresh_finish sample_lib loc (Inl ClientError) v = (v, Inl ClientError)" for loc and v :: "bytes verifier"
    by (simp add: refresh_finish_def)
  obtain v' where run: "periodic_session_refresh sample_lib ?turns sample_verifier = (v', LoopRuns)"
    "session v' = Some sample_session"
    by (simp add: sample_turn_def refresh_begin_def quiet refresh_finish_granted [OF g] fails refresh_caught_def
        session_refresh_ends_def is_Exception_def)
  have "\<exists>key. grants sample_lib (rt_exchange (sample_turn (Inr sample_response))) sample_verifier sample_session key"
    by (rule session_from_last_response [OF _ run])
      (auto simp: sample_turn_def never_loads_verify, simp_all add: never_loads_def)
  with run show ?thesis by (auto simp: sample_turn_def)
qed

section \<open>Renewing the access token\<close>

lemma refresh_round_margin:
  "refresh_before_seconds (fst (refresh_round ex now now_failed m)) = refresh_before_seconds m"
  by (simp add: refresh_round_def refresh_token_def Let_def split: sum.splits prod.splits pyval.splits)

lemma access_token_Inr: "access_token m = Inr t \<longleftrightarrow> access_token_opt m = Some t"
  by (cases "access_token_opt m") (simp_all add: access_token_def)

lemma refresh_delay_300: "refresh_before_seconds m = 300 \<Longrightarrow> \<exists>d. refresh_delay now m = Inr d"
  by (simp add: refresh_delay_def flt_of_int_def float_eval)

text \<open>
  C28: The renewal of the access token never spins and never gives up: with the margin of 300 seconds the
  agent uses, every sleep of the loop is at least one second, each turn has slept at least once,
  only a cancellation ends the loop, every token handed out is a non-empty string, and a vehicle
  that has a token still has one.
\<close>

theorem token_loop_waits:
  assumes "refresh_loop turns m = (m', ts, ds, out)" and "refresh_before_seconds m = 300"
    and "\<And>i e. i \<in> set turns \<Longrightarrow> tt_slept i = Inl e \<or> tt_retried i = Inl e \<Longrightarrow> e = CancelledError"
  shows "(\<forall>d \<in> set ds. int_le_flt 1 d) \<and> (\<forall>t \<in> set ts. t \<noteq> [])
    \<and> (out = LoopRuns \<and> length turns \<le> length ds \<or> out = LoopRaises CancelledError)
    \<and> (access_token_opt m = None \<and> ts = [] \<or> access_token_opt m' \<noteq> None)"
  using assms
proof (induction turns arbitrary: m m' ts ds out)
  case (Cons i turns)
  obtain d where d: "refresh_delay (tt_start i) m = Inr d"
    using refresh_delay_300 [OF Cons.prems(2)] by blast
  obtain m1 r where r: "refresh_round (tt_exchange i) (tt_now i) (tt_failed i) m = (m1, r)" by fastforce
  note outcome = refresh_round_outcome [of "tt_exchange i" "tt_now i" "tt_failed i" m, unfolded r, simplified]
  have one: "int_le_flt 1 d"
    using refresh_round_outcome [of "tt_exchange i" "tt_start i" "tt_failed i" m] d by simp
  have m1: "refresh_before_seconds m1 = 300"
    using refresh_round_margin [of "tt_exchange i" "tt_now i" "tt_failed i" m] r Cons.prems(2) by simp
  obtain m2 ts2 ds2 out2 where rest: "refresh_loop turns m1 = (m2, ts2, ds2, out2)" using prod_cases4 by blast
  note IH = Cons.IH [OF rest m1]
  show ?case
  proof (cases "tt_slept i")
    case (Inl e)
    then show ?thesis using Cons.prems(1,3) d one by auto
  next
    case (Inr _)
    have "(\<forall>d \<in> set ds2. int_le_flt 1 d) \<and> (\<forall>t \<in> set ts2. t \<noteq> [])
      \<and> (out2 = LoopRuns \<and> length turns \<le> length ds2 \<or> out2 = LoopRaises CancelledError)
      \<and> (access_token_opt m1 = None \<and> ts2 = [] \<or> access_token_opt m2 \<noteq> None)"
      by (rule IH) (use Cons.prems(3) in auto)
    with Inr Cons.prems(1) Cons.prems(3) [of i] d one r rest outcome show ?thesis
      by (cases r) (auto simp: access_token_Inr split: sum.splits option.splits)
  qed
qed auto

definition sample_token_turn :: token_turn where
  "sample_token_turn =
     \<lparr>tt_start = f1, tt_slept = Inr (), tt_exchange = Inl ClientError, tt_now = f1, tt_failed = f1,
      tt_retried = Inr ()\<rparr>"

theorem token_loop_waits_witness:
  "\<exists>ds. refresh_loop [sample_token_turn, sample_token_turn] sample_manager = (sample_manager, [], ds, LoopRuns)
     \<and> length ds = 4 \<and> list_all (int_le_flt 1) ds"
proof -
  have margin: "refresh_before_seconds sample_manager = 300" by (simp add: sample_manager_def)
  obtain d where d: "refresh_delay f1 sample_manager = Inr d" using refresh_delay_300 [OF margin] by blast
  have fails: "refresh_round (Inl ClientError) f1 f1 sample_manager = (sample_manager, RetryAfter (retry_delay f1 sample_manager))"
    by (simp add: refresh_round_def refresh_token_def token_body_def is_Exception_def)
  obtain ds where run: "refresh_loop [sample_token_turn, sample_token_turn] sample_manager = (sample_manager, [], ds, LoopRuns)"
    "length ds = 4"
    by (simp add: sample_token_turn_def d fails)
  have "\<forall>d \<in> set ds. int_le_flt 1 d"
    using token_loop_waits [OF run(1) margin] by (auto simp: sample_token_turn_def)
  with run show ?thesis by (auto simp: list_all_iff)
qed

end
