(* ===== verification/Node_Authority.thy ===== *)
theory Node_Authority
  imports Node_Theorems
begin

text \<open>
  The chain of authority behind every command that ever reached the actuators: from the gateway's
  answer that loaded a session, over the operator's key in it, to the signed packet.
\<close>

section \<open>What a step does to the verifier\<close>

abbreviation verifier_of :: "'k node \<Rightarrow> 'k verifier" where
  "verifier_of s \<equiv> verifier (rt s)"

lemma node_step_verifier:
  assumes "node_step x a e s s'"
  obtains (same) "verifier_of s' = verifier_of s"
  | (packet) raw sender wall now where
      "verifier_of s' = fst (verify_packet x raw sender wall now (verifier_of s))"
  | (begins) loc req where "refresh_begin (verifier_of s) = (verifier_of s', loc, req)"
  | (finishes) loc ex out where "refresh_finish x loc ex (verifier_of s) = (verifier_of s', out)"
  | (token) t where "verifier_of s' = (verifier_of s)\<lparr>auth_token := t\<rparr>"
  using assms
proof (cases rule: node_step.cases)
  case (packet data identity raw sender t r out outcome)
  with on_message_verifier [OF packet(4)] that(2) show ?thesis by simp
next
  case (watchdog now now_audit r braked)
  with watchdog_effect(1) [OF watchdog(4)] same show ?thesis by simp
next
  case (watchdog_raises now now_audit r e)
  with watchdog_effect(1) [OF watchdog_raises(4)] same show ?thesis by (simp add: shut_down_def)
next
  case (audit_takes r evs)
  with same show ?thesis by (auto simp: audit_take_def)
next
  case (telemetry_reports r report)
  with telemetry_effect [OF telemetry_reports(5)] same show ?thesis by auto
next
  case (telemetry_raises r e)
  with telemetry_effect [OF telemetry_raises(5)] same show ?thesis by (auto simp: shut_down_def)
qed (use same begins finishes token in \<open>simp_all add: shut_down_def\<close>)

section \<open>Sessions come from the gateway\<close>

text \<open>The gateway's answer grants the session \<open>s\<close> of the vehicle \<open>vid\<close>, with the operator's \<open>key\<close> in it.\<close>

definition gateway_grant :: "'k lib \<Rightarrow> pystr \<Rightarrow> response \<Rightarrow> active_session \<Rightarrow> 'k \<Rightarrow> bool" where
  "gateway_grant x vid r s key \<longleftrightarrow>
     status_code r = 200 \<and> rbind (body_json r) parse_session = Inr s
   \<and> sess_vehicle s = PStr vid \<and> sess_status s = PStr (u ''ACTIVE'')
   \<and> rbind (b64decode True (public_key_b64 s)) (new_key x) = Inr key"

lemma grants_gateway: "grants x ex v s key \<longleftrightarrow> (\<exists>r. ex = Inr r \<and> gateway_grant x (vehicle_id v) r s key)"
  by (auto simp: grants_def gateway_grant_def)

text \<open>The verifier of this vehicle, with its time window, holding nothing the gateway did not grant.\<close>

definition granted_verifier :: "'k lib \<Rightarrow> pystr \<Rightarrow> 'k verifier \<Rightarrow> bool" where
  "granted_verifier x vid v \<longleftrightarrow>
     vehicle_id v = vid \<and> max_age_ms v = 100 \<and> max_future_skew_ms v = 100
   \<and> (\<forall>s key. session v = Some s \<longrightarrow> verify_key v = Some key \<longrightarrow> (\<exists>r. gateway_grant x vid r s key))"

lemma granted_clear: "granted_verifier x vid v \<Longrightarrow> granted_verifier x vid (clear_session v)"
  by (simp add: granted_verifier_def clear_session_def)

lemma granted_verify:
  assumes "granted_verifier x vid v"
  shows "granted_verifier x vid (fst (verify_packet x raw sender wall now v))"
proof -
  obtain v' r where run: "verify_packet x raw sender wall now v = (v', r)" by fastforce
  show ?thesis
  proof (cases "\<exists>packet. r = Inr (Some packet)")
    case True
    then obtain n where "v' = v\<lparr>last_sequence := n, last_valid_cmd_time := now\<rparr>"
      using run by (auto simp: verify_packet_Some)
    with run assms show ?thesis by (simp add: granted_verifier_def)
  next
    case False
    with verify_refuses [OF run] have "v' = v \<or> v' = clear_session v" by auto
    with run assms granted_clear show ?thesis by auto
  qed
qed

lemma granted_begin: "refresh_begin v = (v', loc, req) \<Longrightarrow> granted_verifier x vid v \<Longrightarrow> granted_verifier x vid v'"
  by (auto simp: refresh_begin_def granted_clear)

lemma granted_finish:
  assumes "refresh_finish x loc ex v = (v', out)" and "granted_verifier x vid v"
  shows "granted_verifier x vid v'"
  using assms(1)
proof (cases rule: refresh_finish_cases)
  case (granted s key)
  with assms(2) show ?thesis by (auto simp: granted_verifier_def grants_gateway)
qed (use assms(2) in simp)

lemma granted_refresh: "granted_verifier x vid v \<Longrightarrow> granted_verifier x vid (fst (refresh_session x ex v))"
  by (auto simp: refresh_session_def split: prod.splits intro: granted_finish granted_begin)
    (metis fst_conv granted_begin granted_finish surj_pair)

lemma granted_start: "granted_verifier x (arg_vehicle a) (verifier_of (start_node x a token manager created ex))"
  unfolding start_node_def Let_def new_runtime_def
  by simp (intro granted_refresh, simp add: granted_verifier_def new_verifier_def)

lemma granted_step:
  assumes "node_step x a e s s'" and "granted_verifier x vid (verifier_of s)"
  shows "granted_verifier x vid (verifier_of s')"
  using assms(1)
proof (cases rule: node_step_verifier)
  case (token t)
  with assms(2) show ?thesis by (simp add: granted_verifier_def)
qed (use assms(2) in \<open>auto intro: granted_verify granted_begin granted_finish\<close>)

section \<open>Authorised commands\<close>

text \<open>
  The actuator values \<open>c\<close> are what a packet stands for that was delivered over the data channel, by the
  operator of a session the gateway granted for this vehicle, before that session's end, within
  100 milliseconds of the time it carries, and with a signature over the packet's text that the
  key of the session verifies.
\<close>

definition authorised :: "'k lib \<Rightarrow> agent_args \<Rightarrow> actuation \<Rightarrow> bool" where
  "authorised x a c \<longleftrightarrow>
     (\<exists>r s key data identity raw sender packet sid operator wall now_ms ts msg m sg signature.
        gateway_grant x (arg_vehicle a) r s key
      \<and> on_data data identity = Some (raw, sender) \<and> json_loads (rec_limit x) raw = Inr packet
      \<and> py_getitem packet (u ''session_id'') = Inr sid \<and> py_eq sid (session_id s)
      \<and> py_str (printable x) (operator_id s) = Inr operator \<and> sender = u ''operator-'' @ operator
      \<and> millis wall = Inr now_ms \<and> now_ms \<le> expires_at_ms s
      \<and> int_field packet ''timestamp_ms'' = Inr ts \<and> \<bar>now_ms - ts\<bar> \<le> 100
      \<and> build_sign_message (printable x) packet = Inr msg \<and> utf8_encode msg = Inr m
      \<and> py_getitem packet (u ''signature'') = Inr sg \<and> b64decode True sg = Inr signature
      \<and> verify_sig x key m signature = Inr ()
      \<and> rbind (py_getitem packet (u ''command'')) resolve_command = Inr c)"

lemma accepted_is_authorised:
  assumes "verify_packet x raw sender wall now v = (v', Inr (Some packet))"
    and "granted_verifier x (arg_vehicle a) v" and "on_data data identity = Some (raw, sender)"
    and "rbind (py_getitem packet (u ''command'')) resolve_command = Inr c"
  shows "authorised x a c"
proof -
  from assms(1) obtain s key where s: "session v = Some s" "verify_key v = Some key"
    and body: "verify_body x v s key raw sender wall = Inr (Passed packet)"
    by (auto simp: verify_packet_Some)
  obtain r where r: "gateway_grant x (arg_vehicle a) r s key" and window: "max_age_ms v = 100" "max_future_skew_ms v = 100"
    using assms(2) s by (auto simp: granted_verifier_def)
  from body obtain now_ms ts where b: "json_loads (rec_limit x) raw = Inr packet"
    "verify_sender (printable x) s packet sender = Inr True" "millis wall = Inr now_ms" "now_ms \<le> expires_at_ms s"
    "int_field packet ''timestamp_ms'' = Inr ts" "now_ms - ts \<le> 100" "ts - now_ms \<le> 100"
    "check_signature x key packet = Inr ()"
    using window by (auto simp: verify_body_Passed)
  from b(2) obtain sid operator where "py_getitem packet (u ''session_id'') = Inr sid" "py_eq sid (session_id s)"
    "py_str (printable x) (operator_id s) = Inr operator" "sender = u ''operator-'' @ operator"
    by (auto simp: verify_sender_def rbind_iffs split: if_splits)
  moreover from b(8) obtain msg m sg signature where "build_sign_message (printable x) packet = Inr msg"
    "utf8_encode msg = Inr m" "py_getitem packet (u ''signature'') = Inr sg" "b64decode True sg = Inr signature"
    "verify_sig x key m signature = Inr ()"
    by (auto simp: check_signature_def rbind_iffs)
  moreover have "\<bar>now_ms - ts\<bar> \<le> 100" using b(6,7) by linarith
  ultimately show ?thesis
    using r b(1,3,4,5) assms(3,4) unfolding authorised_def by blast
qed

definition authority_inv :: "'k lib \<Rightarrow> agent_args \<Rightarrow> 'k node \<Rightarrow> bool" where
  "authority_inv x a s \<longleftrightarrow>
     granted_verifier x (arg_vehicle a) (verifier_of s)
   \<and> (\<forall>(cmd, c) \<in> set (applied_of (outputs (brake_of s))). authorised x a c)"

lemma authority_step:
  assumes "node_step x a e s s'" and "authority_inv x a s"
  shows "authority_inv x a s'"
proof -
  have granted: "granted_verifier x (arg_vehicle a) (verifier_of s)"
    and old: "\<forall>(cmd, c) \<in> set (applied_of (outputs (brake_of s))). authorised x a c"
    using assms(2) by (simp_all add: authority_inv_def)
  from assms(1) have "\<forall>(cmd, c) \<in> set (applied_of (outputs (brake_of s'))). authorised x a c"
  proof (cases rule: node_step_brake)
    case (applied data identity raw sender t out packet c)
    with old accepted_is_authorised [OF applied(5) granted applied(2) applied(8)] show ?thesis
      by (auto simp: ebc.applied_apply)
  qed (use old in \<open>simp_all add: ebc.applied_brake\<close>)
  with granted_step [OF assms(1) granted] show ?thesis by (simp add: authority_inv_def)
qed

lemma authority_reachable: "node_reachable x a s \<Longrightarrow> authority_inv x a s"
proof (induction rule: node_reachable.induct)
  case (started loaded token_ex now livekit_ex token manager lk created session_ex)
  have "applied_of (outputs (brake_of (start_node x a token manager created session_ex))) = []"
    by (simp add: start_node_def Let_def new_runtime_def new_brake_def applied_of_def)
  with granted_start show ?case by (simp add: authority_inv_def)
qed (rule authority_step)

lemma applied_of_iff: "(cmd, c) \<in> set (applied_of es) \<longleftrightarrow> AppliedControl cmd c \<in> set es"
  by (auto simp: applied_of_def split: brake_event.splits)

text \<open>
  C4: Every command the brake controller ever applied was authorised: in every reachable state of the
  node, whatever was delivered and however the tasks interleaved, a command in the controller's
  output came from the packet handler, with values in range, and stands for a packet the operator
  of a session that the gateway granted for this vehicle signed with that session's key, no more
  than 100 milliseconds from the time in the packet and before the session expired.
\<close>

theorem applied_commands_authorised:
  assumes "node_reachable x a s" and "AppliedControl cmd c \<in> set (outputs (brake_of s))"
  shows "cmd = PStr (u ''remote'') \<and> drivable c \<and> authorised x a c"
proof -
  have c: "(cmd, c) \<in> set (applied_of (outputs (brake_of s)))"
    using assms(2) by (simp add: applied_of_iff)
  with authority_reachable [OF assms(1)] have "authorised x a c"
    by (auto simp: authority_inv_def)
  moreover have "cmd = PStr (u ''remote'') \<and> drivable c"
    using node_reachable_inv [OF assms(1)] c by (auto simp: node_inv_def runtime_inv_def brake_inv_def)
  ultimately show ?thesis by blast
qed

text \<open>The sample node after it was sent the sample packet.\<close>

lemma sample_driven:
  obtains s where "node_reachable sample_lib sample_args s"
    "AppliedControl (PStr (u ''remote'')) sample_actuation \<in> set (outputs (brake_of s))"
proof -
  have "verifier (rt sample_node) = sample_verifier"
    by (simp add: sample_node_def sample_runtime_def new_runtime_def)
  then obtain r' where r':
    "on_datachannel_message sample_lib sample_raw (u ''operator-a'') sample_readings (rt sample_node) = (r', Inr ())"
    "brake_controller r' = apply_control (PStr (u ''remote'')) sample_actuation (brake_of sample_node)"
    by (rule sample_drives)
  show ?thesis
    by (rule that [OF node_reachable.stepped [OF sample_reachable node_step.packet [OF sample_delivery r'(1) refl]]])
      (simp add: r'(2) ebc.apply_out)
qed

theorem applied_commands_authorised_witness:
  "\<exists>s. node_reachable sample_lib sample_args s
     \<and> AppliedControl (PStr (u ''remote'')) sample_actuation \<in> set (outputs (brake_of s))
     \<and> authorised sample_lib sample_args sample_actuation"
proof (rule sample_driven)
  fix s
  assume s: "node_reachable sample_lib sample_args s"
    "AppliedControl (PStr (u ''remote'')) sample_actuation \<in> set (outputs (brake_of s))"
  from applied_commands_authorised [OF s] s show ?thesis by blast
qed

section \<open>The invariant of the node\<close>

text \<open>
  C9: In every reachable state of the node, whatever arrived and however the tasks interleaved: all
  commands that ever reached the brake controller came from the packet handler, had actuator
  values in range and were authorised (a granted session of this vehicle, its operator, a signature
  that its key verifies, in time); the emergency latch is what the controller's output says it is;
  no recorded latency is negative; and the verifier is well formed and without a session during a
  refresh.
\<close>

theorem node_invariant:
  assumes "node_reachable x a s"
  shows "(\<forall>cmd c. (cmd, c) \<in> set (applied_of (outputs (brake_of s))) \<longrightarrow>
        cmd = PStr (u ''remote'') \<and> drivable c \<and> authorised x a c)
    \<and> latch_of False (outputs (brake_of s)) = in_emergency (brake_of s)
    \<and> (\<forall>l \<in> set (latencies (rt s)). 0 \<le> l) \<and> 0 \<le> lost_count (rt s)
    \<and> wf_verifier (verifier (rt s))
    \<and> (in_flight s = None \<or> session (verifier (rt s)) = None)"
  using node_reachable_inv [OF assms] authority_reachable [OF assms]
  by (auto simp: node_inv_def runtime_inv_def brake_inv_def counters_inv_def refreshing_inv_def
      authority_inv_def split: option.splits)

theorem node_invariant_witness:
  "\<exists>s. node_reachable sample_lib sample_args s \<and> applied_of (outputs (brake_of s)) \<noteq> []
     \<and> authorised sample_lib sample_args sample_actuation
     \<and> latch_of False (outputs (brake_of s)) = in_emergency (brake_of s)"
proof (rule sample_driven)
  fix s
  assume s: "node_reachable sample_lib sample_args s"
    "AppliedControl (PStr (u ''remote'')) sample_actuation \<in> set (outputs (brake_of s))"
  then have c: "(PStr (u ''remote''), sample_actuation) \<in> set (applied_of (outputs (brake_of s)))"
    by (simp add: applied_of_iff)
  from node_invariant [OF s(1)] have "latch_of False (outputs (brake_of s)) = in_emergency (brake_of s)"
    "authorised sample_lib sample_args sample_actuation" using c by blast+
  moreover have "applied_of (outputs (brake_of s)) \<noteq> []" using c by auto
  ultimately show ?thesis using s(1) by blast
qed

end
