(* ===== verification/Node_Replay.thy ===== *)
theory Node_Replay
  imports Node_Authority
begin

text \<open>
  No message drives the vehicle twice, over whole runs of the node: refreshes of the session
  included, those that fail and forget the recorded sequence too. What makes the difference is the
  pause of \<open>_periodic_session_refresh\<close>, which is longer than the time a message is fresh.
\<close>

section \<open>A message that was accepted\<close>

definition stamp :: "pyval \<Rightarrow> int res \<times> int res" where
  "stamp packet = (int_field packet ''sequence'', int_field packet ''timestamp_ms'')"

definition of_session :: "pystr \<Rightarrow> pyval \<Rightarrow> bool" where
  "of_session sid packet \<longleftrightarrow> py_getitem packet (u ''session_id'') = Inr (PStr sid)"

definition holds_session :: "pystr \<Rightarrow> 'k verifier \<Rightarrow> bool" where
  "holds_session sid v \<longleftrightarrow> (\<exists>s. session v = Some s \<and> session_id s = PStr sid)"

lemma accepted_stamp:
  assumes "verify_packet x raw sender wall now v = (v', Inr (Some packet))" and "of_session sid packet"
    and "granted_verifier x vid v"
  obtains t ts where "millis wall = Inr t" "stamp packet = (Inr (last_sequence v'), Inr ts)" "\<bar>t - ts\<bar> \<le> 100"
    "last_sequence v < last_sequence v'" "holds_session sid v" "holds_session sid v'"
proof -
  from assms(1) obtain s key where s: "session v = Some s" "verify_key v = Some key"
    and body: "verify_body x v s key raw sender wall = Inr (Passed packet)"
    by (auto simp: verify_packet_Some)
  note state = verify_accept_state [OF assms(1)]
  have window: "max_age_ms v = 100" "max_future_skew_ms v = 100"
    using assms(3) by (simp_all add: granted_verifier_def)
  from body obtain t ts where t: "millis wall = Inr t" "int_field packet ''timestamp_ms'' = Inr ts"
    "t - ts \<le> 100" "ts - t \<le> 100" "verify_sender (printable x) s packet sender = Inr True"
    using window by (auto simp: verify_body_Passed)
  have "session_id s = PStr sid"
    using t(5) assms(2) by (auto simp: verify_sender_True of_session_def py_eq_str_iff')
  then have "holds_session sid v" "holds_session sid v'"
    using s(1) state(1) by (simp_all add: holds_session_def)
  with that [of t ts] t state(5,6) show ?thesis by (simp add: stamp_def)
qed

section \<open>The protection of an accepted message\<close>

text \<open>
  A message of the session \<open>sid\<close> with sequence number \<open>n\<close> that was accepted at the time \<open>since\<close>
  cannot be accepted again: it is too old by now, or the number is recorded, in the verifier or in
  the local variables of a refresh. A verifier without the session does no harm once an answer has
  come, because by the time of the next one the message is too old.
\<close>

definition spent :: "pystr \<Rightarrow> int \<Rightarrow> int \<Rightarrow> int \<Rightarrow> int \<Rightarrow> 'k node \<Rightarrow> bool" where
  "spent sid n since now ready s \<longleftrightarrow>
     since + 200 < now
   \<or> (case in_flight s of
        Some loc \<Rightarrow> previous_session_id loc = PStr sid \<and> n \<le> previous_sequence loc
      | None \<Rightarrow> (holds_session sid (verifier_of s) \<longrightarrow> n \<le> last_sequence (verifier_of s))
              \<and> (holds_session sid (verifier_of s) \<or> since + refresh_pause_ms \<le> ready))"

lemma spent_late: "since + 200 < now \<Longrightarrow> spent sid n since now ready s"
  by (simp add: spent_def)

lemma spent_later: "spent sid n since now ready s \<Longrightarrow> now \<le> t \<Longrightarrow> ready \<le> ready' \<Longrightarrow> spent sid n since t ready' s"
  by (auto simp: spent_def split: option.splits)

lemma spent_frame:
  "spent sid n since now ready s \<Longrightarrow> in_flight s' = in_flight s \<Longrightarrow>
   session (verifier_of s') = session (verifier_of s) \<Longrightarrow> last_sequence (verifier_of s) \<le> last_sequence (verifier_of s') \<Longrightarrow>
     spent sid n since now ready s'"
  by (auto simp: spent_def holds_session_def split: option.splits)

lemma spent_delivery:
  assumes "spent sid n since now ready s" and "node_inv s"
    and "outcome = verification_of x raw sender wall mtime (verifier_of s)" and "outcome \<noteq> Unloads"
    and "verifier r = fst (verify_packet x raw sender wall mtime (verifier_of s))"
  shows "spent sid n since now ready (s\<lparr>rt := r\<rparr>)"
proof (cases "\<exists>packet. outcome = Accepts packet")
  case True
  then obtain packet where
    "verify_packet x raw sender wall mtime (verifier_of s) = (verifier r, Inr (Some packet))"
    using assms(3,5) by (auto simp: verification_of_Accepts dest!: sym [of "Accepts _"])
  from verify_accept_state [OF this] show ?thesis
    by (intro spent_frame [OF assms(1)]) simp_all
next
  case False
  with verification_of_kept(2) [OF assms(3) [symmetric]] assms(4,5)
  have "verifier r = verifier_of s \<or> session (verifier_of s) = None" by auto
  moreover have "verifier r = verifier_of s" if "session (verifier_of s) = None"
    using that assms(5) verify_disarmed [of "verifier_of s"] by simp
  ultimately show ?thesis by (intro spent_frame [OF assms(1)]) auto
qed

lemma spent_asks:
  assumes "spent sid n since now ready s" and "in_flight s = None" and "ready \<le> t" and "now \<le> t"
    and "refresh_begin (verifier_of s) = (v, loc, req)"
  shows "spent sid n since t ready (s\<lparr>rt := (rt s)\<lparr>verifier := v\<rparr>, in_flight := Some loc\<rparr>)"
proof (cases "holds_session sid (verifier_of s) \<and> n \<le> last_sequence (verifier_of s)")
  case True
  then show ?thesis
    using assms(5) by (auto simp: spent_def holds_session_def refresh_begin_def)
next
  case False
  with assms(1-4) show ?thesis by (auto simp: spent_def refresh_pause_ms_def)
qed

lemma spent_gets:
  assumes "spent sid n since now ready s" and "in_flight s = Some loc" and "node_inv s"
    and "since \<le> now" and "now \<le> t" and "refresh_finish x loc ex (verifier_of s) = (v, out)"
  shows "spent sid n since t (t + refresh_pause_ms) (s\<lparr>rt := (rt s)\<lparr>verifier := v\<rparr>, in_flight := None\<rparr>)"
proof (cases "since + 200 < now")
  case False
  then have loc: "previous_session_id loc = PStr sid" "n \<le> previous_sequence loc"
    using assms(1,2) by (simp_all add: spent_def)
  have none: "session (verifier_of s) = None"
    using assms(2,3) by (simp add: node_inv_def refreshing_inv_def)
  from assms(6) have "holds_session sid v \<longrightarrow> n \<le> last_sequence v"
    by (cases rule: refresh_finish_cases) (use loc none in \<open>auto simp: holds_session_def\<close>)
  with assms(4,5) show ?thesis by (auto simp: spent_def)
qed (use assms(5) in \<open>simp add: spent_def\<close>)

lemma spent_step:
  assumes "node_step x a e s s'" and "spent sid n since now ready s" and "node_inv s"
    and "since \<le> now" and "paced now ready ((t, e) # es)" and "\<And>raw sender r. e \<noteq> Delivers raw sender r Unloads"
  shows "spent sid n since t (case e of Gets ex \<Rightarrow> t + refresh_pause_ms | _ \<Rightarrow> ready) s'"
proof -
  have now: "now \<le> t" using assms(5) by simp
  have here: "spent sid n since t ready s" using spent_later [OF assms(2) now] by simp
  from assms(1) show ?thesis
  proof (cases rule: node_step.cases)
    case (packet data identity raw sender r rr out outcome)
    have "spent sid n since t ready (s\<lparr>rt := rr\<rparr>)"
      by (rule spent_delivery [OF here assms(3) packet(5)])
        (use packet(1) assms(6) on_message_verifier [OF packet(4)] in auto)
    with packet(1,2) show ?thesis by simp
  next
    case (refresh_starts v loc req)
    with spent_asks [OF assms(2) refresh_starts(4) _ now refresh_starts(5)] assms(5) show ?thesis by simp
  next
    case (refresh_returns loc ex v out)
    with spent_gets [OF assms(2) refresh_returns(4) assms(3,4) now refresh_returns(5)] show ?thesis by simp
  next
    case (watchdog now na r braked)
    with watchdog_effect(1) [OF watchdog(4)] spent_frame [OF here, of s'] show ?thesis by simp
  next
    case (watchdog_raises now na r e)
    with watchdog_effect(1) [OF watchdog_raises(4)] spent_frame [OF here, of s'] show ?thesis by (simp add: shut_down_def)
  next
    case (audit_takes r evs)
    with spent_frame [OF here, of s'] show ?thesis by (auto simp: audit_take_def)
  next
    case (telemetry_reports r report)
    with telemetry_effect [OF telemetry_reports(5)] spent_frame [OF here, of s'] show ?thesis by auto
  next
    case (telemetry_raises r e)
    with telemetry_effect [OF telemetry_raises(5)] spent_frame [OF here, of s'] show ?thesis by (auto simp: shut_down_def)
  qed (use spent_frame [OF here, of s'] in \<open>simp_all add: shut_down_def\<close>)
qed

lemma spent_refuses:
  assumes "spent sid n since now ready s" and "node_inv s" and "granted_verifier x vid (verifier_of s)"
    and "verify_packet x raw sender wall mtime (verifier_of s) = (v', Inr (Some packet))" and "of_session sid packet"
    and "millis wall = Inr t" and "now \<le> t" and "\<bar>since - ts\<bar> \<le> 100"
  shows "stamp packet \<noteq> (Inr n, Inr ts)"
proof
  assume same: "stamp packet = (Inr n, Inr ts)"
  from accepted_stamp [OF assms(4,5,3)] obtain t' ts' where a: "millis wall = Inr t'"
    "stamp packet = (Inr (last_sequence v'), Inr ts')" "\<bar>t' - ts'\<bar> \<le> 100"
    "last_sequence (verifier_of s) < last_sequence v'" "holds_session sid (verifier_of s)" by metis
  then have "in_flight s = None"
    using assms(2) by (auto simp: node_inv_def refreshing_inv_def holds_session_def split: option.splits)
  with assms(1,6-8) same a show False by (auto simp: spent_def)
qed

section \<open>Whole runs\<close>

lemma spent_run:
  assumes "node_run x a s (map snd es) s'" and "spent sid n since now ready s" and "node_reachable x a s"
    and "since \<le> now" and "paced now ready es" and "\<bar>since - ts\<bar> \<le> 100"
    and "\<And>time raw sender r. (time, Delivers raw sender r Unloads) \<notin> set es"
    and "packet \<in> set (accepted_of (map snd es))" and "of_session sid packet"
  shows "stamp packet \<noteq> (Inr n, Inr ts)"
  using assms
proof (induction es arbitrary: s now ready)
  case (Cons te es)
  obtain t e where te: "te = (t, e)" by fastforce
  obtain s1 where step: "node_step x a e s s1" and run: "node_run x a s1 (map snd es) s'"
    using Cons.prems(1) te by (auto simp: node_run_Cons)
  have inv: "node_inv s" using node_reachable_inv [OF Cons.prems(3)] .
  have granted: "granted_verifier x (arg_vehicle a) (verifier_of s)"
    using authority_reachable [OF Cons.prems(3)] by (simp add: authority_inv_def)
  have paced: "paced now ready ((t, e) # es)" using Cons.prems(5) te by simp
  from Cons.prems(8) consider raw sender r where "e = Delivers raw sender r (Accepts packet)"
    | "packet \<in> set (accepted_of (map snd es))"
    by (auto simp: te accepted_of_Cons split: node_event.splits verification.splits)
  then show ?case
  proof cases
    case 1
    from step have "verification_of x raw sender (verify_wall r) (verify_mono r) (verifier_of s) = Accepts packet"
      unfolding 1 by (cases rule: node_step.cases) simp
    then obtain v' where v': "verify_packet x raw sender (verify_wall r) (verify_mono r) (verifier_of s)
        = (v', Inr (Some packet))"
      by (auto simp: verification_of_Accepts)
    from spent_refuses [OF Cons.prems(2) inv granted v' Cons.prems(9) _ _ Cons.prems(6)] paced 1
    show ?thesis by auto
  next
    case 2
    have "spent sid n since t (case e of Gets ex \<Rightarrow> t + refresh_pause_ms | _ \<Rightarrow> ready) s1"
      by (rule spent_step [OF step Cons.prems(2) inv Cons.prems(4) paced]) (use Cons.prems(7) te in auto)
    from Cons.IH [OF run this node_reachable.stepped [OF Cons.prems(3) step] _ _ Cons.prems(6) _ 2 Cons.prems(9)]
      Cons.prems(4,7) paced te
    show ?thesis by auto
  qed
qed simp

lemma accepted_is_spent:
  assumes "node_step x a (Delivers raw sender r (Accepts packet)) s s'" and "node_reachable x a s"
    and "of_session sid packet" and "millis (verify_wall r) = Inr t"
  obtains n ts where "stamp packet = (Inr n, Inr ts)" "\<bar>t - ts\<bar> \<le> 100" "\<And>ready. spent sid n t t ready s'"
proof -
  have inv: "node_inv s" using node_reachable_inv [OF assms(2)] .
  have granted: "granted_verifier x (arg_vehicle a) (verifier_of s)"
    using authority_reachable [OF assms(2)] by (simp add: authority_inv_def)
  from assms(1) obtain rr out where d: "on_datachannel_message x raw sender r (rt s) = (rr, out)"
    "s' = s\<lparr>rt := rr\<rparr>" "verification_of x raw sender (verify_wall r) (verify_mono r) (verifier_of s) = Accepts packet"
    by (cases rule: node_step.cases) auto
  then have "verify_packet x raw sender (verify_wall r) (verify_mono r) (verifier_of s)
      = (verifier_of s', Inr (Some packet))"
    using on_message_verifier [OF d(1)] by (auto simp: verification_of_Accepts)
  from accepted_stamp [OF this assms(3) granted] assms(4) obtain ts where
    a: "stamp packet = (Inr (last_sequence (verifier_of s')), Inr ts)" "\<bar>t - ts\<bar> \<le> 100"
    "holds_session sid (verifier_of s)" "holds_session sid (verifier_of s')" by (metis Inr_inject)
  have "in_flight s' = None"
    using inv a(3) d(2) by (auto simp: node_inv_def refreshing_inv_def holds_session_def split: option.splits)
  with a that [OF a(1,2)] show ?thesis by (simp add: spent_def)
qed

text \<open>
  C32: No message drives the vehicle twice. Take any run of the agent, from any reachable state, in which
  the wall clock does not go back, the periodic refresh pauses for a second between an answer and
  its next request, as the code does, and no delivery finds the session expired: whatever else
  happens, refreshes that fail and forget the recorded sequence and sessions that end and come back
  included, the packets accepted for one session identifier all differ in their sequence number or
  their timestamp.
\<close>

theorem no_message_twice:
  assumes "node_reachable x a s" and "node_run x a s (map snd es) s'" and "paced now ready es"
    and "\<And>time raw sender r. (time, Delivers raw sender r Unloads) \<notin> set es"
  shows "distinct (map stamp (filter (of_session sid) (accepted_of (map snd es))))"
  using assms
proof (induction es arbitrary: s now ready)
  case (Cons te es)
  obtain t e where te: "te = (t, e)" by fastforce
  obtain s1 where step: "node_step x a e s s1" and run: "node_run x a s1 (map snd es) s'"
    using Cons.prems(2) te by (auto simp: node_run_Cons)
  note reach = node_reachable.stepped [OF Cons.prems(1) step]
  obtain ready' where paced: "paced t ready' es" using Cons.prems(3) te by auto
  have rest: "distinct (map stamp (filter (of_session sid) (accepted_of (map snd es))))"
    by (rule Cons.IH [OF reach run paced]) (use Cons.prems(4) in auto)
  show ?case
  proof (cases "\<exists>raw sender r packet. e = Delivers raw sender r (Accepts packet) \<and> of_session sid packet")
    case True
    then obtain raw sender r packet where e: "e = Delivers raw sender r (Accepts packet)" "of_session sid packet"
      by blast
    have t: "millis (verify_wall r) = Inr t" using Cons.prems(3) te e by simp
    from accepted_is_spent [OF step [unfolded e(1)] Cons.prems(1) e(2) t] obtain n ts where
      a: "stamp packet = (Inr n, Inr ts)" "\<bar>t - ts\<bar> \<le> 100" "\<And>ready. spent sid n t t ready s1" by blast
    have "stamp packet \<notin> stamp ` set (filter (of_session sid) (accepted_of (map snd es)))"
    proof
      assume "stamp packet \<in> stamp ` set (filter (of_session sid) (accepted_of (map snd es)))"
      then obtain q where q: "q \<in> set (accepted_of (map snd es))" "of_session sid q" "stamp packet = stamp q"
        by auto
      from spent_run [OF run a(3) reach _ paced a(2) _ q(1,2)] Cons.prems(4) a(1) q(3) show False by auto
    qed
    with rest te e show ?thesis by (simp add: accepted_of_Cons)
  next
    case False
    with rest te show ?thesis by (auto simp: accepted_of_Cons split: node_event.splits verification.splits)
  qed
qed simp

definition f2 :: pyfloat where
  "f2 = Fin False 4503599627370496 (-51)"

definition later_readings :: readings where
  "later_readings = \<lparr>verify_wall = f2, verify_mono = f2, handler_wall = f2, audit_mono = f2\<rparr>"

lemma later_millis: "millis (verify_wall later_readings) = Inr 2000"
  by (simp add: later_readings_def f2_def millis_def float_eval)

lemma refresh_run:
  assumes "alive s" and "in_flight s = None" and "refresh_begin (verifier_of s) = (v, loc, req)"
    and "refresh_finish x loc ex v = (v', out)" and "\<not> session_refresh_ends out"
  obtains s' where "node_run x a s [Asks req, Gets ex] s'" "alive s'" "in_flight s' = None" "verifier_of s' = v'"
proof -
  define s1 where "s1 = s\<lparr>rt := (rt s)\<lparr>verifier := v\<rparr>, in_flight := Some loc\<rparr>"
  define s' where "s' = s1\<lparr>rt := (rt s1)\<lparr>verifier := v'\<rparr>, in_flight := None\<rparr>"
  have one: "node_step x a (Asks req) s s1"
    unfolding s1_def by (rule node_step.refresh_starts [OF assms(1-3)])
  have two: "node_step x a (Gets ex) s1 s'"
    unfolding s'_def by (rule node_step.refresh_returns [OF _ _ _ assms(5), of _ loc]) (use assms(1,4) in \<open>simp_all add: s1_def\<close>)
  show ?thesis
    by (rule that [OF node_run.onward [OF one node_run.onward [OF two node_run.here]]])
      (simp_all add: s'_def s1_def assms(1))
qed

lemma sample_fails:
  assumes "alive s" and "in_flight s = None"
  obtains req s' where "node_run x a s [Asks req, Gets (Inl ClientError)] s'" "alive s'" "in_flight s' = None"
    "vehicle_id (verifier_of s') = vehicle_id (verifier_of s)"
proof -
  obtain v loc req where b: "refresh_begin (verifier_of s) = (v, loc, req)" by (rule prod_cases3)
  have f: "refresh_finish x loc (Inl ClientError) v = (v, Inl ClientError)" by (simp add: refresh_finish_def)
  have "\<not> session_refresh_ends (Inl ClientError)" by (simp add: session_refresh_ends_def is_Exception_def)
  from refresh_run [OF assms b f this] obtain s' where
    "node_run x a s [Asks req, Gets (Inl ClientError)] s'" "alive s'" "in_flight s' = None" "verifier_of s' = v"
    by blast
  with that refresh_begin_clears(5) [OF b] show ?thesis by simp
qed

lemma sample_refreshes:
  assumes "alive s" and "in_flight s = None" and "vehicle_id (verifier_of s) = u ''car-001''"
  obtains req s' where "node_run sample_lib a s [Asks req, Gets (Inr sample_response)] s'"
    "session (verifier_of s') = Some sample_session"
proof -
  obtain v loc req where b: "refresh_begin (verifier_of s) = (v, loc, req)" by (rule prod_cases3)
  have "vehicle_id v = u ''car-001''" using refresh_begin_clears(5) [OF b] assms(3) by simp
  note g = refresh_finish_granted [OF sample_grants [OF this], of loc]
  have "\<not> session_refresh_ends (Inr ())" by (simp add: session_refresh_ends_def)
  from refresh_run [OF assms(1,2) b g this] obtain s' where "node_run sample_lib a s [Asks req, Gets (Inr sample_response)] s'"
    "verifier_of s' = v\<lparr>session := Some sample_session, verify_key := Some [0, 0, 0],
       last_sequence := if py_eq (session_id sample_session) (previous_session_id loc)
                        then previous_sequence loc else last_sequence v\<rparr>" by blast
  with that show ?thesis by simp
qed

text \<open>The sample packet is accepted, a refresh fails, the next one loads the session again.\<close>

lemma sample_forgets:
  obtains req req' s where "node_run sample_lib sample_args sample_node
      [Delivers sample_raw (u ''operator-a'') sample_readings (Accepts sample_packet),
       Asks req, Gets (Inl ClientError), Asks req', Gets (Inr sample_response)] s"
    "session (verifier_of s) = Some sample_session"
proof -
  have v: "verifier_of sample_node = sample_verifier"
    by (simp add: sample_node_def sample_runtime_def new_runtime_def)
  have accepts: "verification_of sample_lib sample_raw (u ''operator-a'') (verify_wall sample_readings)
      (verify_mono sample_readings) (verifier_of sample_node) = Accepts sample_packet"
    using sample_accepted by (simp add: verification_of_Accepts sample_readings_def v)
  obtain r out where r: "on_datachannel_message sample_lib sample_raw (u ''operator-a'') sample_readings (rt sample_node) = (r, out)"
    by fastforce
  define s1 where "s1 = sample_node\<lparr>rt := r\<rparr>"
  have one: "node_step sample_lib sample_args
      (Delivers sample_raw (u ''operator-a'') sample_readings (Accepts sample_packet)) sample_node s1"
    unfolding s1_def by (rule node_step.packet [OF sample_delivery r accepts [symmetric]])
  have "vehicle_id (verifier_of s1) = u ''car-001''" "alive s1" "in_flight s1 = None"
    using on_message_verifier [OF r] sample_accepted
    by (simp_all add: s1_def v sample_readings_def) (simp_all add: sample_verifier_def sample_node_def)
  with sample_fails [of s1 sample_lib sample_args] obtain req s2 where
    two: "node_run sample_lib sample_args s1 [Asks req, Gets (Inl ClientError)] s2" "alive s2" "in_flight s2 = None"
      "vehicle_id (verifier_of s2) = u ''car-001''" by metis
  from sample_refreshes [OF two(2-4), of sample_args] obtain req' s3 where
    three: "node_run sample_lib sample_args s2 [Asks req', Gets (Inr sample_response)] s3"
      "session (verifier_of s3) = Some sample_session" by metis
  from node_run.onward [OF one node_run_append [OF two(1) three(1)]] show ?thesis
    using that [OF _ three(2)] by simp
qed

lemma sample_not_expired:
  assumes "session v = Some sample_session"
  shows "verification_of x raw sender (verify_wall later_readings) now v \<noteq> Unloads"
proof
  obtain w res where run: "verify_packet x raw sender (verify_wall later_readings) now v = (w, res)" by fastforce
  assume "verification_of x raw sender (verify_wall later_readings) now v = Unloads"
  then have "res = Inr None" "session w = None"
    using run by (auto simp: verification_of_def split: sum.splits option.splits if_splits)
  with verify_refuses [OF run] assms later_millis show False by (auto simp: sample_session_def)
qed

text \<open>The packet comes back a second later.\<close>

theorem no_message_twice_witness:
  "\<exists>req req' outcome s'.
     node_run sample_lib sample_args sample_node
       [Delivers sample_raw (u ''operator-a'') sample_readings (Accepts sample_packet),
        Asks req, Gets (Inl ClientError), Asks req', Gets (Inr sample_response),
        Delivers sample_raw (u ''operator-a'') later_readings outcome] s'
   \<and> of_session (u ''s1'') sample_packet \<and> outcome \<noteq> Accepts sample_packet"
proof (rule sample_forgets)
  fix req req' s
  assume s: "node_run sample_lib sample_args sample_node
      [Delivers sample_raw (u ''operator-a'') sample_readings (Accepts sample_packet),
       Asks req, Gets (Inl ClientError), Asks req', Gets (Inr sample_response)] s"
    "session (verifier_of s) = Some sample_session"
  obtain r out where r: "on_datachannel_message sample_lib sample_raw (u ''operator-a'') later_readings (rt s) = (r, out)"
    by fastforce
  define outcome where "outcome = verification_of sample_lib sample_raw (u ''operator-a'')
      (verify_wall later_readings) (verify_mono later_readings) (verifier_of s)"
  have last: "node_step sample_lib sample_args
      (Delivers sample_raw (u ''operator-a'') later_readings outcome) s (s\<lparr>rt := r\<rparr>)"
    by (rule node_step.packet [OF sample_delivery r outcome_def])
  have known: "outcome \<noteq> Unloads" unfolding outcome_def by (rule sample_not_expired [OF s(2)])
  let ?es = "[(1000::int, Delivers sample_raw (u ''operator-a'') sample_readings (Accepts sample_packet)),
    (1000, Asks req), (1000, Gets (Inl ClientError)), (2000, Asks req'), (2000, Gets (Inr sample_response)),
    (2000, Delivers sample_raw (u ''operator-a'') later_readings outcome)]"
  have run: "node_run sample_lib sample_args sample_node (map snd ?es) (s\<lparr>rt := r\<rparr>)"
    using node_run_append [OF s(1) node_run.onward [OF last node_run.here]] by simp
  have paced: "paced 0 0 ?es"
    by (simp add: later_millis refresh_pause_ms_def) (simp add: sample_readings_def sample_millis)
  have sid: "of_session (u ''s1'') sample_packet" by (simp add: of_session_def sample_packet_def)
  have "distinct (map stamp (filter (of_session (u ''s1'')) (accepted_of (map snd ?es))))"
    by (rule no_message_twice [OF sample_reachable run paced]) (use known in auto)
  then have "outcome \<noteq> Accepts sample_packet" using sid by (auto simp: accepted_of_Cons)
  with run sid show ?thesis by auto
qed

end
