(* ===== verification/Command_Line.thy ===== *)
theory Command_Line
  imports Vehicle_Node
begin

text \<open>
  \<open>_parse_args\<close> and \<open>main\<close> of \<open>vehicle_node.py\<close>. The parser is \<open>argparse\<close> of CPython 3.11.10 on
  the options the program declares: every option but \<open>--help\<close> takes one value, there are no
  positional arguments, and unique prefixes of an option stand for it.
\<close>

section \<open>The options\<close>

datatype cli_option =
    Opt_Help | Opt_Gateway | Opt_Vehicle_Id | Opt_Device_Config | Opt_Auth_Token | Opt_Backend_Token_Url
  | Opt_Livekit_Url | Opt_Camera_Layout | Opt_Camera_Width | Opt_Camera_Height | Opt_Camera_Fps

definition option_strings :: "(pystr \<times> cli_option) list" where
  "option_strings =
     [(u ''-h'', Opt_Help), (u ''--help'', Opt_Help), (u ''--gateway'', Opt_Gateway),
      (u ''--vehicle-id'', Opt_Vehicle_Id), (u ''--device-config'', Opt_Device_Config),
      (u ''--auth-token'', Opt_Auth_Token), (u ''--backend-token-url'', Opt_Backend_Token_Url),
      (u ''--livekit-url'', Opt_Livekit_Url), (u ''--camera-layout'', Opt_Camera_Layout),
      (u ''--camera-width'', Opt_Camera_Width), (u ''--camera-height'', Opt_Camera_Height),
      (u ''--camera-fps'', Opt_Camera_Fps)]"

text \<open>The namespace; an option that is required holds \<open>None\<close> until it is given.\<close>

record cli_args =
  cli_gateway :: "pystr option"
  cli_vehicle_id :: "pystr option"
  cli_device_config :: pystr
  cli_auth_token :: "pystr option"
  cli_backend_token_url :: "pystr option"
  cli_livekit_url :: "pystr option"
  cli_camera_layout :: pystr
  cli_camera_width :: int
  cli_camera_height :: int
  cli_camera_fps :: int

text \<open>The default of \<open>--camera-layout\<close> is the environment variable \<open>CAMERA_LAYOUT\<close>, when it is set.\<close>

definition cli_defaults :: "pystr option \<Rightarrow> cli_args" where
  "cli_defaults env =
     \<lparr>cli_gateway = None, cli_vehicle_id = None, cli_device_config = u ''/etc/teleop/device.yaml'',
      cli_auth_token = None, cli_backend_token_url = None, cli_livekit_url = None,
      cli_camera_layout = (case env of Some l \<Rightarrow> l | None \<Rightarrow> layout_text LAYOUT_OFF),
      cli_camera_width = 0, cli_camera_height = 0, cli_camera_fps = 0\<rparr>"

definition cli_required :: "cli_option list" where
  "cli_required = [Opt_Gateway, Opt_Vehicle_Id, Opt_Livekit_Url]"

section \<open>Classifying the arguments\<close>

text \<open>
  An argument is a plain word, an option with the value after its \<open>=\<close> if there is one, \<open>-h\<close> with
  more text right after it, or looks like an option and is none. \<open>--\<close> makes words of all that
  follow.
\<close>

datatype cli_token = Word pystr | Flag cli_option "pystr option" | Cluster pystr | Unknown pystr | Dashes

definition starts_with :: "pystr \<Rightarrow> pystr \<Rightarrow> bool" where
  "starts_with p s \<longleftrightarrow> take (length p) s = p"

text \<open>\<open>s.split("=", 1)\<close>\<close>

definition split_equals :: "pystr \<Rightarrow> pystr \<times> pystr option" where
  "split_equals s =
     (case dropWhile (\<lambda>c. c \<noteq> 61) s of
        [] \<Rightarrow> (s, None)
      | _ # v \<Rightarrow> (takeWhile (\<lambda>c. c \<noteq> 61) s, Some v))"

text \<open>The options a prefix may stand for; after one dash only \<open>-h\<close>.\<close>

definition prefix_matches :: "pystr \<Rightarrow> cli_token list" where
  "prefix_matches s =
     (if starts_with (u ''--'') s then
        (case split_equals s of
           (p, v) \<Rightarrow> map (\<lambda>(_, opt). Flag opt v) (filter (\<lambda>(name, _). starts_with p name) option_strings))
      else if starts_with (u ''-h'') s then [Cluster (drop 2 s)]
      else [])"

text \<open>\<open>^-\d+$|^-\d*\.\d+$\<close>; \<open>\d\<close> is any decimal digit and \<open>$\<close> allows a final newline.\<close>

definition without_newline :: "pystr \<Rightarrow> pystr" where
  "without_newline s = (if s \<noteq> [] \<and> last s = 10 then butlast s else s)"

definition negative_number :: "pystr \<Rightarrow> bool" where
  "negative_number s =
     (case without_newline s of
        [] \<Rightarrow> False
      | c # r \<Rightarrow>
          c = 45
          \<and> (r \<noteq> [] \<and> list_all (\<lambda>d. py_decimal d \<noteq> None) r
             \<or> (case dropWhile (\<lambda>d. py_decimal d \<noteq> None) r of
                  [] \<Rightarrow> False
                | p # f \<Rightarrow> p = 46 \<and> f \<noteq> [] \<and> list_all (\<lambda>d. py_decimal d \<noteq> None) f)))"

text \<open>\<open>None\<close> is an ambiguous prefix.\<close>

definition classify :: "pystr \<Rightarrow> cli_token option" where
  "classify s =
     (if \<not> starts_with (u ''-'') s then Some (Word s)
      else case map_of option_strings s of
        Some opt \<Rightarrow> Some (Flag opt None)
      | None \<Rightarrow>
          if length s = 1 then Some (Word s)
          else case (snd (split_equals s), map_of option_strings (fst (split_equals s))) of
            (Some v, Some opt) \<Rightarrow> Some (Flag opt (Some v))
          | _ \<Rightarrow>
              (case prefix_matches s of
                 [] \<Rightarrow> if negative_number s \<or> 32 \<in> set s then Some (Word s) else Some (Unknown s)
               | [t] \<Rightarrow> Some t
               | _ \<Rightarrow> None))"

fun classify_all :: "pystr list \<Rightarrow> cli_token list option" where
  "classify_all [] = Some []"
| "classify_all (s # ss) =
     (if s = u ''--'' then Some (Dashes # map Word ss)
      else case classify s of
        None \<Rightarrow> None
      | Some t \<Rightarrow> map_option (\<lambda>ts. t # ts) (classify_all ss))"

section \<open>Consuming the options\<close>

text \<open>How parsing ends: with a result, or by leaving the process with a status.\<close>

datatype 'a cli_result = Parsed 'a | Exits int

definition CHOICES :: "pystr list" where
  "CHOICES = map layout_text Enum.enum"

definition int_value :: "pystr \<Rightarrow> (int \<Rightarrow> cli_args) \<Rightarrow> cli_args cli_result" where
  "int_value s f = (case int_of_str s of Inl _ \<Rightarrow> Exits 2 | Inr n \<Rightarrow> Parsed (f n))"

definition store_value :: "cli_option \<Rightarrow> pystr \<Rightarrow> cli_args \<Rightarrow> cli_args cli_result" where
  "store_value opt s a =
     (case opt of
        Opt_Help \<Rightarrow> Exits 2
      | Opt_Gateway \<Rightarrow> Parsed (a\<lparr>cli_gateway := Some s\<rparr>)
      | Opt_Vehicle_Id \<Rightarrow> Parsed (a\<lparr>cli_vehicle_id := Some s\<rparr>)
      | Opt_Device_Config \<Rightarrow> Parsed (a\<lparr>cli_device_config := s\<rparr>)
      | Opt_Auth_Token \<Rightarrow> Parsed (a\<lparr>cli_auth_token := Some s\<rparr>)
      | Opt_Backend_Token_Url \<Rightarrow> Parsed (a\<lparr>cli_backend_token_url := Some s\<rparr>)
      | Opt_Livekit_Url \<Rightarrow> Parsed (a\<lparr>cli_livekit_url := Some s\<rparr>)
      | Opt_Camera_Layout \<Rightarrow> if s \<in> set CHOICES then Parsed (a\<lparr>cli_camera_layout := s\<rparr>) else Exits 2
      | Opt_Camera_Width \<Rightarrow> int_value s (\<lambda>n. a\<lparr>cli_camera_width := n\<rparr>)
      | Opt_Camera_Height \<Rightarrow> int_value s (\<lambda>n. a\<lparr>cli_camera_height := n\<rparr>)
      | Opt_Camera_Fps \<Rightarrow> int_value s (\<lambda>n. a\<lparr>cli_camera_fps := n\<rparr>))"

text \<open>
  \<open>-h\<close> and \<open>--help\<close> print the usage and leave with status 0; with a value they are an error. The text
  right after \<open>-h\<close> is read as more one-letter options: \<open>h\<close> again, or an unknown letter, which is put
  aside before the usage is printed.
\<close>

fun cluster_status :: "pystr \<Rightarrow> int" where
  "cluster_status [] = 0"
| "cluster_status (c # cs) =
     (if c = 45 then 2
      else if c \<noteq> 104 then 0
      else case cs of d # _ \<Rightarrow> if d = 61 then 2 else cluster_status cs | [] \<Rightarrow> 0)"

text \<open>The loop over the tokens: the namespace, the options seen and whether something was left over.\<close>

fun consume ::
  "cli_token list \<Rightarrow> cli_option list \<Rightarrow> bool \<Rightarrow> cli_args \<Rightarrow> (cli_option list \<times> bool \<times> cli_args) cli_result"
where
  "consume [] seen extra a = Parsed (seen, extra, a)"
| "consume (Word s # ts) seen extra a = consume ts seen True a"
| "consume (Unknown s # ts) seen extra a = consume ts seen True a"
| "consume (Cluster s # ts) seen extra a = Exits (cluster_status s)"
| "consume (Dashes # ts) seen extra a = consume ts seen True a"
| "consume (Flag opt None # ts) seen extra a =
     (if opt = Opt_Help then Exits 0
      else case ts of
        Word s # ts' \<Rightarrow>
          (case store_value opt s a of
             Parsed a' \<Rightarrow> consume ts' (opt # seen) extra a'
           | Exits n \<Rightarrow> Exits n)
      | _ \<Rightarrow> Exits 2)"
| "consume (Flag opt (Some s) # ts) seen extra a =
     (if opt = Opt_Help then Exits 2
      else case store_value opt s a of
        Parsed a' \<Rightarrow> consume ts (opt # seen) extra a'
      | Exits n \<Rightarrow> Exits n)"

text \<open>
  \<open>parse_args\<close>: an ambiguous prefix ends it before any option is looked at; a required option that
  is missing and an argument that is left over end it after all are.
\<close>

definition parse_args :: "pystr option \<Rightarrow> pystr list \<Rightarrow> cli_args cli_result" where
  "parse_args env argv =
     (case classify_all argv of
        None \<Rightarrow> Exits 2
      | Some ts \<Rightarrow>
          (case consume ts [] False (cli_defaults env) of
             Exits n \<Rightarrow> Exits n
           | Parsed (seen, extra, a) \<Rightarrow>
               if list_all (\<lambda>opt. opt \<in> set seen) cli_required \<and> \<not> extra then Parsed a else Exits 2))"

section \<open>Starting the agent\<close>

text \<open>The arguments of the call of \<open>run_agent\<close>.\<close>

record agent_call =
  call_agent :: agent_args
  call_device_config :: pystr
  call_livekit_url :: "pystr option"
  call_camera :: camera_options

definition agent_call_of :: "cli_args \<Rightarrow> agent_call res" where
  "agent_call_of a =
     rbind (main_camera_options (cli_camera_layout a) (cli_camera_width a) (cli_camera_height a)
              (cli_camera_fps a)) (\<lambda>camera.
     rbind (option_or (cli_gateway a) TypeError) (\<lambda>gateway.
     rbind (option_or (cli_vehicle_id a) TypeError) (\<lambda>vehicle.
     Inr \<lparr>call_agent = \<lparr>arg_gateway = gateway, arg_vehicle = vehicle,
                         arg_backend = cli_backend_token_url a, arg_token = cli_auth_token a\<rparr>,
          call_device_config = cli_device_config a, call_livekit_url = cli_livekit_url a,
          call_camera = camera\<rparr>)))"

text \<open>
  What \<open>main\<close> does to the event loop. A signal is handled by \<open>_shutdown\<close>: every task of the loop is
  cancelled, the stop event is set.
\<close>

datatype main_effect = Handles string | Runs agent_call | Closes_Loop

datatype 'task shutdown_effect = Cancels 'task | Sets_Stop

definition shutdown :: "'task list \<Rightarrow> 'task shutdown_effect list" where
  "shutdown all_tasks = map Cancels all_tasks @ [Sets_Stop]"

text \<open>How the event loop stops running \<open>run_agent\<close>; \<open>main\<close> catches a keyboard interrupt.\<close>

datatype run_end = Ended "unit res" | Interrupted

fun caught_interrupt :: "run_end \<Rightarrow> unit res" where
  "caught_interrupt (Ended out) = out"
| "caught_interrupt Interrupted = Inr ()"

text \<open>
  \<open>main\<close>, where \<open>run\<close> is what \<open>run_agent\<close> does until the loop stops: the process leaves with a
  status, dies of an exception, or returns. The loop is closed in each case after the arguments were read.
\<close>

definition main ::
  "(agent_call \<Rightarrow> run_end) \<Rightarrow> pystr option \<Rightarrow> pystr list \<Rightarrow> main_effect list \<times> unit res cli_result" where
  "main run env argv =
     (case parse_args env argv of
        Exits n \<Rightarrow> ([], Exits n)
      | Parsed a \<Rightarrow>
          (case agent_call_of a of
             Inl e \<Rightarrow> ([Handles ''SIGINT'', Handles ''SIGTERM'', Closes_Loop], Parsed (Inl e))
           | Inr c \<Rightarrow>
               ([Handles ''SIGINT'', Handles ''SIGTERM'', Runs c, Closes_Loop],
                Parsed (caught_interrupt (run c)))))"

end
