(* ===== verification/Command_Line_Theorems.thy ===== *)
theory Command_Line_Theorems
  imports Command_Line
begin

text \<open>The properties of the command line: what parsing it can end in, and that it reads back what was written.\<close>

section \<open>How parsing ends\<close>

text \<open>The options seen are the ones that are set, and the layout is a choice or what it was.\<close>

definition args_ok :: "pystr \<Rightarrow> cli_option list \<Rightarrow> cli_args \<Rightarrow> bool" where
  "args_ok l seen a \<longleftrightarrow>
     (Opt_Gateway \<in> set seen \<longleftrightarrow> cli_gateway a \<noteq> None) \<and> (Opt_Vehicle_Id \<in> set seen \<longleftrightarrow> cli_vehicle_id a \<noteq> None)
   \<and> (Opt_Livekit_Url \<in> set seen \<longleftrightarrow> cli_livekit_url a \<noteq> None)
   \<and> (cli_camera_layout a = l \<or> cli_camera_layout a \<in> set CHOICES)"

lemma store_value_fields:
  assumes "store_value opt s a = Parsed a'"
  shows "cli_gateway a' = (if opt = Opt_Gateway then Some s else cli_gateway a)"
    and "cli_vehicle_id a' = (if opt = Opt_Vehicle_Id then Some s else cli_vehicle_id a)"
    and "cli_livekit_url a' = (if opt = Opt_Livekit_Url then Some s else cli_livekit_url a)"
    and "cli_camera_layout a' = cli_camera_layout a \<or> cli_camera_layout a' \<in> set CHOICES"
  using assms
  by (cases opt; auto simp: store_value_def int_value_def split: if_splits sum.splits)+

lemma store_value_ok:
  assumes "store_value opt s a = Parsed a'" and "args_ok l seen a"
  shows "args_ok l (opt # seen) a'"
  using assms(2) store_value_fields [OF assms(1)]
  unfolding args_ok_def by (intro conjI) (simp_all, metis)

lemma store_value_ends: "store_value opt s a = Exits n \<Longrightarrow> n = 2"
  by (cases opt; auto simp: store_value_def int_value_def split: if_splits sum.splits)

lemma cluster_exits: "cluster_status s \<in> {0, 2}"
  by (induction s rule: cluster_status.induct) (auto split: list.splits)

lemma consume_outcome:
  "args_ok l seen a \<Longrightarrow>
   case consume ts seen extra a of
     Parsed (seen', extra', a') \<Rightarrow> args_ok l seen' a'
   | Exits n \<Rightarrow> n \<in> {0, 2}"
proof (induction ts seen extra a rule: consume.induct)
  case (4 s ts seen extra a)
  then show ?case using cluster_exits by simp
next
  case (6 opt ts seen extra a)
  show ?case
  proof (cases "opt = Opt_Help")
    case False
    show ?thesis
    proof (cases ts)
      case (Cons t ts')
      show ?thesis
      proof (cases t)
        case (Word s)
        show ?thesis
        proof (cases "store_value opt s a")
          case (Parsed a')
          with 6 Cons False Word store_value_ok [OF Parsed "6.prems"] show ?thesis by simp
        qed (use Cons False Word in \<open>auto dest: store_value_ends\<close>)
      qed (use Cons False in auto)
    qed (use False in simp)
  qed simp
next
  case (7 opt s ts seen extra a)
  show ?case
  proof (cases "opt = Opt_Help")
    case True
    then show ?thesis by simp
  next
    case False
    show ?thesis
    proof (cases "store_value opt s a")
      case (Parsed a')
      with 7 False store_value_ok [OF Parsed "7.prems"] show ?thesis by simp
    qed (use False in \<open>auto dest: store_value_ends\<close>)
  qed
qed auto

text \<open>
  When \<open>_parse_args\<close> returns, the required options are texts, and the layout is one of the choices or
  was taken from the environment as it is.
\<close>

lemma parse_args_result:
  "case parse_args env argv of
     Parsed a \<Rightarrow> (\<exists>gateway vehicle livekit. cli_gateway a = Some gateway \<and> cli_vehicle_id a = Some vehicle
         \<and> cli_livekit_url a = Some livekit)
       \<and> (cli_camera_layout a \<in> set CHOICES \<or> env = Some (cli_camera_layout a))
   | Exits n \<Rightarrow> n \<in> {0, 2}"
proof (cases "classify_all argv")
  case (Some ts)
  let ?l = "cli_camera_layout (cli_defaults env)"
  have start: "args_ok ?l [] (cli_defaults env)"
    by (simp add: args_ok_def cli_defaults_def)
  have layout: "l = ?l \<Longrightarrow> l \<in> set CHOICES \<or> env = Some l" for l
    by (cases env) (simp_all add: cli_defaults_def CHOICES_def enum_camera_layout_def)
  show ?thesis
    using consume_outcome [OF start, of ts False] Some layout
    by (auto simp: parse_args_def args_ok_def cli_required_def split: cli_result.splits)
qed (simp add: parse_args_def)

lemma choices_are_layouts: "t \<in> set CHOICES \<longleftrightarrow> (\<exists>l. camera_layout_of t = Inr l \<and> layout_text l = t)"
  by (auto simp: CHOICES_def enum_camera_layout_def camera_layout_of_text) (metis camera_layout.exhaust)

lemma no_choice: "t \<notin> set CHOICES \<Longrightarrow> camera_layout_of t = Inl ValueError"
  by (auto simp: CHOICES_def enum_camera_layout_def camera_layout_of_def)

text \<open>
  C25: What the process does with its command line. It leaves with status 0 (help) or 2 (usage), or it
  calls the agent once, between setting up the signal handlers and closing the event loop, with a
  gateway, a vehicle id, a LiveKit URL and a layout of the right types. The layout on the command line is checked by the parser; the one in the environment
  variable is not, and a wrong one is an uncaught \<open>ValueError\<close> instead of a usage error.
\<close>

theorem main_outcome:
  "case parse_args env argv of
     Exits n \<Rightarrow> n \<in> {0, 2} \<and> main run env argv = ([], Exits n)
   | Parsed a \<Rightarrow>
       if cli_camera_layout a \<in> set CHOICES
       then \<exists>call livekit. call_livekit_url call = Some livekit
           \<and> cli_gateway a = Some (arg_gateway (call_agent call))
           \<and> cli_vehicle_id a = Some (arg_vehicle (call_agent call))
           \<and> layout_text (layout (call_camera call)) = cli_camera_layout a
           \<and> main run env argv =
               ([Handles ''SIGINT'', Handles ''SIGTERM'', Runs call, Closes_Loop],
                Parsed (caught_interrupt (run call)))
       else env = Some (cli_camera_layout a)
         \<and> main run env argv = ([Handles ''SIGINT'', Handles ''SIGTERM'', Closes_Loop], Parsed (Inl ValueError))"
proof (cases "parse_args env argv")
  case (Parsed a)
  with parse_args_result [of env argv] obtain gateway vehicle livekit where
    given: "cli_gateway a = Some gateway" "cli_vehicle_id a = Some vehicle" "cli_livekit_url a = Some livekit"
    and l: "cli_camera_layout a \<in> set CHOICES \<or> env = Some (cli_camera_layout a)" by auto
  show ?thesis
  proof (cases "cli_camera_layout a \<in> set CHOICES")
    case True
    then obtain l where "camera_layout_of (cli_camera_layout a) = Inr l" "layout_text l = cli_camera_layout a"
      by (auto simp: choices_are_layouts)
    then obtain call where "agent_call_of a = Inr call" "call_livekit_url call = Some livekit"
      "arg_gateway (call_agent call) = gateway" "arg_vehicle (call_agent call) = vehicle"
      "layout_text (layout (call_camera call)) = cli_camera_layout a"
      using given by (simp add: agent_call_of_def main_camera_options_def)
    with True Parsed given show ?thesis
      by (auto simp: main_def intro!: exI [of _ call])
  next
    case False
    with l Parsed no_choice show ?thesis
      by (simp add: main_def agent_call_of_def main_camera_options_def)
  qed
qed (use parse_args_result [of env argv] in \<open>auto simp: main_def\<close>)

section \<open>Reading back what was written\<close>

fun option_name :: "cli_option \<Rightarrow> pystr" where
  "option_name Opt_Help = u ''--help''"
| "option_name Opt_Gateway = u ''--gateway''"
| "option_name Opt_Vehicle_Id = u ''--vehicle-id''"
| "option_name Opt_Device_Config = u ''--device-config''"
| "option_name Opt_Auth_Token = u ''--auth-token''"
| "option_name Opt_Backend_Token_Url = u ''--backend-token-url''"
| "option_name Opt_Livekit_Url = u ''--livekit-url''"
| "option_name Opt_Camera_Layout = u ''--camera-layout''"
| "option_name Opt_Camera_Width = u ''--camera-width''"
| "option_name Opt_Camera_Height = u ''--camera-height''"
| "option_name Opt_Camera_Fps = u ''--camera-fps''"

text \<open>A command line that says what a namespace holds, one option and its value after the other.\<close>

definition optional_value :: "cli_option \<Rightarrow> pystr option \<Rightarrow> (cli_option \<times> pystr) list" where
  "optional_value opt v = (case v of None \<Rightarrow> [] | Some s \<Rightarrow> [(opt, s)])"

definition written_values :: "cli_args \<Rightarrow> (cli_option \<times> pystr) list" where
  "written_values a =
     optional_value Opt_Gateway (cli_gateway a) @ optional_value Opt_Vehicle_Id (cli_vehicle_id a)
     @ optional_value Opt_Livekit_Url (cli_livekit_url a) @ [(Opt_Device_Config, cli_device_config a)]
     @ optional_value Opt_Auth_Token (cli_auth_token a)
     @ optional_value Opt_Backend_Token_Url (cli_backend_token_url a)
     @ [(Opt_Camera_Layout, cli_camera_layout a), (Opt_Camera_Width, int_str (cli_camera_width a)),
        (Opt_Camera_Height, int_str (cli_camera_height a)), (Opt_Camera_Fps, int_str (cli_camera_fps a))]"

definition written_line :: "cli_args \<Rightarrow> pystr list" where
  "written_line a = concat (map (\<lambda>(opt, s). [option_name opt, s]) (written_values a))"

definition is_word :: "pystr \<Rightarrow> bool" where
  "is_word s \<longleftrightarrow> s \<noteq> u ''--'' \<and> classify s = Some (Word s)"

lemma plain_word: "\<not> starts_with (u ''-'') s \<Longrightarrow> is_word s"
  by (auto simp: is_word_def classify_def starts_with_def u_def)

lemma digit_decimal: "is_digit c \<Longrightarrow> py_decimal c \<noteq> None"
  by (simp add: py_decimal_def)

lemma int_word: "is_word (int_str n)"
proof (cases "n < 0")
  case True
  have "0 \<le> - n" using True by simp
  note ds = dec_digits_props [OF this]
  then obtain c cs where c: "dec_digits (- n) = c # cs" "is_digit c" "list_all is_digit cs"
    by (cases "dec_digits (- n)") auto
  then have all: "list_all (\<lambda>d. py_decimal d \<noteq> None) (c # cs)"
    by (auto simp: list_all_iff dest: digit_decimal)
  have bounds: "d \<in> set (c # cs) \<Longrightarrow> 48 \<le> d \<and> d \<le> 57" for d
    using c(2,3) by (auto simp: list_all_iff is_digit_def)
  have no_eq: "dropWhile (\<lambda>c. c \<noteq> 61) (45 # c # cs) = []"
    using bounds by fastforce
  have "last (c # cs) \<noteq> 10" using bounds [OF last_in_set [of "c # cs"]] by force
  then have "negative_number (45 # c # cs)"
    using all by (simp add: negative_number_def without_newline_def)
  moreover have "map_of option_strings (45 # c # cs) = None" "prefix_matches (45 # c # cs) = []"
    using bounds [of c] by (auto simp: option_strings_def prefix_matches_def starts_with_def u_def)
  moreover have "split_equals (45 # c # cs) = (45 # c # cs, None)"
    unfolding split_equals_def no_eq by simp
  ultimately have "classify (45 # c # cs) = Some (Word (45 # c # cs))"
    by (simp add: classify_def)
  then show ?thesis
    using True c bounds [of c] by (auto simp: is_word_def int_str_def u_def)
next
  case False
  then have "0 \<le> n" by simp
  note ds = dec_digits_props [OF this]
  then obtain c cs where "dec_digits n = c # cs" "is_digit c" by (cases "dec_digits n") auto
  with False show ?thesis
    by (intro plain_word) (simp add: int_str_def starts_with_def u_def is_digit_def)
qed

lemma classify_name: "option_name opt \<noteq> u ''--'' \<and> classify (option_name opt) = Some (Flag opt None)"
  by (cases opt) (simp_all add: classify_def option_strings_def starts_with_def, simp_all add: u_def)

lemma classify_written:
  "list_all (is_word \<circ> snd) vs \<Longrightarrow>
     classify_all (concat (map (\<lambda>(opt, s). [option_name opt, s]) vs))
     = Some (concat (map (\<lambda>(opt, s). [Flag opt None, Word s]) vs))"
  by (induction vs) (auto simp: is_word_def classify_name)

text \<open>Storing the values one after the other.\<close>

fun store_all :: "(cli_option \<times> pystr) list \<Rightarrow> cli_args \<Rightarrow> cli_args cli_result" where
  "store_all [] a = Parsed a"
| "store_all ((opt, s) # vs) a =
     (case store_value opt s a of
        Parsed a' \<Rightarrow> store_all vs a'
      | Exits n \<Rightarrow> Exits n)"

lemma consume_written:
  "list_all (\<lambda>(opt, s). opt \<noteq> Opt_Help) vs \<Longrightarrow> store_all vs a = Parsed a' \<Longrightarrow>
     \<exists>seen'. consume (concat (map (\<lambda>(opt, s). [Flag opt None, Word s]) vs)) seen extra a = Parsed (seen', extra, a')
       \<and> set seen' = set seen \<union> fst ` set vs"
proof (induction vs arbitrary: seen a)
  case (Cons v vs)
  obtain opt s where v: "v = (opt, s)" by fastforce
  with Cons.prems(2) obtain a1 where a1: "store_value opt s a = Parsed a1" "store_all vs a1 = Parsed a'"
    by (auto split: cli_result.splits)
  obtain seen' where "consume (concat (map (\<lambda>(opt, s). [Flag opt None, Word s]) vs)) (opt # seen) extra a1
      = Parsed (seen', extra, a')" "set seen' = set (opt # seen) \<union> fst ` set vs"
    using Cons.IH [of a1 "opt # seen"] Cons.prems(1) a1(2) by auto
  with v a1(1) Cons.prems(1) show ?case by auto
qed simp

lemma store_all_append:
  "store_all vs a = Parsed a' \<Longrightarrow> store_all (vs @ ws) a = store_all ws a'"
  by (induction vs a rule: store_all.induct) (auto split: cli_result.splits)

lemma word_not_dashes: "is_word s \<Longrightarrow> s \<noteq> u ''--''"
  by (simp add: is_word_def)

lemma store_written:
  assumes "list_all (is_word \<circ> snd) (written_values a)"
    and "cli_gateway a \<noteq> None" "cli_vehicle_id a \<noteq> None" "cli_livekit_url a \<noteq> None"
    and "cli_camera_layout a \<in> set CHOICES"
    and "\<And>n. n \<in> {cli_camera_width a, cli_camera_height a, cli_camera_fps a}
       \<Longrightarrow> length (dec_digits \<bar>n\<bar>) \<le> max_str_digits"
  shows "store_all (written_values a) (cli_defaults env) = Parsed a"
proof -
  have ints: "int_of_str (int_str (cli_camera_width a)) = Inr (cli_camera_width a)"
    "int_of_str (int_str (cli_camera_height a)) = Inr (cli_camera_height a)"
    "int_of_str (int_str (cli_camera_fps a)) = Inr (cli_camera_fps a)"
    using assms(6) by (simp_all add: int_of_int_str)
  show ?thesis
    using assms(1-5) ints
    by (cases a; cases "cli_auth_token a"; cases "cli_backend_token_url a")
      (auto simp: written_values_def optional_value_def store_value_def int_value_def cli_defaults_def
        is_word_def)
qed

text \<open>
  C36: The command line round trip: the options that say what a namespace holds are parsed back to exactly
  that namespace, whatever \<open>CAMERA_LAYOUT\<close> is in the environment, for texts that do not begin with a
  dash, a layout that is a choice, and integers, negative ones included, of at most 4300 digits.
\<close>

theorem written_line_parses:
  assumes "cli_gateway a = Some gateway" and "cli_vehicle_id a = Some vehicle" and "cli_livekit_url a = Some livekit"
    and "cli_camera_layout a \<in> set CHOICES"
    and "list_all (\<lambda>(opt, s). \<not> starts_with (u ''-'') s
           \<or> opt \<in> {Opt_Camera_Width, Opt_Camera_Height, Opt_Camera_Fps}) (written_values a)"
    and "list_all (\<lambda>n. length (dec_digits \<bar>n\<bar>) \<le> max_str_digits)
           [cli_camera_width a, cli_camera_height a, cli_camera_fps a]"
  shows "parse_args env (written_line a) = Parsed a"
proof -
  have words: "list_all (is_word \<circ> snd) (written_values a)"
    using assms(5) int_word plain_word
    by (auto simp: written_values_def optional_value_def split: option.splits)
  have "store_all (written_values a) (cli_defaults env) = Parsed a"
    by (rule store_written [OF words]) (use assms in auto)
  moreover have "list_all (\<lambda>(opt, s). opt \<noteq> Opt_Help) (written_values a)"
    by (auto simp: written_values_def optional_value_def split: option.splits)
  ultimately obtain seen where run: "consume (concat (map (\<lambda>(opt, s). [Flag opt None, Word s]) (written_values a)))
      [] False (cli_defaults env) = Parsed (seen, False, a)" "set seen = fst ` set (written_values a)"
    using consume_written [of "written_values a" "cli_defaults env" a "[]" False] by auto
  have "list_all (\<lambda>opt. opt \<in> set seen) cli_required"
    using assms(1-3) unfolding run(2) by (simp add: written_values_def optional_value_def cli_required_def)
  with run(1) classify_written [OF words] show ?thesis
    by (simp add: parse_args_def written_line_def)
qed

definition sample_cli :: cli_args where
  "sample_cli =
     \<lparr>cli_gateway = Some (u ''http://gw''), cli_vehicle_id = Some (u ''car-001''),
      cli_device_config = u ''/etc/d.yaml'', cli_auth_token = None, cli_backend_token_url = None,
      cli_livekit_url = Some (u ''wss://lk''), cli_camera_layout = u ''three'', cli_camera_width = 640,
      cli_camera_height = - 1, cli_camera_fps = 30\<rparr>"

theorem written_line_parses_witness:
  "parse_args (Some (u ''broken'')) (written_line sample_cli) = Parsed sample_cli \<and> length (written_line sample_cli) = 16"
proof -
  have "parse_args (Some (u ''broken'')) (written_line sample_cli) = Parsed sample_cli"
  proof (rule written_line_parses)
    show "cli_camera_layout sample_cli \<in> set CHOICES"
      by (simp add: sample_cli_def CHOICES_def enum_camera_layout_def layout_text_def)
    show "list_all (\<lambda>(opt, s). \<not> starts_with (u ''-'') s
        \<or> opt \<in> {Opt_Camera_Width, Opt_Camera_Height, Opt_Camera_Fps}) (written_values sample_cli)"
      by (simp add: written_values_def optional_value_def sample_cli_def starts_with_def u_def)
    show "list_all (\<lambda>n. length (dec_digits \<bar>n\<bar>) \<le> max_str_digits)
        [cli_camera_width sample_cli, cli_camera_height sample_cli, cli_camera_fps sample_cli]"
      by (simp add: sample_cli_def dec_digits.simps max_str_digits_def)
  qed (simp_all add: sample_cli_def)
  then show ?thesis by (simp add: written_line_def written_values_def optional_value_def sample_cli_def)
qed

end
