(* ===== verification/Json_Encode.thy ===== *)
theory Json_Encode
  imports Json_Facts Py_Codec
begin

text \<open>
  \<open>json.dumps\<close> with its default arguments: only ASCII characters, \<open>", "\<close> and \<open>": "\<close> between the parts,
  \<open>NaN\<close> and the infinities by name. Nesting deeper than the recursion allowance raises, as does an
  integer with too many digits. What it writes, \<open>json.loads\<close> reads back.
\<close>

section \<open>The encoder\<close>

definition json_char :: "nat \<Rightarrow> pystr" where
  "json_char c =
     (if c = 34 \<or> c = 92 then [92, c]
      else if c = 10 then [92, 110] else if c = 13 then [92, 114] else if c = 9 then [92, 116]
      else if c = 12 then [92, 102] else if c = 8 then [92, 98]
      else if 32 \<le> c \<and> c \<le> 126 then [c]
      else if c < 65536 then [92, 117] @ hex 4 c
      else [92, 117] @ hex 4 (55296 + (c - 65536) div 1024) @ [92, 117] @ hex 4 (56320 + (c - 65536) mod 1024))"

definition json_string :: "pystr \<Rightarrow> pystr" where
  "json_string t = [34] @ concat (map json_char t) @ [34]"

fun json_float :: "pyfloat \<Rightarrow> pystr" where
  "json_float (Fin s m e) = float_repr (Fin s m e)"
| "json_float (Inf s) = (if s then u ''-Infinity'' else u ''Infinity'')"
| "json_float NaN = u ''NaN''"

function (sequential) json_dumps :: "nat \<Rightarrow> pyval \<Rightarrow> pystr res" where
  "json_dumps d PNone = Inr (u ''null'')"
| "json_dumps d (PBool b) = Inr (if b then u ''true'' else u ''false'')"
| "json_dumps d (PInt n) = str_of_int n"
| "json_dumps d (PFloat x) = Inr (json_float x)"
| "json_dumps d (PStr t) = Inr (json_string t)"
| "json_dumps d (PList vs) =
     (if d = 0 then Inl RecursionError
      else rbind (seq_res (map (json_dumps (d - 1)) vs)) (\<lambda>ss. Inr (u ''['' @ join (u '', '') ss @ u '']'')))"
| "json_dumps d (PDict kvs) =
     (if d = 0 then Inl RecursionError
      else rbind (seq_res (map (\<lambda>kv. rbind (json_dumps (d - 1) (snd kv))
                                 (\<lambda>s. Inr (json_string (fst kv) @ u '': '' @ s))) kvs))
             (\<lambda>ss. Inr (u ''{'' @ join (u '', '') ss @ u ''}'')))"
  by pat_completeness auto
termination
  by (relation "measure (\<lambda>(d, v). size v)") (auto dest: value_size)

section \<open>Strings\<close>

definition text_ok :: "pystr \<Rightarrow> bool" where
  "text_ok t \<longleftrightarrow> list_all (\<lambda>c. c < 1114112 \<and> \<not> is_surrogate c) t"

lemma hex_val_digit: "d < 16 \<Longrightarrow> hex_val (hex_digit d) = Some d"
  by (auto simp: hex_val_def hex_digit_def is_digit_def)

lemma hex4_hex:
  assumes "c < 65536"
  shows "hex4 (hex 4 c @ r) = Some (c, r)"
proof -
  let ?q = "c div 16" let ?q' = "?q div 16" let ?q'' = "?q' div 16"
  have four: "(4 :: nat) = Suc (Suc (Suc (Suc 0)))" by simp
  have parts: "hex 4 c = [hex_digit (?q'' mod 16), hex_digit (?q' mod 16), hex_digit (?q mod 16), hex_digit (c mod 16)]"
    unfolding four by simp
  have "c = 16 * ?q + c mod 16" "?q = 16 * ?q' + ?q mod 16" "?q' = 16 * ?q'' + ?q' mod 16"
    by (rule mult_div_mod_eq [symmetric])+
  moreover have "?q'' mod 16 = ?q''" using assms by (intro mod_less) (simp add: div_mult2_eq [symmetric])
  ultimately have "?q'' mod 16 * 4096 + ?q' mod 16 * 256 + ?q mod 16 * 16 + c mod 16 = c" by linarith
  moreover have "hex_val (hex_digit (n mod 16)) = Some (n mod 16)" for n by (rule hex_val_digit) simp
  ultimately show ?thesis by (simp add: parts del: hex.simps)
qed

lemma json_char_cases:
  obtains (plain) "json_char c = [c]" "32 \<le> c" "c \<noteq> 34" "c \<noteq> 92"
  | (short) e where "json_char c = [92, e]" "e \<noteq> 117" "simple_escape e = Some c"
  | (single) "json_char c = [92, 117] @ hex 4 c" "c < 65536"
  | (double) "json_char c
      = [92, 117] @ hex 4 (55296 + (c - 65536) div 1024) @ [92, 117] @ hex 4 (56320 + (c - 65536) mod 1024)"
      "65536 \<le> c"
proof (cases "c \<in> {34, 92, 10, 13, 9, 12, 8}")
  case True
  then show ?thesis
    by (intro short [of "hd (tl (json_char c))"]) (auto simp: json_char_def simple_escape_def)
next
  case False
  show ?thesis
  proof (cases "32 \<le> c \<and> c \<le> 126")
    case True
    with False show ?thesis by (intro plain) (simp_all add: json_char_def)
  next
    case wide: False
    show ?thesis
    proof (cases "c < 65536")
      case True
      with False wide show ?thesis by (intro single) (simp_all add: json_char_def del: hex.simps)
    next
      case False
      then show ?thesis by (intro double) (simp_all add: json_char_def del: hex.simps)
    qed
  qed
qed

lemma scan_char:
  assumes "c < 1114112" and "\<not> is_surrogate c"
  shows "scan_string acc (json_char c @ r) = scan_string (c # acc) r"
proof (cases c rule: json_char_cases)
  case single
  have "\<not> is_high c" using assms(2) by (auto simp: is_high_def is_surrogate_def)
  then have "unicode_escape (hex 4 c @ r) = Some (c, r)"
    using single(2) by (simp add: unicode_escape_def hex4_hex del: hex.simps)
  with single(1) show ?thesis by (simp add: scan_string.simps(2) del: hex.simps)
next
  case double
  let ?h = "55296 + (c - 65536) div 1024" and ?l = "56320 + (c - 65536) mod 1024"
  have "(c - 65536) div 1024 < 1024" "(c - 65536) mod 1024 < 1024" using assms(1) by auto
  then have "?h < 65536" "?l < 65536" "is_high ?h" "is_low ?l" by (auto simp: is_high_def is_low_def)
  moreover have "join_surrogates ?h ?l = c" using double(2) by (simp add: join_surrogates_def)
  ultimately have "unicode_escape (hex 4 ?h @ [92, 117] @ hex 4 ?l @ r) = Some (c, r)"
    by (simp add: unicode_escape_def hex4_hex del: hex.simps)
  with double(1) show ?thesis by (simp add: scan_string.simps(2) del: hex.simps)
qed (simp_all add: scan_string.simps(2))

lemma scan_json_string:
  "text_ok t \<Longrightarrow> scan_string acc (concat (map json_char t) @ [34] @ r) = Some (rev acc @ t, r)"
proof (induction t arbitrary: acc)
  case Nil
  then show ?case by (simp add: scan_string.simps(2))
next
  case (Cons c t)
  then show ?case by (simp add: text_ok_def scan_char)
qed

section \<open>Numbers\<close>

text \<open>What follows a value inside a JSON text.\<close>

definition follows :: "pystr \<Rightarrow> bool" where
  "follows r \<longleftrightarrow> (case r of [] \<Rightarrow> True | c # _ \<Rightarrow> c \<in> {44, 93, 125})"

lemma follows_stop: "follows r \<Longrightarrow> r = [] \<or> \<not> is_digit (hd r)"
  by (auto simp: follows_def is_digit_def split: list.splits)

definition is_sign :: "pystr \<Rightarrow> bool" where
  "is_sign sg \<longleftrightarrow> sg = [] \<or> sg = [45]"

definition is_whole :: "pystr \<Rightarrow> bool" where
  "is_whole ip \<longleftrightarrow> list_all is_digit ip \<and> ip \<noteq> [] \<and> (hd ip \<noteq> 48 \<or> ip = [48])"

lemma scan_int_whole:
  assumes "is_sign sg" and "is_whole ip" and "r = [] \<or> \<not> is_digit (hd r)"
  shows "scan_int (sg @ ip @ r) = Some (sg @ ip, r)"
proof -
  obtain c cs where ip: "ip = c # cs" "is_digit c" using assms(2) by (cases ip) (auto simp: is_whole_def)
  then have "c \<noteq> 45" by (auto simp: is_digit_def)
  have "(if take 1 (ip @ r) = [48] then [48] else takeWhile is_digit (ip @ r)) = ip"
    using assms(2) ip digits_then(1) [OF _ assms(3), of ip] by (auto simp: is_whole_def)
  with assms(1) ip \<open>c \<noteq> 45\<close> show ?thesis
    by (auto simp: scan_int_def is_sign_def Let_def)
qed

lemma int_parts:
  obtains sg where "is_sign sg" "int_str n = sg @ dec_digits \<bar>n\<bar>" "is_whole (dec_digits \<bar>n\<bar>)"
proof -
  have "is_whole (dec_digits \<bar>n\<bar>)"
  proof (cases "n = 0")
    case True
    then show ?thesis by (simp add: is_whole_def is_digit_def dec_digits.simps)
  next
    case False
    then have "0 < \<bar>n\<bar>" by simp
    with dec_digits_head [OF this] dec_digits_props [of "\<bar>n\<bar>"] show ?thesis by (simp add: is_whole_def)
  qed
  then show ?thesis
    using that [of "if n < 0 then [45] else []"] by (auto simp: is_sign_def int_str_def)
qed

lemma follows_no_number: "follows r \<Longrightarrow> scan_frac r = ([], r)" "follows r \<Longrightarrow> scan_exp r = ([], r)"
  by (auto simp: follows_def scan_frac_def scan_exp_def split: list.splits)

lemma scan_int_str:
  assumes "length (dec_digits \<bar>n\<bar>) \<le> max_str_digits" and "follows r"
  shows "scan_number (int_str n @ r) = Done (PInt n, r)"
proof (rule int_parts [of n])
  fix sg
  assume n: "is_sign sg" "int_str n = sg @ dec_digits \<bar>n\<bar>" "is_whole (dec_digits \<bar>n\<bar>)"
  then have "scan_int (int_str n @ r) = Some (int_str n, r)"
    using scan_int_whole [OF n(1,3) follows_stop [OF assms(2)]] by simp
  with int_of_int_str [OF assms(1)] show ?thesis
    by (simp add: scan_number_def follows_no_number [OF assms(2)])
qed

definition is_frac :: "pystr \<Rightarrow> bool" where
  "is_frac fp \<longleftrightarrow> fp = [] \<or> (\<exists>ds. fp = 46 # ds \<and> ds \<noteq> [] \<and> list_all is_digit ds)"

definition is_exp :: "pystr \<Rightarrow> bool" where
  "is_exp ep \<longleftrightarrow> ep = [] \<or> (\<exists>c ds. ep = 101 # c # ds \<and> c \<in> {43, 45} \<and> ds \<noteq> [] \<and> list_all is_digit ds)"

lemma scan_frac_part:
  assumes "is_frac fp" and "is_exp ep" and "follows r"
  shows "scan_frac (fp @ ep @ r) = (fp, ep @ r)"
proof -
  have stop: "ep @ r = [] \<or> \<not> is_digit (hd (ep @ r))"
    using assms(2) follows_stop [OF assms(3)] by (auto simp: is_exp_def is_digit_def)
  show ?thesis
  proof (cases "fp = []")
    case True
    have "scan_frac (ep @ r) = ([], ep @ r)"
    proof (cases "ep = []")
      case True
      with follows_no_number(1) [OF assms(3)] show ?thesis by simp
    next
      case False
      with assms(2) show ?thesis by (auto simp: is_exp_def scan_frac_def)
    qed
    with True show ?thesis by simp
  next
    case False
    then obtain d ds where fp: "fp = 46 # d # ds" "is_digit d" "list_all is_digit (d # ds)"
      using assms(1) by (auto simp: is_frac_def neq_Nil_conv)
    with digits_then [OF fp(3) stop] show ?thesis by (simp add: scan_frac_def)
  qed
qed

lemma scan_exp_part:
  assumes "is_exp ep" and "follows r"
  shows "scan_exp (ep @ r) = (ep, r)"
proof (cases "ep = []")
  case False
  then obtain c ds where ep: "ep = 101 # c # ds" "c \<in> {43, 45}" "ds \<noteq> []" "list_all is_digit ds"
    using assms(1) by (auto simp: is_exp_def)
  with digits_then [OF ep(4) follows_stop [OF assms(2)]] show ?thesis
    by (auto simp: scan_exp_def)
qed (simp add: follows_no_number [OF assms(2)])

lemma scan_float_text:
  assumes "is_sign sg" "is_whole ip" "is_frac fp" "is_exp ep" "fp \<noteq> [] \<or> ep \<noteq> []" "follows r"
    and "float_of_str (sg @ ip @ fp @ ep) = Inr x"
  shows "scan_number ((sg @ ip @ fp @ ep) @ r) = Done (PFloat x, r)"
proof -
  have "fp @ ep @ r = [] \<or> \<not> is_digit (hd (fp @ ep @ r))"
    using assms(3,4) follows_stop [OF assms(6)] by (auto simp: is_frac_def is_exp_def is_digit_def)
  then have "scan_int ((sg @ ip @ fp @ ep) @ r) = Some (sg @ ip, fp @ ep @ r)"
    using scan_int_whole [OF assms(1,2), of "fp @ ep @ r"] by simp
  with assms(5,7) show ?thesis
    by (auto simp: scan_number_def scan_frac_part [OF assms(3,4,6)] scan_exp_part [OF assms(4,6)])
qed

text \<open>The text of a float has a fraction or an exponent, which is how the scanner tells it from an integer.\<close>

lemma format_digits_shape:
  assumes ds: "list_all is_digit ds" "ds \<noteq> []" "hd ds \<noteq> 48"
  shows "\<exists>ip fp ep. format_digits ds k = ip @ fp @ ep \<and> is_whole ip \<and> is_frac fp \<and> is_exp ep \<and> (fp \<noteq> [] \<or> ep \<noteq> [])"
proof -
  let ?n = "int (length ds)"
  consider (small) "- 4 < k" "k \<le> 0" | (whole) "0 < k" "k \<le> 16" "?n \<le> k"
    | (point) "0 < k" "k \<le> 16" "k < ?n" | (sci) "\<not> (- 4 < k \<and> k \<le> 16)"
    by linarith
  then show ?thesis
  proof cases
    case small
    then show ?thesis
      using ds
      by (intro exI [of _ "[48]"] exI [of _ "46 # zeros (nat (- k)) @ ds"] exI [of _ "[]"])
        (simp add: format_digits_def u_def Let_def is_whole_def is_digit_def is_frac_def is_exp_def)
  next
    case whole
    then show ?thesis
      using ds
      by (intro exI [of _ "ds @ zeros (nat (k - ?n))"] exI [of _ "[46, 48]"] exI [of _ "[]"])
        (simp add: format_digits_def u_def Let_def is_whole_def is_digit_def is_frac_def is_exp_def)
  next
    case point
    have "list_all is_digit (take (nat k) ds)" "list_all is_digit (drop (nat k) ds)"
      using ds(1) by (auto simp: list_all_iff dest: in_set_takeD in_set_dropD)
    with point ds show ?thesis
      by (intro exI [of _ "take (nat k) ds"] exI [of _ "46 # drop (nat k) ds"] exI [of _ "[]"])
        (simp add: format_digits_def u_def Let_def is_whole_def is_frac_def is_exp_def hd_take)
  next
    case sci
    obtain c r where cr: "ds = c # r" "is_digit c" "list_all is_digit r" "c \<noteq> 48" using ds by (cases ds) auto
    have "format_digits ds k = [c] @ (if r = [] then [] else 46 # r) @ exp_str (k - 1)"
      unfolding format_digits_def Let_def if_not_P [OF sci] using cr by (simp add: u_def)
    moreover have "is_exp (exp_str (k - 1))"
      using exp_digits_props [of "k - 1"] by (auto simp: exp_str_eq is_exp_def)
    moreover have "exp_str (k - 1) \<noteq> []" by (simp add: exp_str_eq)
    moreover have "is_whole [c]" "is_frac (if r = [] then [] else 46 # r)"
      using cr by (simp_all add: is_whole_def is_frac_def)
    ultimately show ?thesis by blast
  qed
qed

lemma float_repr_shape:
  assumes "canonical (Fin s m e)"
  obtains sg ip fp ep where "float_repr (Fin s m e) = sg @ ip @ fp @ ep"
    "is_sign sg" "is_whole ip" "is_frac fp" "is_exp ep" "fp \<noteq> [] \<or> ep \<noteq> []"
proof (cases "m = 0")
  case True
  show ?thesis
    using that [of "if s then [45] else []" "[48]" "[46, 48]" "[]"] True
    by (simp add: u_def is_sign_def is_whole_def is_frac_def is_exp_def is_digit_def)
next
  case False
  with assms have "0 < m" by simp
  with float_repr_finite [OF assms] obtain ds k where ds:
    "float_repr (Fin s m e) = (if s then [45] else []) @ format_digits ds k"
    "list_all is_digit ds" "ds \<noteq> []" "hd ds \<noteq> 48"
    by blast
  with format_digits_shape [OF ds(2-4), of k] that [of "if s then [45] else []"] show ?thesis
    by (auto simp: is_sign_def)
qed

lemma scan_float_repr:
  assumes "canonical (Fin s m e)" and "follows r"
  shows "scan_number (float_repr (Fin s m e) @ r) = Done (PFloat (Fin s m e), r)"
proof (rule float_repr_shape [OF assms(1)])
  fix sg ip fp ep
  assume f: "float_repr (Fin s m e) = sg @ ip @ fp @ ep"
    "is_sign sg" "is_whole ip" "is_frac fp" "is_exp ep" "fp \<noteq> [] \<or> ep \<noteq> []"
  then show ?thesis
    using scan_float_text [OF f(2-6) assms(2)] float_of_str_repr [OF assms(1)] by simp
qed

text \<open>How a number starts: a digit, or a minus sign and a digit.\<close>

definition numeric_start :: "pystr \<Rightarrow> bool" where
  "numeric_start s \<longleftrightarrow> (\<exists>c r. s = c # r \<and> is_digit c) \<or> (\<exists>c r. s = 45 # c # r \<and> is_digit c)"

lemma numeric_start_append: "numeric_start s \<Longrightarrow> numeric_start (s @ r)"
  by (auto simp: numeric_start_def)

lemma numeric_start_parts: "is_sign sg \<Longrightarrow> is_whole ip \<Longrightarrow> numeric_start (sg @ ip @ r)"
  by (cases ip) (auto simp: is_sign_def is_whole_def numeric_start_def)

lemma int_str_start: "numeric_start (int_str n)"
  by (rule int_parts [of n]) (use numeric_start_parts [of _ _ "[]"] in simp)

lemma float_repr_start: "canonical (Fin s m e) \<Longrightarrow> numeric_start (float_repr (Fin s m e))"
  by (erule float_repr_shape) (simp only: numeric_start_parts)

lemma number_not_word: "numeric_start s \<Longrightarrow> scan_word s = None"
  by (auto simp: numeric_start_def scan_word_def json_words_def strip_prefix_def u_def is_digit_def)

lemma parse_value_number:
  assumes "numeric_start s"
  shows "parse_value (Suc n) d s = scan_number s"
  using number_not_word [OF assms] assms
  by (auto simp: numeric_start_def is_digit_def)

section \<open>Values\<close>

function (sequential) texts_ok :: "pyval \<Rightarrow> bool" where
  "texts_ok (PStr t) \<longleftrightarrow> text_ok t"
| "texts_ok (PList vs) \<longleftrightarrow> (\<forall>v \<in> set vs. texts_ok v)"
| "texts_ok (PDict d) \<longleftrightarrow> (\<forall>kv \<in> set d. text_ok (fst kv) \<and> texts_ok (snd kv))"
| "texts_ok v \<longleftrightarrow> True"
  by pat_completeness auto
termination
  by (relation "measure size") (auto dest: value_size)

text \<open>No value begins with white space, a closing bracket or a byte order mark.\<close>

definition value_start :: "pystr \<Rightarrow> bool" where
  "value_start s \<longleftrightarrow> (case s of [] \<Rightarrow> False | c # r \<Rightarrow> \<not> json_ws c \<and> c \<noteq> 93 \<and> c \<noteq> 65279)"

lemma numeric_value_start: "numeric_start s \<Longrightarrow> value_start s"
  by (auto simp: numeric_start_def value_start_def json_ws_def is_digit_def)

lemma str_of_int_Inr: "str_of_int n = Inr s \<longleftrightarrow> s = int_str n \<and> length (dec_digits \<bar>n\<bar>) \<le> max_str_digits"
  by (auto simp: str_of_int_def)

lemma dumps_start: "json_dumps d v = Inr s \<Longrightarrow> wf_value v \<Longrightarrow> value_start s"
proof (cases v)
  case (PInt n)
  assume "json_dumps d v = Inr s"
  with PInt show ?thesis using numeric_value_start [OF int_str_start [of n]] by (auto simp: str_of_int_Inr)
next
  case (PFloat x)
  assume "json_dumps d v = Inr s" "wf_value v"
  with PFloat have s: "s = json_float x" "canonical x" by auto
  then show ?thesis
    using numeric_value_start [OF float_repr_start]
    by (cases x) (simp_all add: value_start_def json_ws_def u_def del: float_repr.simps canonical.simps)
qed (auto simp: rbind_iffs value_start_def json_ws_def u_def json_string_def split: if_splits)

lemma skip_value_start: "value_start s \<Longrightarrow> skip_ws (s @ r) = s @ r"
  by (cases s) (auto simp: value_start_def skip_ws_def)

lemma skip_blank: "skip_ws (32 # s) = skip_ws s"
  by (simp add: skip_ws_def json_ws_def)

lemma skip_mark: "c \<in> {34, 44, 58, 93, 125} \<Longrightarrow> skip_ws (c # s) = c # s"
  by (auto simp: skip_ws_def json_ws_def)

lemma follows_marks [simp]: "follows []" "follows (44 # r)" "follows (93 # r)" "follows (125 # r)"
  by (simp_all add: follows_def)

text \<open>One value is read back, whatever may follow it.\<close>

definition reads :: "nat \<Rightarrow> pyval \<Rightarrow> pystr \<Rightarrow> bool" where
  "reads d v s \<longleftrightarrow> value_start s
     \<and> (\<forall>r n. follows r \<longrightarrow> length s < n \<longrightarrow> parse_value n d (s @ r) = Done (v, r))"

lemma reads_parse: "reads d v s \<Longrightarrow> follows r \<Longrightarrow> length s < n \<Longrightarrow> parse_value n d (s @ r) = Done (v, r)"
  by (simp add: reads_def)

lemma reads_skip: "reads d v s \<Longrightarrow> skip_ws (s @ r) = s @ r"
  by (simp add: reads_def skip_value_start)

lemma parse_items_dumped:
  assumes "list_all2 (reads d) vs ss" and "vs \<noteq> []" and "length (join (u '', '') ss) + 1 < n"
  shows "parse_items n d acc (join (u '', '') ss @ 93 # r) = Done (PList (rev acc @ vs), r)"
  using assms
proof (induction vs ss arbitrary: n acc rule: list_all2_induct)
  case (Cons v vs s ss)
  obtain m where n: "n = Suc m" using Cons.prems(2) by (cases n) auto
  show ?case
  proof (cases "vs = []")
    case True
    with Cons have "ss = []" by simp
    with True Cons.prems n reads_parse [OF Cons.hyps(1), of "93 # r" m] show ?thesis
      by (simp add: skip_mark)
  next
    case False
    with Cons obtain v' vs' s' ss' where eq: "vs = v' # vs'" "ss = s' # ss'" "reads d v' s'"
      by (auto simp: neq_Nil_conv list_all2_Cons1)
    then have "parse_value m d (s @ 44 # 32 # join (u '', '') ss @ 93 # r) = Done (v, 44 # 32 # join (u '', '') ss @ 93 # r)"
      using reads_parse [OF Cons.hyps(1)] Cons.prems n by (simp add: u_def)
    moreover have "skip_ws (32 # join (u '', '') ss @ 93 # r) = join (u '', '') ss @ 93 # r"
      using eq reads_skip [OF eq(3)] by (cases ss') (simp_all add: skip_blank)
    moreover have "parse_items m d (v # acc) (join (u '', '') ss @ 93 # r) = Done (PList (rev (v # acc) @ vs), r)"
      using Cons.prems n eq by (intro Cons.IH False) (simp_all add: u_def)
    ultimately show ?thesis using n eq by (simp add: u_def skip_mark)
  qed
qed simp

text \<open>A member of an object: its name, a colon, a blank and its value.\<close>

definition member_text :: "pystr \<times> pyval \<Rightarrow> pystr \<Rightarrow> pystr" where
  "member_text kv s = json_string (fst kv) @ 58 # 32 # s"

definition reads_member :: "nat \<Rightarrow> pystr \<times> pyval \<Rightarrow> pystr \<Rightarrow> bool" where
  "reads_member d kv t \<longleftrightarrow> text_ok (fst kv) \<and> (\<exists>s. t = member_text kv s \<and> reads d (snd kv) s)"

lemma dict_set_append: "k \<notin> set (dict_keys d) \<Longrightarrow> dict_set k v d = d @ [(k, v)]"
  by (induction k v d rule: dict_set.induct) (auto simp: dict_keys_def)

lemma scan_name: "text_ok k \<Longrightarrow> scan_string [] (concat (map json_char k) @ 34 # r) = Some (k, r)"
  using scan_json_string [of k "[]" r] by simp

lemma skip_member: "skip_ws (member_text kv s @ r) = member_text kv s @ r"
  by (simp add: member_text_def json_string_def skip_mark)

lemma parse_pairs_dumped:
  assumes "list_all2 (reads_member d) kvs ts" and "kvs \<noteq> []" and "length (join (u '', '') ts) + 1 < n"
    and "distinct (dict_keys (acc @ kvs))"
  shows "parse_pairs n d acc (join (u '', '') ts @ 125 # r) = Done (PDict (acc @ kvs), r)"
  using assms
proof (induction kvs ts arbitrary: n acc rule: list_all2_induct)
  case (Cons kv kvs t ts)
  obtain k v where kv: "kv = (k, v)" by (cases kv)
  obtain s where t: "text_ok k" "t = member_text kv s" "reads d v s"
    using Cons.hyps(1) kv by (auto simp: reads_member_def)
  obtain m where n: "n = Suc m" using Cons.prems(2) by (cases n) auto
  have new: "dict_set k v acc = acc @ [kv]"
    using Cons.prems(3) kv by (intro dict_set_append [THEN trans]) (auto simp: dict_keys_def)
  have step: "parse_pairs n d acc (t @ q) = (case q of
        c' # r'' \<Rightarrow> if c' = 125 then Done (PDict (acc @ [kv]), r'')
          else parse_pairs m d (acc @ [kv]) (skip_ws r'')
      | [] \<Rightarrow> Fail JSONDecodeError)"
    if q: "length t < n" "\<exists>q'. q = 44 # q' \<or> q = 125 # q'" for q
  proof -
    have "parse_value m d (s @ q) = Done (v, q)"
      using q t(2) n by (intro reads_parse [OF t(3)]) (auto simp: member_text_def)
    then show ?thesis
      using q(2) t(1) unfolding n t(2) kv member_text_def new [symmetric, unfolded kv]
      by (auto simp: json_string_def scan_name skip_mark skip_blank reads_skip [OF t(3)])
  qed
  show ?case
  proof (cases "kvs = []")
    case True
    with Cons have "ts = []" by simp
    with True Cons.prems n step [of "125 # r"] show ?thesis by simp
  next
    case False
    with Cons obtain kv' kvs' t' ts' where eq: "kvs = kv' # kvs'" "ts = t' # ts'" "reads_member d kv' t'"
      by (auto simp: neq_Nil_conv list_all2_Cons1)
    have "skip_ws (32 # join (u '', '') ts @ 125 # r) = join (u '', '') ts @ 125 # r"
      using eq by (cases ts') (auto simp: skip_blank reads_member_def skip_member)
    moreover have "parse_pairs m d (acc @ [kv]) (join (u '', '') ts @ 125 # r) = Done (PDict ((acc @ [kv]) @ kvs), r)"
      using Cons.prems n eq by (intro Cons.IH False) (simp_all add: u_def)
    ultimately show ?thesis
      using n eq Cons.prems step [of "44 # 32 # join (u '', '') ts @ 125 # r"] by (simp add: u_def)
  qed
qed simp

text \<open>What \<open>json.dumps\<close> writes, \<open>json.loads\<close> reads back.\<close>

lemma seq_res_map_Inr: "seq_res (map f xs) = Inr ys \<longleftrightarrow> list_all2 (\<lambda>x y. f x = Inr y) xs ys"
  by (induction xs arbitrary: ys) (auto simp: rbind_iffs list_all2_Cons1)

lemma join_value_start:
  assumes "list_all2 (reads d) vs ss" and "vs \<noteq> []"
  shows "value_start (join (u '', '') ss @ r)"
proof -
  obtain s ss' where "ss = s # ss'" "value_start s"
    using assms by (auto simp: neq_Nil_conv list_all2_Cons1 reads_def)
  then show ?thesis by (cases ss') (auto simp: value_start_def split: list.splits)
qed

lemma reads_word:
  assumes "(t, v) \<in> set json_words"
  shows "reads d v t"
proof -
  have "parse_value (Suc n) d (t @ r) = Done (v, r)" for n r
    using assms by (auto simp: json_words_def scan_word_def strip_prefix_def u_def)
  then have "parse_value n d (t @ r) = Done (v, r)" if "length t < n" for n r
    using that by (cases n) simp_all
  with assms show ?thesis by (auto simp: reads_def json_words_def value_start_def u_def json_ws_def)
qed

lemma reads_number:
  assumes "numeric_start s" and "\<And>r. follows r \<Longrightarrow> scan_number (s @ r) = Done (v, r)"
  shows "reads d v s"
proof -
  have "parse_value n d (s @ r) = Done (v, r)" if "follows r" "length s < n" for n r
    using parse_value_number [OF numeric_start_append [OF assms(1), of r]] assms(2) [OF that(1)] that(2)
    by (cases n) simp_all
  with numeric_value_start [OF assms(1)] show ?thesis by (simp add: reads_def)
qed

lemma reads_string: "text_ok t \<Longrightarrow> reads d (PStr t) (json_string t)"
proof -
  assume t: "text_ok t"
  have "parse_value n d (json_string t @ r) = Done (PStr t, r)" if "length (json_string t) < n" for n r
    using that scan_name [OF t, of r] by (cases n) (simp_all add: json_string_def)
  then show ?thesis by (simp add: reads_def value_start_def json_string_def json_ws_def)
qed

lemma reads_float: "canonical x \<Longrightarrow> reads d (PFloat x) (json_float x)"
proof (cases x)
  case (Fin s m e)
  assume "canonical x"
  with Fin show ?thesis using float_repr_start scan_float_repr by (simp add: reads_number del: float_repr.simps)
qed (use reads_word in \<open>auto simp: json_words_def\<close>)

lemma parse_dumped:
  "json_dumps d v = Inr s \<Longrightarrow> wf_value v \<Longrightarrow> texts_ok v \<Longrightarrow> reads d v s"
proof (induction d v arbitrary: s rule: json_dumps.induct)
  case (6 d vs)
  then obtain ss where d: "d \<noteq> 0" and ss: "list_all2 (\<lambda>v s. json_dumps (d - 1) v = Inr s) vs ss"
    and s: "s = u ''['' @ join (u '', '') ss @ u '']''"
    by (auto simp: rbind_iffs seq_res_map_Inr split: if_splits)
  have all: "list_all2 (reads (d - 1)) vs ss"
  proof (rule list.rel_mono_strong [OF ss])
    fix v s
    assume "v \<in> set vs" "json_dumps (d - 1) v = Inr s"
    with 6(3,4) show "reads (d - 1) v s" by (intro 6(1) [OF d]) auto
  qed
  have "parse_value n d (s @ r) = Done (PList vs, r)" if n: "length s < n" for n r
  proof (cases "vs = []")
    case True
    with ss s n d show ?thesis by (cases n) (auto simp: u_def skip_mark)
  next
    case False
    obtain m where m: "n = Suc m" using n by (cases n) auto
    let ?b = "join (u '', '') ss @ 93 # r"
    have vs: "value_start ?b" by (rule join_value_start [OF all False])
    then have "skip_ws ?b = ?b" using skip_value_start [of ?b "[]"] by simp
    moreover have "take 1 ?b \<noteq> [93]"
      using vs by (cases ?b) (simp_all add: value_start_def del: take_append)
    moreover have "parse_items m (d - 1) [] ?b = Done (PList (rev [] @ vs), r)"
      using n m s by (intro parse_items_dumped [OF all False]) (simp add: u_def)
    ultimately show ?thesis using m d s by (simp add: u_def)
  qed
  with s show ?case by (simp add: reads_def value_start_def u_def json_ws_def)
next
  case (7 d kvs)
  then obtain ts where d: "d \<noteq> 0"
    and ts: "list_all2 (\<lambda>kv t. rbind (json_dumps (d - 1) (snd kv)) (\<lambda>s. Inr (json_string (fst kv) @ u '': '' @ s)) = Inr t) kvs ts"
    and s: "s = u ''{'' @ join (u '', '') ts @ u ''}''"
    by (auto simp: rbind_iffs seq_res_map_Inr split: if_splits)
  have all: "list_all2 (reads_member (d - 1)) kvs ts"
  proof (rule list.rel_mono_strong [OF ts])
    fix kv t
    assume kv: "kv \<in> set kvs"
      and t: "rbind (json_dumps (d - 1) (snd kv)) (\<lambda>s. Inr (json_string (fst kv) @ u '': '' @ s)) = Inr t"
    then obtain s where s: "json_dumps (d - 1) (snd kv) = Inr s" "t = member_text kv s"
      unfolding member_text_def rbind_iffs by (auto simp: u_def)
    have "reads (d - 1) (snd kv) s" using 7(3,4) kv by (intro 7(1) [OF d kv s(1)]) auto
    with s(2) kv 7(4) show "reads_member (d - 1) kv t" by (auto simp: reads_member_def)
  qed
  have "parse_value n d (s @ r) = Done (PDict kvs, r)" if n: "length s < n" for n r
  proof (cases "kvs = []")
    case True
    with ts s n d show ?thesis by (cases n) (auto simp: u_def skip_mark)
  next
    case False
    obtain m where m: "n = Suc m" using n by (cases n) auto
    let ?b = "join (u '', '') ts @ 125 # r"
    obtain q where q: "?b = 34 # q"
      using all False by (cases "tl ts")
        (auto simp: reads_member_def member_text_def json_string_def neq_Nil_conv list_all2_Cons1)
    then have "skip_ws ?b = ?b" by (simp add: skip_mark)
    moreover have "parse_pairs m (d - 1) [] ?b = Done (PDict ([] @ kvs), r)"
      using n m s 7(3) by (intro parse_pairs_dumped [OF all False]) (simp_all add: u_def)
    ultimately show ?thesis using m d s q by (simp add: u_def)
  qed
  with s show ?case by (simp add: reads_def value_start_def u_def json_ws_def)
next
  case (3 d n)
  then show ?case using int_str_start scan_int_str by (auto simp: str_of_int_Inr intro!: reads_number)
next
  case (4 d x)
  then show ?case by (auto intro: reads_float)
qed (auto simp: reads_string json_words_def intro!: reads_word)

lemma json_loads_dumps:
  assumes "json_dumps d v = Inr s" and "wf_value v" and "texts_ok v"
  shows "json_loads d s = Inr v"
proof -
  have r: "reads d v s" by (rule parse_dumped [OF assms])
  have "parse_value (Suc (2 * length s)) d s = Done (v, [])"
    using reads_parse [OF r, of "[]" "Suc (2 * length s)"] by simp
  moreover have "skip_ws s = s" using reads_skip [OF r, of "[]"] by simp
  moreover have "take 1 s \<noteq> [65279]"
    using r by (cases s) (auto simp: reads_def value_start_def)
  ultimately show ?thesis by (simp add: json_loads_def skip_ws_def del: parse_value.simps)
qed

end
