(* ===== verification/Demo_Run.thy ===== *)
theory Demo_Run
  imports Agent_Loops Json_Encode
begin

text \<open>
  \<open>demo_run.py\<close>, whose producer sends signed stage-1 messages to an agent its \<open>main\<close> means to
  start, and \<open>_demo\<close> of \<open>secure_receiver.py\<close>. What the WebSocket library, the queue, the file system
  and the clock do is given to the definitions.
\<close>

section \<open>The messages\<close>

definition demo_val :: pyfloat where
  "demo_val = flt_of_decimal False 123 (-1)"

definition demo_payload :: "int \<Rightarrow> int \<Rightarrow> pyval dict" where
  "demo_payload sq ts =
     [(u ''vehicle_id'', PStr (u ''car-001'')), (u ''key_id'', PStr (u ''demo-key-1'')),
      (u ''cmd'', PStr (u ''steer'')), (u ''val'', PFloat demo_val), (u ''seq'', PInt sq), (u ''ts'', PInt ts),
      (u ''alg'', PStr (u ''Ed25519''))]"

text \<open>The f-string of the producer.\<close>

definition demo_sign_message :: "(nat \<Rightarrow> bool) \<Rightarrow> int \<Rightarrow> int \<Rightarrow> pystr res" where
  "demo_sign_message pr sq ts =
     rbind (py_str pr (PFloat demo_val)) (\<lambda>v.
     rbind (str_of_int sq) (\<lambda>s.
     rbind (str_of_int ts) (\<lambda>t.
     Inr (u ''car-001|demo-key-1|steer|'' @ v @ u ''|'' @ s @ u ''|'' @ t))))"

definition demo_packet :: "(nat \<Rightarrow> bool) \<Rightarrow> (bytes \<Rightarrow> bytes) \<Rightarrow> int \<Rightarrow> int \<Rightarrow> pyval res" where
  "demo_packet pr sign sq ts =
     rbind (demo_sign_message pr sq ts) (\<lambda>msg.
     rbind (utf8_encode msg) (\<lambda>m.
     Inr (PDict (dict_set (u ''sig'') (PStr (b64encode (sign m))) (demo_payload sq ts)))))"

text \<open>The text handed to \<open>send_str\<close>.\<close>

definition demo_text :: "(nat \<Rightarrow> bool) \<Rightarrow> (bytes \<Rightarrow> bytes) \<Rightarrow> nat \<Rightarrow> int \<Rightarrow> int \<Rightarrow> pystr res" where
  "demo_text pr sign d sq ts = rbind (demo_packet pr sign sq ts) (json_dumps d)"

section \<open>The producer\<close>

text \<open>
  One connection, up to where it is closed: for each message the clock reading, the outcome of the
  send and how the sleep after it ends. The sequence number goes on once the message is sent.
\<close>

record demo_send =
  ds_wall :: pyfloat
  ds_sent :: "unit res"
  ds_slept :: "unit res"

fun produce ::
  "(nat \<Rightarrow> bool) \<Rightarrow> (bytes \<Rightarrow> bytes) \<Rightarrow> nat \<Rightarrow> demo_send list \<Rightarrow> int \<Rightarrow> pystr list \<times> int \<times> unit res"
where
  "produce pr sign d [] sq = ([], sq, Inr ())"
| "produce pr sign d (i # sends) sq =
     (case rbind (millis (ds_wall i)) (demo_text pr sign d sq) of
        Inl e \<Rightarrow> ([], sq, Inl e)
      | Inr t \<Rightarrow>
          (case ds_sent i of
             Inl e \<Rightarrow> ([], sq, Inl e)
           | Inr _ \<Rightarrow>
               (case ds_slept i of
                  Inl e \<Rightarrow> ([t], sq + 1, Inl e)
                | Inr _ \<Rightarrow>
                    (case produce pr sign d sends (sq + 1) of (ts, sq', out) \<Rightarrow> (t # ts, sq', out)))))"

text \<open>\<open>except Exception: pass\<close>\<close>

definition pass_Exception :: "unit res \<Rightarrow> unit res" where
  "pass_Exception out = (case out of Inl e \<Rightarrow> if is_Exception e then Inr () else Inl e | Inr _ \<Rightarrow> Inr ())"

text \<open>
  A turn of the outer loop: how the wait for a connection ends, the sleep after a timeout of it, and
  what happens on the connection.
\<close>

record queue_turn =
  qt_got :: "unit res"
  qt_slept :: "unit res"
  qt_sends :: "demo_send list"

fun producer_from ::
  "(nat \<Rightarrow> bool) \<Rightarrow> (bytes \<Rightarrow> bytes) \<Rightarrow> nat \<Rightarrow> queue_turn list \<Rightarrow> int \<Rightarrow> pystr list \<times> int \<times> loop_end"
where
  "producer_from pr sign d [] sq = ([], sq, LoopRuns)"
| "producer_from pr sign d (i # turns) sq =
     (case qt_got i of
        Inl e \<Rightarrow>
          if e \<noteq> TimeoutError then ([], sq, LoopRaises e)
          else (case qt_slept i of
                  Inl e' \<Rightarrow> ([], sq, LoopRaises e')
                | Inr _ \<Rightarrow> producer_from pr sign d turns sq)
      | Inr _ \<Rightarrow>
          (case produce pr sign d (qt_sends i) sq of
             (ts, sq', out) \<Rightarrow>
               (case pass_Exception out of
                  Inl e \<Rightarrow> (ts, sq', LoopRaises e)
                | Inr _ \<Rightarrow>
                    (case producer_from pr sign d turns sq' of
                       (ts', sq'', fin) \<Rightarrow> (ts @ ts', sq'', fin)))))"

definition producer_loop ::
  "(nat \<Rightarrow> bool) \<Rightarrow> (bytes \<Rightarrow> bytes) \<Rightarrow> nat \<Rightarrow> queue_turn list \<Rightarrow> pystr list \<times> int \<times> loop_end" where
  "producer_loop pr sign d turns = producer_from pr sign d turns 1"

section \<open>The server\<close>

datatype demo_effect =
    Wrote pystr pystr      \<comment> \<open>a file and its text\<close>
  | Listens pystr int      \<comment> \<open>the server on its host and port\<close>
  | Produces               \<comment> \<open>the task of the producer\<close>
  | Agent_Task             \<comment> \<open>the task of the agent\<close>
  | Cleaned                \<comment> \<open>the server is shut down\<close>

datatype ws_message = Ws_Error | Ws_Other

text \<open>The handler queues the connection and then reads messages until an error or the end: how many it read.\<close>

fun read_messages :: "ws_message list \<Rightarrow> nat" where
  "read_messages [] = 0"
| "read_messages (m # ms) = (if m = Ws_Error then 1 else Suc (read_messages ms))"

definition ws_handler :: "unit res \<Rightarrow> ws_message list \<Rightarrow> 'w \<Rightarrow> 'w list \<Rightarrow> 'w list \<times> nat res" where
  "ws_handler prepared ms ws queue =
     (case prepared of Inl e \<Rightarrow> (queue, Inl e) | Inr _ \<Rightarrow> (queue @ [ws], Inr (read_messages ms)))"

definition ws_server :: "unit res \<Rightarrow> unit res \<Rightarrow> demo_effect list \<times> unit res" where
  "ws_server set_up started =
     (case rbind set_up (\<lambda>_. started) of
        Inl e \<Rightarrow> ([], Inl e)
      | Inr _ \<Rightarrow> ([Listens (u ''127.0.0.1'') 9001], Inr ()))"

section \<open>Starting the agent\<close>

definition demo_registration :: "bytes \<Rightarrow> pyval" where
  "demo_registration pk =
     PDict [(u ''vehicle_id'', PStr (u ''car-001'')), (u ''operator_id'', PStr (u ''demo-op'')),
            (u ''key_id'', PStr (u ''demo-key-1'')), (u ''public_key_b64'', PStr (b64encode pk)),
            (u ''expires_at_ms'', PInt 9999999999999)]"

text \<open>
  How Python binds the arguments of a call: \<open>npos\<close> positional ones and the keywords. A parameter is
  its name and whether it has a default.
\<close>

definition bind_arguments :: "(pystr \<times> bool) list \<Rightarrow> nat \<Rightarrow> pystr list \<Rightarrow> unit res" where
  "bind_arguments params npos keywords =
     (if length params < npos
        \<or> list_ex (\<lambda>k. k \<notin> set (map fst params) \<or> k \<in> set (map fst (take npos params))) keywords
        \<or> list_ex (\<lambda>(name, has_default). \<not> has_default \<and> name \<notin> set keywords) (drop npos params)
      then Inl TypeError else Inr ())"

definition run_agent_parameters :: "(pystr \<times> bool) list" where
  "run_agent_parameters =
     [(u ''gateway'', False), (u ''vehicle_id'', False), (u ''device_config'', True),
      (u ''backend_token_url'', True), (u ''livekit_url'', True), (u ''auth_token'', True),
      (u ''camera_options'', True)]"

definition demo_keywords :: "pystr list" where
  "demo_keywords =
     [u ''gateway'', u ''vehicle_id'', u ''token'', u ''ws_url'', u ''key_refresh_s'', u ''mode'',
      u ''load_key_file'']"

definition path_join :: "pystr \<Rightarrow> pystr \<Rightarrow> pystr" where
  "path_join dir name = (if dir = [] \<or> last dir = 47 then dir @ name else dir @ [47] @ name)"

text \<open>
  \<open>main\<close>: the outcomes of making the directory, of writing the file, of the two steps of the
  server, of \<open>gather\<close> and of the clean-up. The arguments of the agent are bound before the
  \<open>try\<close> whose \<open>finally\<close> shuts the server down.
\<close>

record demo_world =
  dw_directory :: "pystr res"
  dw_written :: "unit res"
  dw_set_up :: "unit res"
  dw_started :: "unit res"
  dw_gathered :: "unit res"
  dw_cleaned :: "unit res"

definition demo_main :: "nat \<Rightarrow> bytes \<Rightarrow> demo_world \<Rightarrow> demo_effect list \<times> unit res" where
  "demo_main d pk w =
     (case rbind (dw_directory w) (\<lambda>dir. rbind (json_dumps d (demo_registration pk)) (\<lambda>t.
           rbind (dw_written w) (\<lambda>_. Inr (Wrote (path_join dir (u ''reg.json'')) t)))) of
        Inl e \<Rightarrow> ([], Inl e)
      | Inr wrote \<Rightarrow>
          (case ws_server (dw_set_up w) (dw_started w) of
             (fx, Inl e) \<Rightarrow> (wrote # fx, Inl e)
           | (fx, Inr _) \<Rightarrow>
               (case bind_arguments run_agent_parameters 0 demo_keywords of
                  Inl e \<Rightarrow> (wrote # fx @ [Produces], Inl e)
                | Inr _ \<Rightarrow>
                    (wrote # fx @ [Produces, Agent_Task, Cleaned],
                     rbind (dw_cleaned w) (\<lambda>_. dw_gathered w)))))"

section \<open>The demo of the stage-1 receiver\<close>

text \<open>
  The key is fetched, the watchdog runs during a sleep of a second (\<open>rounds\<close>), then the flag is
  cleared and the watchdog returns when it reads it. The runtime holds the verifier throughout.
\<close>

definition receiver_demo ::
  "'k lib \<Rightarrow> pyfloat \<Rightarrow> exchange \<Rightarrow> 'k agent watch list \<Rightarrow> unit res \<Rightarrow> 'k agent \<times> unit res" where
  "receiver_demo x now ex rounds nap =
     (case refresh_key x ex
             (new_command_verifier (u ''http://127.0.0.1:8080'') (u ''car-001'')
               (u ''car-001|fleet-a|vehicle'') 100 now) of
        (v, loaded) \<Rightarrow>
          (case pass_Exception loaded of
             Inl e \<Rightarrow> (new_agent v new_brake, Inl e)
           | Inr _ \<Rightarrow>
               (case agent_safety_watchdog 300 rounds (new_agent v new_brake) of
                  (a, _, fin) \<Rightarrow>
                    (case nap of
                       Inl e \<Rightarrow> (a, Inl e)
                     | Inr _ \<Rightarrow>
                         (a\<lparr>agent_running := False\<rparr>,
                          case fin of LoopRaises e \<Rightarrow> Inl e | _ \<Rightarrow> Inr ())))))"

end
