(* ===== verification/Demo_Theorems.thy ===== *)
theory Demo_Theorems
  imports Legacy_Theorems Demo_Run
begin

text \<open>The properties of the demos: what the producer sends and what becomes of it.\<close>

section \<open>The demo producer\<close>

lemma b64encode_ascii: "list_all (\<lambda>c. c < 128) (b64encode bs)"
proof -
  have "b64_char v < 128" for v
    unfolding b64_char_def by (auto intro: le_less_trans [OF diff_le_self])
  then show ?thesis by (induction bs rule: b64encode.induct) simp_all
qed

lemma utf8_ascii: "list_all (\<lambda>c. c < 128) s \<Longrightarrow> utf8_encode s = Inr s"
  by (induction s) (simp_all add: utf8_char_def)

lemma digits_ascii: "list_all is_digit s \<Longrightarrow> list_all (\<lambda>c. c < 128) s"
  by (auto simp: list_all_iff is_digit_def)

lemma u_ascii: "list_all (\<lambda>c. c < 128) (u s) = list_all (\<lambda>c. of_char c < (128 :: nat)) s"
  by (simp add: u_def list_all_iff)

lemma int_str_ascii: "list_all (\<lambda>c. c < 128) (int_str n)"
  using digits_ascii [OF dec_digits_props(1), of "\<bar>n\<bar>"]
  by (cases "n < 0") (simp_all add: int_str_def)

lemma float_repr_ascii:
  assumes "canonical (Fin s m e)" and "0 < m"
  shows "list_all (\<lambda>c. c < 128) (float_repr (Fin s m e))"
proof -
  obtain ds k where r: "float_repr (Fin s m e) = (if s then [45] else []) @ format_digits ds k" "list_all is_digit ds"
    using float_repr_finite [OF assms] by blast
  have ds: "list_all (\<lambda>c. c < 128) ds" by (rule digits_ascii [OF r(2)])
  have "list_all (\<lambda>c. c < 128) (exp_str j)" for j
    using digits_ascii [OF dec_digits_props(1), of "\<bar>j\<bar>"] by (auto simp: exp_str_def Let_def u_ascii)
  with ds have "list_all (\<lambda>c. c < 128) (format_digits ds k)"
    by (auto simp: format_digits_def Let_def u_def zeros_def list_all_iff dest: in_set_takeD in_set_dropD)
  then show ?thesis unfolding r(1) by simp
qed

lemma demo_val: "demo_val = Fin False 6924284427082138 (-49)"
  by (simp add: demo_val_def float_eval)

lemma str_of_small_int: "0 \<le> n \<Longrightarrow> n < 10 ^ 18 \<Longrightarrow> str_of_int n = Inr (int_str n)"
  using dec_digits_short [of n 18] by (simp add: str_of_int_def max_str_digits_def)

section \<open>One message\<close>

definition demo_signed :: "bytes \<Rightarrow> int \<Rightarrow> int \<Rightarrow> pyval" where
  "demo_signed sg sq ts = PDict (dict_set (u ''sig'') (PStr (b64encode sg)) (demo_payload sq ts))"

text \<open>Producer and verifier build the same text to sign.\<close>

lemma demo_sign_message_eq: "legacy_sign_message pr (demo_signed sg sq ts) = demo_sign_message pr sq ts"
  by (cases "str_of_int sq"; cases "str_of_int ts")
    (simp_all add: legacy_sign_message_def legacy_sign_fields_def demo_signed_def demo_payload_def
      demo_sign_message_def; simp add: u_def)+

lemma ascii_text_ok: "list_all (\<lambda>c. c < 128) t \<Longrightarrow> text_ok t"
  by (auto simp: text_ok_def list_all_iff is_surrogate_def)

lemma u_text_ok: "text_ok (u t) = list_all (\<lambda>c. of_char c < (1114112 :: nat) \<and> \<not> is_surrogate (of_char c)) t"
  by (simp add: text_ok_def u_def list_all_iff)

lemma demo_signed_texts: "wf_value (demo_signed sg sq ts)" "texts_ok (demo_signed sg sq ts)"
  using ascii_text_ok [OF b64encode_ascii, of sg]
  by (simp_all add: demo_signed_def demo_payload_def demo_val dict_keys_def u_text_ok is_surrogate_def)

lemma demo_text_parts:
  assumes "demo_text pr sign d sq ts = Inr t"
  obtains msg m where "demo_sign_message pr sq ts = Inr msg" "utf8_encode msg = Inr m"
    "json_loads d t = Inr (demo_signed (sign m) sq ts)"
proof -
  obtain msg m where m: "demo_sign_message pr sq ts = Inr msg" "utf8_encode msg = Inr m"
    "json_dumps d (demo_signed (sign m) sq ts) = Inr t"
    using assms by (auto simp: demo_text_def demo_packet_def demo_signed_def rbind_iffs simp del: json_dumps.simps)
  with json_loads_dumps [OF m(3) demo_signed_texts] that show ?thesis by blast
qed

lemma demo_text_exists:
  assumes "0 \<le> sq" "sq < 10 ^ 18" and "0 \<le> ts" "ts < 10 ^ 18" and "0 < d"
  shows "\<exists>t. demo_text pr sign d sq ts = Inr t"
proof -
  note str = str_of_small_int [OF assms(1,2)] str_of_small_int [OF assms(3,4)]
  have "list_all (\<lambda>c. c < 128) (float_repr demo_val)" unfolding demo_val by (rule float_repr_ascii) simp_all
  then have "utf8_encode (u ''car-001|demo-key-1|steer|'' @ float_repr demo_val @ u ''|'' @ int_str sq @ u ''|'' @ int_str ts)
      = Inr (u ''car-001|demo-key-1|steer|'' @ float_repr demo_val @ u ''|'' @ int_str sq @ u ''|'' @ int_str ts)"
    by (intro utf8_ascii) (simp add: int_str_ascii u_ascii)
  then have "\<exists>m. demo_packet pr sign sq ts = Inr (demo_signed (sign m) sq ts)"
    by (auto simp: demo_packet_def demo_sign_message_def demo_signed_def str)
  moreover have "\<exists>t. json_dumps d (demo_signed sg sq ts) = Inr t" for sg
    using assms(5) by (simp add: demo_signed_def demo_payload_def str)
  ultimately show ?thesis by (auto simp: demo_text_def simp del: json_dumps.simps)
qed

text \<open>One message, from its text on, at a verifier that has loaded the demo's registration.\<close>

definition demo_ready :: "'k lib \<Rightarrow> (bytes \<Rightarrow> bytes) \<Rightarrow> bytes \<Rightarrow> 'k command_verifier \<Rightarrow> bool" where
  "demo_ready x sign pk v \<longleftrightarrow>
     (\<exists>reg key. current_key v = Some reg \<and> cv_key v = Some key \<and> parse_registration (demo_registration pk) = Inr reg
        \<and> (\<forall>m. verify_sig x key m (sign m) = Inr ()))
     \<and> cv_vehicle v = u ''car-001'' \<and> (\<forall>m. list_all (\<lambda>b. b < 256) (sign m))"

lemma demo_message_accepted:
  assumes ready: "demo_ready x sign pk v" and t: "demo_text (printable x) sign (rec_limit x) sq ts = Inr t"
    and fresh: "millis wall = Inr now_ms" "\<bar>now_ms - ts\<bar> \<le> max_skew_ms v" "last_seq v < sq"
  shows "\<exists>sg. legacy_verify_packet x t wall now v
    = (v\<lparr>last_seq := sq, cv_last_valid := now\<rparr>, Inr (Some (demo_signed sg sq ts)))"
proof (rule demo_text_parts [OF t])
  fix msg m
  assume m: "demo_sign_message (printable x) sq ts = Inr msg" "utf8_encode msg = Inr m"
    "json_loads (rec_limit x) t = Inr (demo_signed (sign m) sq ts)"
  let ?packet = "demo_signed (sign m) sq ts"
  obtain reg key where r: "current_key v = Some reg" "cv_key v = Some key"
    "parse_registration (demo_registration pk) = Inr reg" "verify_sig x key m (sign m) = Inr ()"
    using ready by (auto simp: demo_ready_def)
  have reg: "key_id reg = PStr (u ''demo-key-1'')"
    using r(3) by (auto simp: parse_registration_def demo_registration_def)
  have "legacy_header reg (cv_vehicle v) ?packet = Inr True"
    using ready by (simp add: demo_ready_def legacy_header_True reg LEGACY_REQUIRED_def demo_signed_def demo_payload_def)
  moreover have "legacy_fresh v wall ?packet = Inr (Some sq)"
    using fresh by (simp add: legacy_fresh_Some int_field_def demo_signed_def demo_payload_def)
  moreover have "legacy_signature x key ?packet = Inr True"
  proof -
    have "py_getitem ?packet (u ''sig'') = Inr (PStr (b64encode (sign m)))" by (simp add: demo_signed_def)
    moreover have "b64decode False (PStr (b64encode (sign m))) = Inr (sign m)"
      using a2b_base64_b64encode [of "sign m"] ready
      by (simp add: demo_ready_def ascii_encode_def b64encode_ascii)
    ultimately show ?thesis using m(1,2) r(4) by (auto simp: legacy_signature_True demo_sign_message_eq)
  qed
  ultimately have "legacy_check x v reg key wall ?packet = Inr (Some sq)" by (simp add: legacy_check_Some)
  with m(3) r(1,2) show ?thesis by (auto simp: legacy_verify_packet_def)
qed

section \<open>The whole run\<close>

text \<open>The messages carry consecutive numbers.\<close>

fun numbered :: "(nat \<Rightarrow> bool) \<Rightarrow> (bytes \<Rightarrow> bytes) \<Rightarrow> nat \<Rightarrow> int \<Rightarrow> pystr list \<Rightarrow> bool" where
  "numbered pr sign d sq [] \<longleftrightarrow> True"
| "numbered pr sign d sq (t # texts) \<longleftrightarrow>
     (\<exists>ts. demo_text pr sign d sq ts = Inr t) \<and> numbered pr sign d (sq + 1) texts"

lemma numbered_append:
  "numbered pr sign d sq (a @ b) \<longleftrightarrow> numbered pr sign d sq a \<and> numbered pr sign d (sq + int (length a)) b"
  by (induction a arbitrary: sq) (auto simp: algebra_simps)

lemma produce_numbers:
  "produce pr sign d sends sq = (texts, sq', out) \<Longrightarrow> numbered pr sign d sq texts \<and> sq' = sq + int (length texts)"
proof (induction sends arbitrary: sq texts sq' out)
  case (Cons i sends)
  then show ?case
    by (fastforce simp: rbind_iffs split: sum.splits prod.splits)
qed simp

lemma producer_numbers:
  "producer_from pr sign d turns sq = (texts, sq', fin)
    \<Longrightarrow> numbered pr sign d sq texts \<and> sq' = sq + int (length texts)"
proof (induction turns arbitrary: sq texts sq' fin)
  case (Cons i turns)
  then show ?case
    by (fastforce simp: numbered_append dest: produce_numbers split: sum.splits prod.splits if_splits)
qed simp

text \<open>The difference between the receiver's clock and the timestamp in the text.\<close>

definition prompt :: "'k lib \<Rightarrow> int \<Rightarrow> legacy_input \<Rightarrow> bool" where
  "prompt x skew i \<longleftrightarrow>
     (case (millis (li_wall i), rbind (json_loads (rec_limit x) (li_raw i)) (\<lambda>p. int_field p ''ts'')) of
        (Inr now_ms, Inr ts) \<Rightarrow> \<bar>now_ms - ts\<bar> \<le> skew | _ \<Rightarrow> False)"

lemma demo_stamp: "int_field (demo_signed sg sq ts) ''ts'' = Inr ts"
  by (simp add: int_field_def demo_signed_def demo_payload_def)

lemma demo_number: "legacy_number (demo_signed sg sq ts) = sq"
  by (simp add: legacy_number_def int_field_def demo_signed_def demo_payload_def)

lemma demo_inputs_accepted:
  assumes "numbered (printable x) sign (rec_limit x) sq (map li_raw inputs)"
    and "demo_ready x sign pk v" and "list_all (prompt x (max_skew_ms v)) inputs" and "last_seq v < sq"
  shows "\<exists>v' payloads. offers (legacy_offer x) inputs v = (v', payloads)
    \<and> map legacy_number payloads = [sq..sq + int (length inputs) - 1]"
  using assms
proof (induction inputs arbitrary: sq v)
  case (Cons i inputs)
  obtain ts where ts: "demo_text (printable x) sign (rec_limit x) sq ts = Inr (li_raw i)"
    using Cons.prems(1) by auto
  obtain now_ms where now: "millis (li_wall i) = Inr now_ms" "\<bar>now_ms - ts\<bar> \<le> max_skew_ms v"
    using Cons.prems(3) by (rule_tac demo_text_parts [OF ts]) (auto simp: prompt_def demo_stamp split: sum.splits)
  let ?v = "v\<lparr>last_seq := sq, cv_last_valid := li_now i\<rparr>"
  obtain sg where "legacy_offer x i v = (?v, Some (demo_signed sg sq ts))"
    using demo_message_accepted [OF Cons.prems(2) ts now Cons.prems(4)] by (auto simp: legacy_offer_Some)
  moreover have "\<exists>v' payloads. offers (legacy_offer x) inputs ?v = (v', payloads)
      \<and> map legacy_number payloads = [sq + 1..sq + 1 + int (length inputs) - 1]"
    using Cons.prems by (intro Cons.IH) (simp_all add: demo_ready_def)
  ultimately show ?case by (auto simp: demo_number upto_rec1 algebra_simps)
qed simp

text \<open>
  C40: The demo's producer and the stage-1 verifier agree: over all its connections the producer numbers
  what it sends 1, 2, 3, ... and, when the signatures it makes verify under the key of its registration,
  a verifier that has loaded that registration accepts every one of these texts, in this order, as long
  as each arrives within the clock skew.
\<close>

theorem demo_stream_verifies:
  assumes "producer_loop (printable x) sign (rec_limit x) turns = (texts, sq, fin)"
    and "map li_raw inputs = texts" and "demo_ready x sign pk v"
    and "list_all (prompt x (max_skew_ms v)) inputs" and "last_seq v = 0"
  shows "\<exists>v' payloads. offers (legacy_offer x) inputs v = (v', payloads)
    \<and> map legacy_number payloads = [1..int (length texts)] \<and> sq = 1 + int (length texts)"
proof -
  have "numbered (printable x) sign (rec_limit x) 1 (map li_raw inputs)" "sq = 1 + int (length texts)"
    using producer_numbers [of "printable x"] assms(1,2) by (auto simp: producer_loop_def)
  with demo_inputs_accepted [OF this(1) assms(3,4)] assms(2,5) show ?thesis by auto
qed

definition demo_verifier :: "registration \<Rightarrow> bytes command_verifier" where
  "demo_verifier reg = legacy_verifier\<lparr>current_key := Some reg\<rparr>"

definition demo_turn :: queue_turn where
  "demo_turn = \<lparr>qt_got = Inr (), qt_slept = Inr (),
     qt_sends = [\<lparr>ds_wall = f1, ds_sent = Inr (), ds_slept = Inr ()\<rparr>]\<rparr>"

theorem demo_stream_verifies_witness:
  "\<exists>reg t v' payload. parse_registration (demo_registration [0, 0, 0]) = Inr reg
     \<and> producer_loop (printable sample_lib) (\<lambda>m. [0, 0, 0]) (rec_limit sample_lib) [demo_turn] = ([t], 2, LoopRuns)
     \<and> offers (legacy_offer sample_lib) [\<lparr>li_raw = t, li_wall = f1, li_now = f1\<rparr>] (demo_verifier reg)
        = (v', [payload])
     \<and> legacy_number payload = 1"
proof -
  let ?x = sample_lib and ?sign = "\<lambda>m :: bytes. [0, 0, 0 :: nat]"
  obtain reg where reg: "parse_registration (demo_registration [0, 0, 0]) = Inr reg"
    by (simp add: parse_registration_def demo_registration_def)
  obtain t where t: "demo_text (printable ?x) ?sign (rec_limit ?x) 1 1000 = Inr t"
    using demo_text_exists [of 1 1000 "rec_limit ?x" "printable ?x" ?sign] by (auto simp: sample_lib_def)
  let ?i = "\<lparr>li_raw = t, li_wall = f1, li_now = f1\<rparr>"
  have run: "producer_loop (printable ?x) ?sign (rec_limit ?x) [demo_turn] = ([t], 2, LoopRuns)"
    by (simp add: producer_loop_def demo_turn_def sample_millis t pass_Exception_def)
  have "demo_ready ?x ?sign [0, 0, 0] (demo_verifier reg)"
    using reg by (simp add: demo_ready_def demo_verifier_def legacy_verifier_def sample_lib_def sample_verify_def)
  moreover have "list_all (prompt ?x (max_skew_ms (demo_verifier reg))) [?i]"
    by (rule demo_text_parts [OF t])
      (simp add: prompt_def demo_stamp sample_millis demo_verifier_def legacy_verifier_def)
  ultimately have "\<exists>v' payloads. offers (legacy_offer ?x) [?i] (demo_verifier reg) = (v', payloads)
      \<and> map legacy_number payloads = [1..int (length [t])] \<and> (2 :: int) = 1 + int (length [t])"
    by (intro demo_stream_verifies [OF run])
      (simp_all add: demo_verifier_def legacy_verifier_def)
  then obtain v' payloads where "offers (legacy_offer ?x) [?i] (demo_verifier reg) = (v', payloads)"
    "map legacy_number payloads = [1]"
    by auto
  with reg run show ?thesis by (auto simp: Cons_eq_map_conv map_eq_Cons_conv)
qed

section \<open>Starting the demo\<close>

text \<open>
  The demo never starts the agent: the arguments it gives do not bind to the parameters of
  \<open>run_agent\<close>, and as they are bound before the \<open>try\<close>, the server is not shut down either. The call
  of \<open>main\<close> in \<open>vehicle_node.py\<close> binds.
\<close>

lemma demo_call_fails: "bind_arguments run_agent_parameters 0 demo_keywords = Inl TypeError"
  by (simp add: bind_arguments_def run_agent_parameters_def demo_keywords_def)

lemma main_call_binds:
  "bind_arguments run_agent_parameters 2
     [u ''device_config'', u ''backend_token_url'', u ''livekit_url'', u ''auth_token'', u ''camera_options''] = Inr ()"
  by (simp add: bind_arguments_def run_agent_parameters_def)

lemma demo_never_starts:
  "case demo_main d pk w of (fx, out) \<Rightarrow>
     Agent_Task \<notin> set fx \<and> Cleaned \<notin> set fx \<and> (\<exists>e. out = Inl e) \<and> (Produces \<in> set fx \<longrightarrow> out = Inl TypeError)"
  by (auto simp: demo_main_def ws_server_def demo_call_fails rbind_iffs split: sum.splits prod.splits)

text \<open>The demo of the receiver ends with the flag cleared, unless it is cancelled.\<close>

lemma receiver_demo_stops:
  "receiver_demo x now ex rounds nap = (a, Inr ()) \<Longrightarrow> \<not> agent_running a \<and> nap = Inr ()"
  by (auto simp: receiver_demo_def split: sum.splits prod.splits)

end
