(* ===== verification/Message_Schema.thy ===== *)
theory Message_Schema
  imports Control_Theorems Session_Facts Json_Facts
begin

text \<open>
  The published message format, \<open>api/schemas/datachannel-control.schema.json\<close>, as a predicate on JSON
  values, and how \<open>verify_packet\<close> and \<open>valid_command\<close> relate to it: every message of that format is
  accepted and applied as it says, but other messages are accepted too.
\<close>

section \<open>The schema\<close>

text \<open>\<open>"type": "integer"\<close>: a number without fraction, whichever way it is written.\<close>

fun whole :: "pyval \<Rightarrow> int option" where
  "whole (PInt n) = Some n"
| "whole (PFloat x) = (case flt_to_int x of Inr n \<Rightarrow> if flt_eq_int x n then Some n else None | Inl _ \<Rightarrow> None)"
| "whole v = None"

text \<open>\<open>"type": "number"\<close> with a minimum and a maximum.\<close>

fun number_within :: "int \<Rightarrow> int \<Rightarrow> pyval \<Rightarrow> bool" where
  "number_within lo hi (PInt n) \<longleftrightarrow> lo \<le> n \<and> n \<le> hi"
| "number_within lo hi (PFloat x) \<longleftrightarrow> int_le_flt lo x \<and> flt_le_int x hi"
| "number_within lo hi v \<longleftrightarrow> False"

definition field_is :: "pyval dict \<Rightarrow> string \<Rightarrow> (pyval \<Rightarrow> bool) \<Rightarrow> bool" where
  "field_is d k P \<longleftrightarrow> (case map_of d (u k) of None \<Rightarrow> False | Some v \<Rightarrow> P v)"

definition schema_high_level :: "pyval dict \<Rightarrow> bool" where
  "schema_high_level d \<longleftrightarrow>
     keys_are d [u ''mode'', u ''action''] \<and> field_is d ''mode'' (\<lambda>v. eq_str v (u ''high_level''))
   \<and> field_is d ''action'' (\<lambda>v. list_ex (\<lambda>a. eq_str v (u a))
        [''forward'', ''reverse'', ''left'', ''right'', ''stop'', ''emergency_stop''])"

definition schema_low_level :: "pyval dict \<Rightarrow> bool" where
  "schema_low_level d \<longleftrightarrow>
     keys_are d [u ''mode'', u ''steering'', u ''throttle'', u ''brake'', u ''direction'']
   \<and> field_is d ''mode'' (\<lambda>v. eq_str v (u ''low_level''))
   \<and> field_is d ''steering'' (number_within (-1) 1) \<and> field_is d ''throttle'' (number_within 0 1)
   \<and> field_is d ''brake'' (number_within 0 1)
   \<and> field_is d ''direction'' (\<lambda>v. whole v \<in> {Some (-1), Some 0, Some 1})"

text \<open>\<open>oneOf\<close>: exactly one of the two.\<close>

fun schema_command :: "pyval \<Rightarrow> bool" where
  "schema_command (PDict d) \<longleftrightarrow> schema_high_level d \<noteq> schema_low_level d"
| "schema_command v \<longleftrightarrow> False"

fun schema_text :: "pyval \<Rightarrow> bool" where
  "schema_text (PStr t) \<longleftrightarrow> True"
| "schema_text v \<longleftrightarrow> False"

fun schema_packet :: "pyval \<Rightarrow> bool" where
  "schema_packet (PDict d) \<longleftrightarrow>
     keys_are d [u ''version'', u ''type'', u ''session_id'', u ''sequence'', u ''timestamp_ms'', u ''command'',
       u ''signature'']
   \<and> field_is d ''version'' (\<lambda>v. whole v = Some 1) \<and> field_is d ''type'' (\<lambda>v. eq_str v (u ''control''))
   \<and> field_is d ''session_id'' (\<lambda>v. schema_text v \<and> v \<noteq> PStr [])
   \<and> field_is d ''sequence'' (\<lambda>v. case whole v of Some n \<Rightarrow> 1 \<le> n | None \<Rightarrow> False)
   \<and> field_is d ''timestamp_ms'' (\<lambda>v. whole v \<noteq> None)
   \<and> field_is d ''command'' schema_command \<and> field_is d ''signature'' schema_text"
| "schema_packet v \<longleftrightarrow> False"

section \<open>Numbers\<close>

lemma field_is_iff: "field_is d k P \<longleftrightarrow> (\<exists>v. map_of d (u k) = Some v \<and> P v)"
  by (auto simp: field_is_def split: option.splits)

lemma whole_int: "whole v = Some n \<Longrightarrow> py_int v = Inr n \<and> eq_int v n"
  by (cases v) (auto split: sum.splits if_splits)

lemma small_int_float:
  assumes "n \<in> {-1, 0, 1}"
  shows "\<exists>x. flt_of_int n = Inr x \<and> is_finite x \<and> rval x = of_int n"
proof -
  have "n = -1 \<or> n = 0 \<or> n = 1" using assms by auto
  then show ?thesis
    by (elim disjE) (simp_all add: flt_of_int_def small_constants power_int_def power_one_over)
qed

lemma whole_float:
  assumes "whole v = Some n" and "n \<in> {-1, 0, 1}"
  shows "\<exists>x. py_float v = Inr x \<and> is_finite x \<and> rval x = of_int n"
proof (cases v)
  case (PFloat x)
  with assms(1) have x: "flt_to_int x = Inr n" "flt_eq_int x n" by (auto split: sum.splits if_splits)
  then have "is_finite x" by (cases x) auto
  with x(2) have "rval x = of_int n" by (simp add: flt_eq_int_def cmp_int_rval)
  with PFloat \<open>is_finite x\<close> show ?thesis by simp
qed (use assms small_int_float in auto)

lemma number_float:
  assumes "number_within lo hi v" and "- 1 \<le> lo" and "hi \<le> 1"
  shows "float_within lo hi v"
proof (cases v)
  case (PInt n)
  with assms have "n \<in> {-1, 0, 1}" "lo \<le> n" "n \<le> hi" by auto
  with small_int_float PInt show ?thesis by (fastforce simp: float_within_def)
next
  case (PFloat x)
  with assms(1) show ?thesis by (simp add: float_within_def bounds_iff del: is_finite.simps)
qed (use assms in auto)

section \<open>Commands of the schema\<close>

lemma schema_high_valid:
  assumes "schema_high_level d"
  shows "valid_command (PDict d) = Inr True"
proof -
  have "dom (map_of d) = {u ''mode'', u ''action''}" "map_of d (u ''mode'') = Some (PStr (u ''high_level''))"
    using assms by (auto simp only: schema_high_level_def keys_are_iff field_is_iff eq_str_iff list.set)
  moreover obtain a where "map_of d (u ''action'') = Some (PStr (u a))"
    "a \<in> set [''forward'', ''reverse'', ''left'', ''right'', ''stop'', ''emergency_stop'']"
    using assms unfolding schema_high_level_def field_is_iff eq_str_iff list_ex_iff by blast
  then have "map_of d (u ''action'') = Some (PStr (u a))" "a \<in> action_names"
    by (simp_all only: action_names_def list.set)
  ultimately show ?thesis by (rule valid_high)
qed

lemma schema_low_valid:
  assumes "schema_low_level d"
  shows "valid_command (PDict d) = Inr True"
proof -
  obtain dir k where dir: "map_of d (u ''direction'') = Some dir" "whole dir = Some k" "k \<in> {-1, 0, 1}"
    using assms by (auto simp: schema_low_level_def field_is_iff)
  have "controls_within d"
    using assms number_float by (fastforce simp: schema_low_level_def field_is_iff controls_within_def)
  with assms dir whole_int [OF dir(2)] show ?thesis
    by (intro valid_low [of d dir k])
      (auto simp: schema_low_level_def field_is_iff eq_str_iff keys_are_iff)
qed

lemma schema_command_valid: "schema_command c \<Longrightarrow> valid_command c = Inr True"
  using schema_high_valid schema_low_valid by (cases c) (auto simp del: valid_command.simps)

text \<open>A command of the schema never resolves to a fraction of a direction.\<close>

lemma schema_command_direction:
  assumes "schema_command c" and "resolve_command c = Inr a"
  shows "rval (direction a) \<in> {-1, 0, 1}"
proof -
  obtain d where c: "c = PDict d" using assms(1) by (cases c) auto
  show ?thesis
  proof (cases "schema_high_level d")
    case True
    then have "map_of d (u ''mode'') = Some (PStr HIGH_LEVEL_MODE)"
      by (auto simp: schema_high_level_def field_is_iff eq_str_iff protocol_constants)
    with assms(2) c obtain v where "a = resolve_action v"
      by (auto simp: resolve_command_def mode_is_dict rbind_iffs)
    then show ?thesis by (simp add: resolve_action_def)
  next
    case False
    with assms(1) c have low: "schema_low_level d" by simp
    obtain dir k where dir: "map_of d (u ''direction'') = Some dir" "whole dir = Some k" "k \<in> {-1, 0, 1}"
      using low by (auto simp: schema_low_level_def field_is_iff)
    have "map_of d (u ''mode'') \<noteq> Some (PStr HIGH_LEVEL_MODE)"
      using low by (auto simp: schema_low_level_def field_is_iff eq_str_iff protocol_constants)
    with assms(2) c dir(1) have "py_float dir = Inr (direction a)"
      by (auto simp: resolve_command_def mode_is_dict rbind_iffs)
    with whole_float [OF dir(2,3)] dir(3) show ?thesis by auto
  qed
qed

section \<open>Packets of the schema\<close>

text \<open>
  What the vehicle needs beside the format: an active session with its key, the session's operator as
  the sender, a clock within the session and the time window, a new number and the signature.
\<close>

definition deliverable ::
  "'k lib \<Rightarrow> 'k verifier \<Rightarrow> pystr \<Rightarrow> pyfloat \<Rightarrow> pyval \<Rightarrow> int \<Rightarrow> bool" where
  "deliverable x v sender wall packet sq \<longleftrightarrow>
     (\<exists>s key op now_ms ts d. session v = Some s \<and> verify_key v = Some key \<and> packet = PDict d
      \<and> map_of d (u ''session_id'') = Some (session_id s)
      \<and> py_str (printable x) (operator_id s) = Inr op \<and> sender = u ''operator-'' @ op
      \<and> millis wall = Inr now_ms \<and> now_ms \<le> expires_at_ms s
      \<and> field_is d ''timestamp_ms'' (\<lambda>t. whole t = Some ts)
      \<and> now_ms - ts \<le> max_age_ms v \<and> ts - now_ms \<le> max_future_skew_ms v
      \<and> field_is d ''sequence'' (\<lambda>n. whole n = Some sq) \<and> last_sequence v < sq
      \<and> check_signature x key packet = Inr ())"

lemma whole_field: "field_is d k (\<lambda>v. whole v = Some n) \<Longrightarrow> int_field (PDict d) k = Inr n"
  by (auto simp: field_is_iff int_field_def dest: whole_int)

lemma schema_admissible:
  assumes schema: "schema_packet packet" and raw: "json_loads (rec_limit x) raw = Inr packet"
    and del: "deliverable x v sender wall packet sq"
  shows "admissible x raw sender wall v packet sq"
proof -
  obtain s key op now_ms ts d where v: "session v = Some s" "verify_key v = Some key"
    and d: "packet = PDict d" "map_of d (u ''session_id'') = Some (session_id s)"
    and env: "py_str (printable x) (operator_id s) = Inr op" "sender = u ''operator-'' @ op"
      "millis wall = Inr now_ms" "now_ms \<le> expires_at_ms s"
      "now_ms - ts \<le> max_age_ms v" "ts - now_ms \<le> max_future_skew_ms v" "last_sequence v < sq"
    and ints: "int_field packet ''timestamp_ms'' = Inr ts" "int_field packet ''sequence'' = Inr sq"
    and sig: "check_signature x key packet = Inr ()"
    using del whole_field unfolding deliverable_def by blast
  have keys: "map_of d k \<noteq> None" if "k \<in> set REQUIRED" for k
    using schema that unfolding d(1) by (auto simp: keys_are_iff REQUIRED_def)
  obtain version where version: "map_of d (u ''version'') = Some version" "whole version = Some 1"
    using schema unfolding d(1) by (auto simp: field_is_iff)
  obtain command where command: "map_of d (u ''command'') = Some command" "schema_command command"
    using schema unfolding d(1) by (auto simp: field_is_iff)
  have "map_of d (u ''type'') = Some (PStr CONTROL_TYPE)" "\<exists>t. session_id s = PStr t"
    using schema d(2) unfolding d(1) CONTROL_TYPE_def
    by (auto simp: field_is_iff eq_str_iff elim: schema_text.elims)
  with keys version whole_int [OF version(2)] d(1,2) have "verify_header packet = Inr True"
    "verify_sender (printable x) s packet sender = Inr True"
    using env(1,2) by (auto simp: verify_header_True verify_sender_True PROTOCOL_VERSION_def)
  then have "verify_body x v s key raw sender wall = Inr (Passed packet)"
    unfolding verify_body_Passed using raw env ints sig command d(1) schema_command_valid [OF command(2)] by auto
  with v ints show ?thesis unfolding admissible_iff by blast
qed

text \<open>
  C2: The vehicle implements the published message format: every message that conforms to
  \<open>datachannel-control.schema.json\<close>, comes from the operator of the active session in time, with a
  new number and a good signature, is accepted, and its command resolves to actuator values in
  range, with a direction of exactly -1, 0 or 1.
\<close>

theorem schema_packet_accepted:
  assumes "schema_packet packet" and "json_loads (rec_limit x) raw = Inr packet"
    and "deliverable x v sender wall packet sq"
  shows "verify_packet x raw sender wall now v
      = (v\<lparr>last_sequence := sq, last_valid_cmd_time := now\<rparr>, Inr (Some packet))
    \<and> (\<exists>a. rbind (py_getitem packet (u ''command'')) resolve_command = Inr a
        \<and> in_range (-1) 1 (steering a) \<and> in_range 0 1 (throttle a) \<and> in_range 0 1 (brake a)
        \<and> rval (direction a) \<in> {-1, 0, 1})"
proof -
  obtain d where d: "packet = PDict d" using assms(1) by (cases packet) auto
  obtain command where command: "map_of d (u ''command'') = Some command" "schema_command command"
    using assms(1) unfolding d by (auto simp: field_is_iff)
  from resolve_valid [OF schema_command_valid [OF command(2)]] obtain a where a: "resolve_command command = Inr a"
    "in_range (-1) 1 (steering a)" "in_range 0 1 (throttle a)" "in_range 0 1 (brake a)" by blast
  with schema_command_direction [OF command(2) a(1)] command(1) d schema_admissible [OF assms] show ?thesis
    by (auto simp: verify_accepts)
qed

theorem schema_packet_accepted_witness:
  "verify_packet sample_lib sample_raw (u ''operator-a'') f1 f1 sample_verifier =
     (sample_verifier\<lparr>last_sequence := 1, last_valid_cmd_time := f1\<rparr>, Inr (Some sample_packet))
   \<and> schema_packet sample_packet"
proof -
  have "schema_packet sample_packet"
    by (simp add: sample_packet_def sample_command_def keys_are_def dict_keys_def field_is_def
        schema_high_level_def schema_low_level_def)
  moreover have "json_loads (rec_limit sample_lib) sample_raw = Inr sample_packet"
    by (simp add: sample_lib_def sample_loads)
  moreover have "deliverable sample_lib sample_verifier (u ''operator-a'') f1 sample_packet 1"
    using sample_signature sample_millis
    by (auto simp: deliverable_def sample_verifier_def sample_session_def field_is_iff sample_packet_def
        u_append [symmetric])
  ultimately show ?thesis using schema_packet_accepted by blast
qed

section \<open>Beyond the schema\<close>

text \<open>
  The converse fails: a command without a mode, numbers written as text or as booleans, and a fractional
  direction are accepted, and none of them is a command of the schema.
\<close>

definition drive :: "pyval \<Rightarrow> pyval \<Rightarrow> pyval" where
  "drive steer dir = PDict [(u ''mode'', PStr (u ''low_level'')), (u ''steering'', steer), (u ''throttle'', PInt 0),
     (u ''brake'', PInt 0), (u ''direction'', dir)]"

lemma accepted_beyond_schema:
  "c \<in> {PDict [(u ''steering'', PInt 0), (u ''throttle'', PInt 0), (u ''brake'', PInt 0)],
         drive (PBool True) (PInt 1), drive (PInt 0) (PBool True), drive (PInt 0) (PStr (u ''1'')),
         drive (PInt 0) (PFloat (Fin False 6755399441055744 (-52)))} \<Longrightarrow>
     valid_command c = Inr True \<and> \<not> schema_command c"
proof -
  have ints: "flt_of_int 0 = Inr f0" "flt_of_int 1 = Inr f1" by (simp_all add: flt_of_int_def small_constants)
  have one: "int_of_str (u ''1'') = Inr 1" by (simp add: u_def json_eval)
  show "c \<in> {PDict [(u ''steering'', PInt 0), (u ''throttle'', PInt 0), (u ''brake'', PInt 0)],
         drive (PBool True) (PInt 1), drive (PInt 0) (PBool True), drive (PInt 0) (PStr (u ''1'')),
         drive (PInt 0) (PFloat (Fin False 6755399441055744 (-52)))} \<Longrightarrow>
     valid_command c = Inr True \<and> \<not> schema_command c"
    by (elim insertE emptyE)
      (simp_all add: drive_def mode_is_def keys_are_def LOW_KEYS_def PLAIN_KEYS_def HIGH_KEYS_def dict_keys_def
        valid_ranges_def protocol_constants ints one schema_high_level_def schema_low_level_def field_is_def
        flt_eq_int_def scale2_def fin_num_def fin_den_def)
qed

end
