(* ===== verification/Spec2Isabelle.thy ===== *)
theory Spec2Isabelle
  imports Control_Theorems Node_Theorems Link_Theorems Video_Theorems Legacy_Theorems Loop_Theorems
    Node_Authority Node_Replay Node_Accounts Command_Line_Theorems Demo_Theorems Message_Schema
begin

text \<open>
  Verification development of the vehicle-edge agent, the Python package
  \<open>apps/vehicle-edge/src/vehicle_edge\<close>: the process on a remotely driven vehicle that receives
  signed control packets, drives or brakes, reports telemetry and audit events, and publishes
  camera video.

  \<^bold>\<open>The program and its parts.\<close> \<open>vehicle_node.py\<close> starts the agent: it obtains the vehicle's
  credentials and tokens (\<open>device_credentials.py\<close>), loads the active control session from the
  gateway and runs the tasks that share one \<open>SessionVehicleRuntime\<close>
  (\<open>control_session_receiver.py\<close>): the handler of data packets, the safety watchdog, the refreshes
  of the session and of the token, telemetry, audit and the LiveKit connection with its cameras
  (\<open>camera_config.py\<close>, \<open>camera_capture.py\<close>, \<open>video_publisher.py\<close>, \<open>video_state.py\<close>). A packet goes
  through \<open>SessionCommandVerifier.verify_packet\<close>, which uses \<open>control_protocol.py\<close> for the signed
  text and the validity of the command, and reaches the \<open>EmergencyBrakeController\<close> of
  \<open>secure_receiver.py\<close>. That file also holds the older stage-1 receiver, with a key registration
  instead of a session, which \<open>demo_run.py\<close> was written for.

  \<^bold>\<open>Python.\<close> \<open>Prelude\<close> has text as lists of code points, dicts as association lists in insertion
  order, the exceptions as the datatype \<open>py_error\<close> and fallible computations as \<open>'a res\<close>, a sum
  with the exception on the left. A method that changes an object returns the changed record
  beside its result, so what was changed before an exception stays changed. \<open>Py_Float\<close> is binary64
  arithmetic computed exactly and rounded once, \<open>Py_Str\<close> the conversions between text and numbers,
  \<open>Py_Codec\<close> UTF-8 and base64, \<open>Py_Value\<close> the values \<open>json.loads\<close> can return with the operations the
  program applies to values of unknown type, \<open>Json_Decode\<close> the parser of \<open>json.loads\<close>,
  \<open>Json_Encode\<close> the writer of \<open>json.dumps\<close>, whose texts are shown to be read back. Their
  \<open>..._Facts\<close>, \<open>Py_Float_Round\<close> and \<open>Py_Float_Error\<close> relate the floats to the reals and show that
  \<open>str\<close> of a number reads back as the number. The version modelled is CPython 3.11.

  \<^bold>\<open>Theories and code.\<close>
  \<open>Control_Protocol\<close> is \<open>control_protocol.py\<close>; \<open>Brake\<close> is \<open>EmergencyBrakeController\<close>; \<open>World\<close> names what
  comes from outside (clocks, HTTP exchanges, the signature library). \<open>Session_Receiver\<close> and
  \<open>Session_Runtime\<close> are the two classes of \<open>control_session_receiver.py\<close>, one definition per method
  or per round of a loop; \<open>Secure_Receiver\<close> and \<open>Secure_Runtime\<close> those of \<open>secure_receiver.py\<close>;
  \<open>Device_Credentials\<close>, \<open>Camera\<close>, \<open>Video_State\<close>, \<open>Video_Publisher\<close> and \<open>Demo_Run\<close> the files of the same
  names (\<open>Demo_Run\<close> has \<open>_demo\<close> of \<open>secure_receiver.py\<close> too). \<open>Vehicle_Node\<close> is \<open>vehicle_node.py\<close>; its \<open>node_step\<close> is the interleaving of the tasks of
  \<open>run_agent\<close>, a step being what one task does between two suspension points, labelled with what is
  seen of it (a delivery and what the verifier makes of it, a reading of the watchdog, a request,
  an answer, a post); \<open>node_reachable\<close> are its states and \<open>node_run\<close> its runs with their labels. The
  clock readings of a step are arbitrary; \<open>paced\<close> says of a run with times that the wall clock does
  not go back and that the periodic refresh sleeps for its second between an answer and the next
  request. \<open>Camera_Ownership\<close> has the corresponding \<open>camera_step\<close> for \<open>start\<close>, the
  frame tasks, \<open>collect_finished\<close> and \<open>close\<close> of the publisher. \<open>Agent_Loops\<close> puts the rounds together
  to the loops of the program, with what the other tasks do meanwhile as an argument. \<open>Command_Line\<close> is
  \<open>_parse_args\<close> and \<open>main\<close> of \<open>vehicle_node.py\<close>, with the rules of \<open>argparse\<close> for the options declared there.

  \<^bold>\<open>Interfaces.\<close> \<open>sequence_gate\<close> and \<open>renewable_gate\<close> (\<open>Sequence_Gate\<close>) are the anti-replay contract of
  a verifier, interpreted on the session verifier and on the stage-1 verifier; \<open>brake_interface\<close>
  (\<open>Brake\<close>) is what the runtimes rely on of the brake; \<open>loss_counter\<close> (\<open>Loss_Counter\<close>) the packet-loss
  count of both runtimes; \<open>loop_account\<close> and \<open>watchdog_loop\<close> (\<open>Loop_Theorems\<close>) the account of a
  reporting loop and what a watchdog promises over any number of rounds, interpreted on the loops of both runtimes.

  \<^bold>\<open>What is shown.\<close> \<open>Control_Theorems\<close>: which commands are valid and that they resolve to finite
  actuator values in range. \<open>Session_Theorems\<close>: when a packet is accepted, that nothing is accepted
  twice in a session, that the signed text determines what the packet does, that refreshing fails
  closed, and where a replay is possible all the same, after a local expiry. \<open>Message_Schema\<close>: every message of the published
  JSON schema is accepted, and what is accepted beyond it. \<open>Runtime_Theorems\<close>, \<open>Report_Theorems\<close> and
  \<open>Loop_Theorems\<close>: the handler applies what was accepted and nothing else, the watchdog brakes, the
  loops keep their accounts. \<open>Node_Theorems\<close>: the refinement of the node to an abstract guard of the
  vehicle, what latches and releases the emergency, and what happens when a task ends;
  \<open>Node_Authority\<close>: every command that was applied goes back to a grant of the gateway, a signature
  and an operator, and the invariant of every reachable state; \<open>Node_Replay\<close>: no message is accepted
  twice over whole runs, refreshes that fail included, because the refresh pauses for longer than a
  message is fresh; \<open>Node_Accounts\<close>: lost packets and audit events of whole runs, from the handler and
  the watchdog to the reports and posts. \<open>Command_Line_Theorems\<close>: what becomes of a command line.
  \<open>Token_Theorems\<close>, \<open>Link_Theorems\<close> and \<open>Video_Theorems\<close>: credentials,
  tokens, the data channel, the ownership of cameras. \<open>Legacy_Theorems\<close>: the stage-1 receiver;
  \<open>Demo_Theorems\<close>: the demo's messages are accepted by it, and the demo does not start.
  \<open>Samples\<close> and \<open>Node_Samples\<close> hold the concrete inputs of the witnesses.

  \<^bold>\<open>Bounds and fuel.\<close> \<open>json_loads\<close> recurses on fuel \<open>2 * length + 1\<close>, shown to be enough for every text
  (\<open>json_loads_fuel\<close>); \<open>rec_limit\<close> is the interpreter's own recursion limit. A loop that may run for
  ever takes the list of its rounds and says, when the list is used up, that it is still running;
  every theorem on such a loop is about all lists. The percentile index \<open>int(n * 0.99)\<close> is compared
  with \<open>99 n div 100\<close> for fewer than \<open>2 ^ 40\<close> latencies, and integers are exact floats up to \<open>2 ^ 53\<close>.

  \<^bold>\<open>Assumed of the outside.\<close> PyNaCl, the HTTP client, OpenCV, LiveKit, the YAML parser, the file system
  and the clocks are arguments of the definitions that use them and may do anything, raise
  anything included, unless a theorem says otherwise in a hypothesis of its own. A YAML document is
  taken to be one of the values JSON has.

  \<^bold>\<open>Not modelled.\<close> Log output, usage texts and the wording of exceptions beyond what distinguishes
  them; the sockets and the event loop below the suspension points; how a signal reaches its handler
  (the handler cancels every task, which is the cancellation step of the node). The gateway (Go), the operator
  console (TypeScript), the deployment files and the end-to-end tests are written in other
  languages or are not part of the program.
\<close>

end
